(* ===== verification/Dfs_Prelude.thy ===== *)
theory Dfs_Prelude
  imports Main "HOL-Library.Word" "HOL-Library.List_Lexorder" "HOL-Library.FSet"
begin

unbundle bit_operations_syntax

text \<open>
  What every part of the model shares: the machine types, Rust's \<open>Result\<close> as a sum type,
  the fixed-width byte encodings of integers, decimal formatting (\<open>format!("{}", n)\<close>) and
  the part of \<open>std::path\<close> that the code uses.

  \<open>usize\<close> is \<open>nat\<close>: the code only compares such values and counts the elements of vectors
  with them, it never computes close to the bound. Where a \<open>usize\<close> is turned into bytes (the
  hash of the metadata) the 64-bit width is written out. A Rust \<open>String\<close> is the list of its
  UTF-8 bytes.
\<close>

type_synonym byte = "8 word"
type_synonym bytes = "8 word list"
type_synonym u16 = "16 word"
type_synonym u64 = "64 word"
type_synonym usize = nat

named_theorems path_simps
named_theorems fs_simps
named_theorems node_simps

section \<open>Results\<close>

text \<open>\<open>Result::map_err\<close> and \<open>Option::ok_or_else\<close>.\<close>

fun map_err :: "('e \<Rightarrow> 'f) \<Rightarrow> 'e + 'a \<Rightarrow> 'f + 'a" where
  "map_err f (Inl e) = Inl (f e)"
| "map_err f (Inr x) = Inr x"

fun ok_or :: "'e \<Rightarrow> 'a option \<Rightarrow> 'e + 'a" where
  "ok_or e None = Inl e"
| "ok_or e (Some x) = Inr x"

lemma map_err_Inr [simp]: "map_err f r = Inr x \<longleftrightarrow> r = Inr x"
  by (cases r) auto

lemma map_err_Inl: "map_err f r = Inl e \<longleftrightarrow> (\<exists>e'. r = Inl e' \<and> e = f e')"
  by (cases r) auto

lemma ok_or_Inr [simp]: "ok_or e q = Inr x \<longleftrightarrow> q = Some x"
  by (cases q) auto

lemma ok_or_Inl [simp]: "ok_or e q = Inl e' \<longleftrightarrow> q = None \<and> e' = e"
  by (cases q) auto

text \<open>Looking an index up in a vector: \<open>slice::get\<close> and \<open>Iterator::nth\<close>.\<close>

definition nth_opt :: "'a list \<Rightarrow> nat \<Rightarrow> 'a option" where
  "nth_opt xs i = (if i < length xs then Some (xs ! i) else None)"

lemma nth_opt_Some: "nth_opt xs i = Some x \<longleftrightarrow> i < length xs \<and> x = xs ! i"
  by (auto simp: nth_opt_def)

lemma nth_opt_None: "nth_opt xs i = None \<longleftrightarrow> length xs \<le> i"
  by (auto simp: nth_opt_def)

section \<open>Integers as bytes\<close>

text \<open>\<open>u64::to_be_bytes\<close>, \<open>u64::from_be_bytes\<close> and \<open>to_le_bytes\<close>.\<close>

definition to_be_bytes :: "u64 \<Rightarrow> bytes" where
  "to_be_bytes w = rev (map (\<lambda>i. ucast (drop_bit (8 * i) w)) [0..<8])"

definition from_be_bytes :: "bytes \<Rightarrow> u64" where
  "from_be_bytes bs = foldl (\<lambda>a b. push_bit 8 a OR ucast b) 0 bs"

definition to_le_bytes :: "u64 \<Rightarrow> bytes" where
  "to_le_bytes w = rev (to_be_bytes w)"

lemma length_to_be_bytes [simp]: "length (to_be_bytes w) = 8"
  by (simp add: to_be_bytes_def)

lemma length_to_le_bytes [simp]: "length (to_le_bytes w) = 8"
  by (simp add: to_le_bytes_def)

text \<open>A bit of the accumulated integer is a bit of one of the bytes read, from the last on.\<close>

lemma bit_foldl_bytes:
  fixes a :: u64 and bs :: bytes
  shows "n < 64 \<Longrightarrow> bit (foldl (\<lambda>a b. push_bit 8 a OR ucast b) a bs) n \<longleftrightarrow>
    (if n < 8 * length bs then bit (rev bs ! (n div 8)) (n mod 8) else bit a (n - 8 * length bs))"
proof (induction bs arbitrary: a)
  case Nil
  then show ?case by simp
next
  case (Cons b bs)
  show ?case
  proof (cases "n < 8 * length bs")
    case True
    then have "n div 8 < length bs" by auto
    with True Cons show ?thesis by (simp add: nth_append)
  next
    case False
    have d: "n div 8 = length bs" if "n < 8 * length bs + 8"
      using that False by (intro div_nat_eqI) auto
    then have "n mod 8 = n - 8 * length bs" if "n < 8 * length bs + 8"
      using that by (simp flip: minus_mult_div_eq_mod)
    moreover have "\<not> bit b (n - 8 * length bs)" if "\<not> n < 8 * length bs + 8"
      using that bit_imp_le_length [of b "n - 8 * length bs"] by auto
    ultimately show ?thesis
      using d False Cons by (auto simp: bit_simps nth_append add.commute [of 8])
  qed
qed

lemma from_to_be_bytes [simp]: "from_be_bytes (to_be_bytes w) = w"
proof (rule bit_word_eqI)
  fix n assume "n < LENGTH(64)"
  then have n: "n < 64" "n div 8 < 8" by auto
  have "8 * (n div 8) + n mod 8 = n" by simp
  with n show "bit (from_be_bytes (to_be_bytes w)) n \<longleftrightarrow> bit w n"
    by (simp add: from_be_bytes_def bit_foldl_bytes to_be_bytes_def bit_simps del: upt_rec_numeral)
qed

lemma to_from_be_bytes_nth:
  assumes l: "length bs = 8" and i: "i < 8"
  shows "rev (to_be_bytes (from_be_bytes bs)) ! i = rev bs ! i"
proof (rule bit_word_eqI)
  fix n assume "n < LENGTH(8)"
  then have n: "n < 8" by simp
  with i have "8 * i + n < 64" by simp
  with n i show "bit (rev (to_be_bytes (from_be_bytes bs)) ! i) n \<longleftrightarrow> bit (rev bs ! i) n"
    by (simp add: from_be_bytes_def to_be_bytes_def bit_simps bit_foldl_bytes l
        del: upt_rec_numeral)
qed

lemma to_from_be_bytes [simp]: "length bs = 8 \<Longrightarrow> to_be_bytes (from_be_bytes bs) = bs"
proof -
  assume l: "length bs = 8"
  have "rev (to_be_bytes (from_be_bytes bs)) = rev bs"
    by (rule nth_equalityI) (auto simp: l to_from_be_bytes_nth)
  then show ?thesis by simp
qed

lemma to_be_bytes_inject [simp]: "to_be_bytes v = to_be_bytes w \<longleftrightarrow> v = w"
  by (metis from_to_be_bytes)

lemma to_le_bytes_inject [simp]: "to_le_bytes v = to_le_bytes w \<longleftrightarrow> v = w"
  by (simp add: to_le_bytes_def)

lemma unat_u64_small: "n < 2 ^ 64 \<Longrightarrow> unat (word_of_nat n :: u64) = n"
  by (simp add: unat_of_nat)

section \<open>Text\<close>

definition string_bytes :: "string \<Rightarrow> bytes" where
  "string_bytes s = map (\<lambda>c. word_of_nat (of_char c)) s"

lemma unat_char_byte [simp]: "unat (word_of_nat (of_char c) :: byte) = of_char c"
proof -
  have "of_char c < (256 :: nat)"
    by (rule nat_of_char_less_256)
  then show ?thesis by (simp add: unat_of_nat)
qed

lemma string_bytes_inject [simp]: "string_bytes s = string_bytes t \<longleftrightarrow> s = t"
proof -
  have "inj (\<lambda>c. word_of_nat (of_char c) :: byte)"
    by (rule injI) (metis unat_char_byte of_char_eq_iff)
  then show ?thesis
    by (simp add: string_bytes_def inj_map_eq_map)
qed

lemma length_string_bytes [simp]: "length (string_bytes s) = length s"
  by (simp add: string_bytes_def)

text \<open>\<open>format!("{}", n)\<close> of an unsigned integer.\<close>

definition digit :: "nat \<Rightarrow> char" where
  "digit d = char_of (48 + d)"

fun show_nat :: "nat \<Rightarrow> string" where
  "show_nat n = (if n < 10 then [digit n] else show_nat (n div 10) @ [digit (n mod 10)])"

declare show_nat.simps [simp del]

definition read_nat :: "string \<Rightarrow> nat" where
  "read_nat s = foldl (\<lambda>a c. 10 * a + (of_char c - 48)) 0 s"

lemma of_char_digit: "k < 10 \<Longrightarrow> of_char (digit k) = 48 + k"
  by (simp add: digit_def)

lemma read_show_nat [simp]: "read_nat (show_nat n) = n"
proof (induction n rule: show_nat.induct)
  case (1 n)
  show ?case
  proof (cases "n < 10")
    case True
    then show ?thesis by (simp add: show_nat.simps read_nat_def of_char_digit)
  next
    case False
    with "1" have "read_nat (show_nat (n div 10)) = n div 10" by simp
    with False show ?thesis
      by (subst show_nat.simps) (simp add: read_nat_def of_char_digit)
  qed
qed

lemma show_nat_inject [simp]: "show_nat m = show_nat n \<longleftrightarrow> m = n"
  by (metis read_show_nat)

lemma show_nat_nonempty [simp]: "show_nat n \<noteq> []"
  by (subst show_nat.simps) simp

lemma show_nat_digits: "set (show_nat n) \<subseteq> digit ` {0..<10}"
proof (induction n rule: show_nat.induct)
  case (1 n)
  then show ?case by (subst show_nat.simps) (auto split: if_splits)
qed

lemma digit_ge: "c \<in> digit ` {0..<10} \<Longrightarrow> 48 \<le> (of_char c :: nat)"
  by (auto simp: of_char_digit)

lemma show_nat_plain: "c \<in> set (show_nat n) \<Longrightarrow> c \<noteq> CHR ''/'' \<and> c \<noteq> CHR ''.''"
proof -
  assume "c \<in> set (show_nat n)"
  with show_nat_digits [of n] have "48 \<le> (of_char c :: nat)" by (blast intro: digit_ge)
  moreover have "(of_char CHR ''/'' :: nat) = 47" "(of_char CHR ''.'' :: nat) = 46" by simp_all
  ultimately show ?thesis by auto
qed

section \<open>Paths\<close>

text \<open>
  A \<open>PathBuf\<close> as its \<open>components()\<close> see it: whether it starts at the root, and the
  components between the slashes; empty components vanish, and so does \<open>"."\<close> except at the
  start of a relative path. \<open>".."\<close> is kept, as \<open>std::path\<close> keeps it.
\<close>

datatype path = Path (is_absolute: bool) (components: "string list")

fun split_slash :: "string \<Rightarrow> string list" where
  "split_slash [] = [[]]"
| "split_slash (c # cs) =
     (if c = CHR ''/'' then [] # split_slash cs
      else case split_slash cs of [] \<Rightarrow> [[c]] | w # ws \<Rightarrow> (c # w) # ws)"

definition path_of_string :: "string \<Rightarrow> path" where
  "path_of_string s =
     (let cs = filter (\<lambda>c. c \<noteq> []) (split_slash s);
          rooted = (s \<noteq> [] \<and> hd s = CHR ''/'');
          dot = (if \<not> rooted \<and> cs \<noteq> [] \<and> hd cs = ''.'' then [''.''] else [])
      in Path rooted (dot @ filter (\<lambda>c. c \<noteq> ''.'') cs))"

text \<open>\<open>Path::join\<close>: an absolute argument replaces the path.\<close>

definition path_join :: "path \<Rightarrow> path \<Rightarrow> path" where
  "path_join p q =
     (if is_absolute q then q
      else if \<not> is_absolute p \<and> components p = [] then q
      else Path (is_absolute p) (components p @ filter (\<lambda>c. c \<noteq> ''.'') (components q)))"

abbreviation path_join_str :: "path \<Rightarrow> string \<Rightarrow> path" where
  "path_join_str p s \<equiv> path_join p (path_of_string s)"

text \<open>\<open>Path::parent\<close> and \<open>Path::file_name\<close>.\<close>

definition path_parent :: "path \<Rightarrow> path option" where
  "path_parent p = (if components p = [] then None
                    else Some (Path (is_absolute p) (butlast (components p))))"

definition path_file_name :: "path \<Rightarrow> string option" where
  "path_file_name p =
     (if components p = [] \<or> last (components p) \<in> {''.'', ''..''} then None
      else Some (last (components p)))"

text \<open>The path and its ancestors from the top down, without the root or the empty path.\<close>

definition path_prefixes :: "path \<Rightarrow> path list" where
  "path_prefixes p =
     map (\<lambda>n. Path (is_absolute p) (take n (components p))) [1..<length (components p) + 1]"

text \<open>
  A plain name: one component that stays below the directory it is joined to. Its characters
  hold no slash and it is none of \<open>""\<close>, \<open>"."\<close> and \<open>".."\<close>.
\<close>

definition plain_name :: "string \<Rightarrow> bool" where
  "plain_name s \<longleftrightarrow> CHR ''/'' \<notin> set s \<and> s \<notin> {[], ''.'', ''..''}"

lemma split_slash_no_slash: "CHR ''/'' \<notin> set s \<Longrightarrow> split_slash s = [s]"
  by (induction s) auto

lemma path_of_plain_name [path_simps]: "plain_name s \<Longrightarrow> path_of_string s = Path False [s]"
  by (auto simp: plain_name_def path_of_string_def split_slash_no_slash Let_def dest: hd_in_set)

lemma path_join_plain [path_simps]:
  "plain_name s \<Longrightarrow> path_join_str p s = Path (is_absolute p) (components p @ [s])"
  by (cases p) (auto simp: path_of_plain_name path_join_def plain_name_def)

lemma path_join_absolute [path_simps]: "is_absolute q \<Longrightarrow> path_join p q = q"
  by (simp add: path_join_def)

lemma path_parent_join_plain [path_simps]:
  "plain_name s \<Longrightarrow> path_parent (path_join_str p s) = Some p"
  by (simp add: path_join_plain path_parent_def)

lemma path_file_name_join_plain [path_simps]:
  "plain_name s \<Longrightarrow> path_file_name (path_join_str p s) = Some s"
  by (simp add: path_join_plain path_file_name_def) (simp add: plain_name_def)

lemma path_join_plain_inject [path_simps]:
  "plain_name s \<Longrightarrow> plain_name t \<Longrightarrow>
   path_join_str p s = path_join_str q t \<longleftrightarrow> p = q \<and> s = t"
  by (cases p; cases q) (auto simp: path_join_plain)

text \<open>The file name of a path is a component of it, so it never holds a slash.\<close>

lemma split_slash_components: "c \<in> set (split_slash s) \<Longrightarrow> CHR ''/'' \<notin> set c"
proof (induction s arbitrary: c)
  case Nil
  then show ?case by simp
next
  case (Cons x xs)
  then show ?case
    by (cases "split_slash xs") (auto split: if_splits)
qed

lemma path_of_string_components:
  "c \<in> set (components (path_of_string s)) \<Longrightarrow> CHR ''/'' \<notin> set c \<and> c \<noteq> []"
  by (auto simp: path_of_string_def Let_def split: if_splits dest: split_slash_components)

lemma path_file_name_plain:
  "path_file_name (path_of_string s) = Some name \<Longrightarrow> plain_name name"
proof -
  assume *: "path_file_name (path_of_string s) = Some name"
  then have "name \<in> set (components (path_of_string s))"
    by (auto simp: path_file_name_def split: if_splits)
  with * show ?thesis
    by (auto simp: plain_name_def path_file_name_def split: if_splits
        dest: path_of_string_components)
qed

end
