(* ===== verification/Local_Fs.thy ===== *)
theory Local_Fs
  imports Dfs_Prelude
begin

text \<open>
  The file system as \<open>tokio::fs\<close> (which runs \<open>std::fs\<close> on a worker thread) shows it to the
  program: a map from paths to files and directories, the failures the operating system may
  report, and the operations the program calls. Any operation may fail: \<open>fs_fault\<close> says for an
  operation, a path and the present contents whether the system refuses it, and \<open>fs_short\<close>
  whether a write stops after some bytes; \<open>fs_join\<close> whether a task given to \<open>spawn_blocking\<close> is
  lost instead of run (a \<open>JoinError\<close>). Theorems quantify over both, so a statement that does
  not ask for a healthy file system holds under every pattern of failures.

  Paths are compared as \<open>std::path\<close> compares them, component by component: links, mount points
  and the resolution of \<open>".."\<close> are not modelled.
\<close>

datatype fs_node = FileNode bytes | DirNode

datatype fs_op = OpStat | OpRead | OpCreate | OpCreateDir | OpRename

text \<open>\<open>std::io::Error\<close>: the errors of the operating system, and an error made by the program.\<close>

datatype io_error =
  Os_NotFound | Os_NotADirectory | Os_IsADirectory | Os_Exists
| Os_Error nat string | Io_Custom string

fun io_error_display :: "io_error \<Rightarrow> string" where
  "io_error_display Os_NotFound = ''No such file or directory (os error 2)''"
| "io_error_display Os_NotADirectory = ''Not a directory (os error 20)''"
| "io_error_display Os_IsADirectory = ''Is a directory (os error 21)''"
| "io_error_display Os_Exists = ''File exists (os error 17)''"
| "io_error_display (Os_Error n s) = s @ '' (os error '' @ show_nat n @ '')''"
| "io_error_display (Io_Custom s) = s"

record filesys =
  fs_nodes :: "path \<Rightarrow> fs_node option"
  fs_fault :: "fs_op \<Rightarrow> path \<Rightarrow> (path \<Rightarrow> fs_node option) \<Rightarrow> io_error option"
  fs_short :: "path \<Rightarrow> bytes \<Rightarrow> (path \<Rightarrow> fs_node option) \<Rightarrow> (io_error \<times> nat) option"
  fs_join :: "(path \<Rightarrow> fs_node option) \<Rightarrow> string option"

definition healthy :: "filesys \<Rightarrow> bool" where
  "healthy fs \<longleftrightarrow> fs_fault fs = (\<lambda>_ _ _. None) \<and> fs_short fs = (\<lambda>_ _ _. None) \<and>
     fs_join fs = (\<lambda>_. None)"

text \<open>The root and the working directory (the empty path) are always there.\<close>

definition node_at :: "filesys \<Rightarrow> path \<Rightarrow> fs_node option" where
  "node_at fs p = (if components p = [] then Some DirNode else fs_nodes fs p)"

definition parent_is_dir :: "filesys \<Rightarrow> path \<Rightarrow> bool" where
  "parent_is_dir fs p =
     (case path_parent p of None \<Rightarrow> False | Some d \<Rightarrow> node_at fs d = Some DirNode)"

section \<open>Operations\<close>

definition fs_try_exists :: "filesys \<Rightarrow> path \<Rightarrow> io_error + bool" where
  "fs_try_exists fs p =
     (case fs_fault fs OpStat p (fs_nodes fs) of
        Some e \<Rightarrow> Inl e
      | None \<Rightarrow> Inr (node_at fs p \<noteq> None))"

definition fs_metadata :: "filesys \<Rightarrow> path \<Rightarrow> io_error + fs_node" where
  "fs_metadata fs p =
     (case fs_fault fs OpStat p (fs_nodes fs) of
        Some e \<Rightarrow> Inl e
      | None \<Rightarrow> (case node_at fs p of None \<Rightarrow> Inl Os_NotFound | Some n \<Rightarrow> Inr n))"

definition fs_read :: "filesys \<Rightarrow> path \<Rightarrow> io_error + bytes" where
  "fs_read fs p =
     (case fs_fault fs OpRead p (fs_nodes fs) of
        Some e \<Rightarrow> Inl e
      | None \<Rightarrow> (case node_at fs p of
                   None \<Rightarrow> Inl Os_NotFound
                 | Some DirNode \<Rightarrow> Inl Os_IsADirectory
                 | Some (FileNode b) \<Rightarrow> Inr b))"

text \<open>\<open>File::create\<close> makes the file or truncates it; its directory must exist.\<close>

definition fs_create :: "filesys \<Rightarrow> path \<Rightarrow> (io_error + unit) \<times> filesys" where
  "fs_create fs p =
     (case fs_fault fs OpCreate p (fs_nodes fs) of
        Some e \<Rightarrow> (Inl e, fs)
      | None \<Rightarrow>
          if node_at fs p = Some DirNode then (Inl Os_IsADirectory, fs)
          else if \<not> parent_is_dir fs p then (Inl Os_NotFound, fs)
          else (Inr (), fs\<lparr>fs_nodes := (fs_nodes fs)(p \<mapsto> FileNode [])\<rparr>))"

text \<open>\<open>write_all\<close> on an open file appends; a failing one may leave a prefix behind.\<close>

definition file_bytes :: "filesys \<Rightarrow> path \<Rightarrow> bytes" where
  "file_bytes fs p = (case fs_nodes fs p of Some (FileNode b) \<Rightarrow> b | _ \<Rightarrow> [])"

definition fs_append :: "filesys \<Rightarrow> path \<Rightarrow> bytes \<Rightarrow> (io_error + unit) \<times> filesys" where
  "fs_append fs p b =
     (case fs_short fs p b (fs_nodes fs) of
        Some (e, k) \<Rightarrow>
          (Inl e, fs\<lparr>fs_nodes := (fs_nodes fs)(p \<mapsto> FileNode (file_bytes fs p @ take k b))\<rparr>)
      | None \<Rightarrow>
          (Inr (), fs\<lparr>fs_nodes := (fs_nodes fs)(p \<mapsto> FileNode (file_bytes fs p @ b))\<rparr>))"

definition fs_write :: "filesys \<Rightarrow> path \<Rightarrow> bytes \<Rightarrow> (io_error + unit) \<times> filesys" where
  "fs_write fs p b =
     (case fs_create fs p of (Inl e, fs') \<Rightarrow> (Inl e, fs') | (Inr _, fs') \<Rightarrow> fs_append fs' p b)"

definition is_file_node :: "fs_node option \<Rightarrow> bool" where
  "is_file_node n = (case n of Some (FileNode _) \<Rightarrow> True | _ \<Rightarrow> False)"

definition fs_create_dir_all :: "filesys \<Rightarrow> path \<Rightarrow> (io_error + unit) \<times> filesys" where
  "fs_create_dir_all fs p =
     (case fs_fault fs OpCreateDir p (fs_nodes fs) of
        Some e \<Rightarrow> (Inl e, fs)
      | None \<Rightarrow>
          if is_file_node (node_at fs p) then (Inl Os_Exists, fs)
          else if list_ex (\<lambda>q. is_file_node (fs_nodes fs q)) (path_prefixes p)
          then (Inl Os_NotADirectory, fs)
          else (Inr (), fs\<lparr>fs_nodes := foldl (\<lambda>m q. m(q \<mapsto> DirNode)) (fs_nodes fs) (path_prefixes p)\<rparr>))"

text \<open>\<open>rename\<close> of a file; the program renames nothing else.\<close>

definition fs_rename :: "filesys \<Rightarrow> path \<Rightarrow> path \<Rightarrow> (io_error + unit) \<times> filesys" where
  "fs_rename fs p q =
     (case fs_fault fs OpRename p (fs_nodes fs) of
        Some e \<Rightarrow> (Inl e, fs)
      | None \<Rightarrow>
          (case fs_nodes fs p of
             Some (FileNode b) \<Rightarrow>
               if node_at fs q = Some DirNode then (Inl Os_IsADirectory, fs)
               else if \<not> parent_is_dir fs q then (Inl Os_NotFound, fs)
               else (Inr (), fs\<lparr>fs_nodes := (fs_nodes fs)(p := None, q \<mapsto> FileNode b)\<rparr>)
           | Some DirNode \<Rightarrow> (Inl Os_NotADirectory, fs)
           | None \<Rightarrow> (Inl Os_NotFound, fs)))"

section \<open>What the operations leave\<close>

lemma components_join_plain [simp]:
  "plain_name s \<Longrightarrow> components (path_join_str p s) \<noteq> []"
  by (simp add: path_join_plain)

lemma fs_read_Inr:
  "fs_read fs p = Inr b \<Longrightarrow> components p \<noteq> [] \<and> fs_nodes fs p = Some (FileNode b)"
  by (auto simp: fs_read_def node_at_def split: option.splits fs_node.splits if_splits)

lemma fs_read_healthy [fs_simps]:
  "healthy fs \<Longrightarrow> components p \<noteq> [] \<Longrightarrow> fs_nodes fs p = Some (FileNode b) \<Longrightarrow> fs_read fs p = Inr b"
  by (simp add: fs_read_def healthy_def node_at_def)

lemma fs_create_cases:
  obtains (fail) e where "fs_create fs p = (Inl e, fs)"
        | (ok) "fs_create fs p = (Inr (), fs\<lparr>fs_nodes := (fs_nodes fs)(p \<mapsto> FileNode [])\<rparr>)"
               "node_at fs p \<noteq> Some DirNode" "parent_is_dir fs p"
  by (cases "fs_fault fs OpCreate p (fs_nodes fs)"; cases "node_at fs p = Some DirNode";
      cases "parent_is_dir fs p"; simp add: fs_create_def)

lemma fs_append_cases:
  obtains (short) e k where "fs_append fs p b =
      (Inl e, fs\<lparr>fs_nodes := (fs_nodes fs)(p \<mapsto> FileNode (file_bytes fs p @ take k b))\<rparr>)"
        | (ok) "fs_append fs p b =
      (Inr (), fs\<lparr>fs_nodes := (fs_nodes fs)(p \<mapsto> FileNode (file_bytes fs p @ b))\<rparr>)"
  by (cases "fs_short fs p b (fs_nodes fs)") (auto simp: fs_append_def)

lemma fs_write_ok:
  "fs_write fs p b = (Inr u, fs') \<Longrightarrow> fs' = fs\<lparr>fs_nodes := (fs_nodes fs)(p \<mapsto> FileNode b)\<rparr>"
  by (cases rule: fs_create_cases [of fs p])
     (auto simp: fs_write_def fs_append_def file_bytes_def split: option.splits)

text \<open>Whatever happens, a write touches only its own path and never the fault oracle.\<close>

lemma fs_write_frame:
  assumes "fs_write fs p b = (r, fs')"
  shows "q \<noteq> p \<Longrightarrow> fs_nodes fs' q = fs_nodes fs q"
    and "fs_fault fs' = fs_fault fs" and "fs_short fs' = fs_short fs" and "fs_join fs' = fs_join fs"
  using assms
  by (cases rule: fs_create_cases [of fs p];
      auto simp: fs_write_def fs_append_def split: option.splits)+

lemma fs_append_frame:
  assumes "fs_append fs p b = (r, fs')"
  shows "q \<noteq> p \<Longrightarrow> fs_nodes fs' q = fs_nodes fs q"
    and "fs_fault fs' = fs_fault fs" and "fs_short fs' = fs_short fs" and "fs_join fs' = fs_join fs"
  using assms by (auto simp: fs_append_def split: option.splits)

lemma healthy_write [fs_simps]:
  "fs_write fs p b = (r, fs') \<Longrightarrow> healthy fs' = healthy fs"
  by (auto simp: healthy_def dest: fs_write_frame)

lemma healthy_nodes [simp]: "healthy (fs\<lparr>fs_nodes := m\<rparr>) = healthy fs"
  by (simp add: healthy_def)

lemma fs_write_healthy [fs_simps]:
  "healthy fs \<Longrightarrow> node_at fs p \<noteq> Some DirNode \<Longrightarrow> parent_is_dir fs p \<Longrightarrow>
   fs_write fs p b = (Inr (), fs\<lparr>fs_nodes := (fs_nodes fs)(p \<mapsto> FileNode b)\<rparr>)"
  by (simp add: fs_write_def fs_create_def fs_append_def healthy_def file_bytes_def)

lemma fs_append_healthy [fs_simps]:
  "healthy fs \<Longrightarrow> fs_append fs p b =
     (Inr (), fs\<lparr>fs_nodes := (fs_nodes fs)(p \<mapsto> FileNode (file_bytes fs p @ b))\<rparr>)"
  by (simp add: fs_append_def healthy_def)

text \<open>Creating a directory adds directories and changes no node that is there.\<close>

lemma foldl_dirs: "foldl (\<lambda>m q. m(q \<mapsto> DirNode)) m qs q = (if q \<in> set qs then Some DirNode else m q)"
  by (induction qs arbitrary: m) auto

lemma path_in_prefixes: "components p \<noteq> [] \<Longrightarrow> p \<in> set (path_prefixes p)"
  by (cases p)
     (auto simp: path_prefixes_def image_iff Suc_le_eq intro!: bexI [of _ "length (components p)"])

lemma fs_create_dir_all_ok:
  assumes "fs_create_dir_all fs p = (Inr u, fs')"
  shows "node_at fs' p = Some DirNode"
    and "fs_nodes fs q = Some n \<Longrightarrow> fs_nodes fs' q = Some n"
    and "fs_nodes fs' q = Some (FileNode b) \<longleftrightarrow> fs_nodes fs q = Some (FileNode b)"
proof -
  from assms have *: "fs_nodes fs' = foldl (\<lambda>m q. m(q \<mapsto> DirNode)) (fs_nodes fs) (path_prefixes p)"
    and nf: "\<And>q. q \<in> set (path_prefixes p) \<Longrightarrow> \<not> is_file_node (fs_nodes fs q)"
    by (auto simp: fs_create_dir_all_def list_ex_iff split: option.splits if_splits)
  show "node_at fs' p = Some DirNode"
    by (simp add: node_at_def * foldl_dirs path_in_prefixes)
  show "fs_nodes fs q = Some n \<Longrightarrow> fs_nodes fs' q = Some n"
    using nf [of q] by (cases n) (auto simp: * foldl_dirs is_file_node_def)
  show "fs_nodes fs' q = Some (FileNode b) \<longleftrightarrow> fs_nodes fs q = Some (FileNode b)"
    using nf [of q] by (auto simp: * foldl_dirs is_file_node_def)
qed

lemma fs_create_dir_all_frame:
  assumes "fs_create_dir_all fs p = (r, fs')"
  shows "fs_fault fs' = fs_fault fs" and "fs_short fs' = fs_short fs" and "fs_join fs' = fs_join fs"
    and "q \<notin> set (path_prefixes p) \<Longrightarrow> fs_nodes fs' q = fs_nodes fs q"
  using assms by (auto simp: fs_create_dir_all_def foldl_dirs split: option.splits if_splits)

end
