(* ===== verification/Errors.thy ===== *)
theory Errors
  imports Local_Fs
begin

text \<open>
  The error types of the program with the texts their \<open>Display\<close> instances produce
  (the \<open>errors.rs\<close> files, and \<open>RocksDbStoreError\<close> of \<open>file_store/rocksdb.rs\<close>). An error of a
  library outside \<open>src/\<close> is the text it displays, all that the code ever uses of it. The
  \<open>#[from]\<close> conversions that the operator \<open>?\<close> inserts are the constructors themselves.
\<close>

type_synonym join_error = string
type_synonym cbor_error = string
type_synonym rocksdb_error = string

fun join_slash :: "string list \<Rightarrow> string" where
  "join_slash [] = []"
| "join_slash [c] = c"
| "join_slash (c # cs) = c @ CHR ''/'' # join_slash cs"

definition path_display :: "path \<Rightarrow> string" where
  "path_display p = (if is_absolute p then ''/'' else []) @ join_slash (components p)"

datatype RocksDbStoreError =
  Rse_RocksDb rocksdb_error | Rse_CfMissing string | Rse_CBor cbor_error | Rse_Join join_error

fun RocksDbStoreError_display :: "RocksDbStoreError \<Rightarrow> string" where
  "RocksDbStoreError_display (Rse_RocksDb e) = ''RocksDB error: '' @ e"
| "RocksDbStoreError_display (Rse_CfMissing s) = ''Column family does not exist: '' @ s"
| "RocksDbStoreError_display (Rse_CBor e) = ''Cbor error: '' @ e"
| "RocksDbStoreError_display (Rse_Join e) = ''Join error: '' @ e"

datatype FileStoreError = Fse_RocksDb RocksDbStoreError | Fse_JoinError join_error

fun FileStoreError_display :: "FileStoreError \<Rightarrow> string" where
  "FileStoreError_display (Fse_RocksDb e) = ''RocksDB store error: '' @ RocksDbStoreError_display e"
| "FileStoreError_display (Fse_JoinError e) = ''Join error: '' @ e"

datatype FileProcessingError =
  Fpe_FileAccess string | Fpe_Io io_error | Fpe_MerkleTreeCreation string
| Fpe_Cbor cbor_error | Fpe_TaskJoin join_error

fun FileProcessingError_display :: "FileProcessingError \<Rightarrow> string" where
  "FileProcessingError_display (Fpe_FileAccess s) = ''File cannot be accessed: '' @ s"
| "FileProcessingError_display (Fpe_Io e) = ''IO error: '' @ io_error_display e"
| "FileProcessingError_display (Fpe_MerkleTreeCreation s) = ''Merkle tree cannot be created: '' @ s"
| "FileProcessingError_display (Fpe_Cbor e) = ''Metadata file cannot be created: '' @ e"
| "FileProcessingError_display (Fpe_TaskJoin e) = ''Task join error: '' @ e"

datatype P2pNetworkError =
  Pne_FailedToGetKeypairFileDir path | Pne_IO io_error | Pne_KeypairDecoding string
| Pne_Libp2pNoise string | Pne_Libp2pSwarmBuilder string | Pne_Libp2pMultiAddrParse string
| Pne_Libp2pTransport string | Pne_Libp2pGossipsubSubscription string | Pne_CBor cbor_error
| Pne_Kademlia string | Pne_FileStorage FileStoreError

fun P2pNetworkError_display :: "P2pNetworkError \<Rightarrow> string" where
  "P2pNetworkError_display (Pne_FailedToGetKeypairFileDir p) =
     ''Failed to get directory of the keypair files: '' @ path_display p"
| "P2pNetworkError_display (Pne_IO e) = ''I/O error: '' @ io_error_display e"
| "P2pNetworkError_display (Pne_KeypairDecoding e) = ''Serialization error: '' @ e"
| "P2pNetworkError_display (Pne_Libp2pNoise e) = ''Libp2p noise error: '' @ e"
| "P2pNetworkError_display (Pne_Libp2pSwarmBuilder e) = ''Libp2p swarm builder error: '' @ e"
| "P2pNetworkError_display (Pne_Libp2pMultiAddrParse e) =
     ''Parsing libp2p multiaddress error: '' @ e"
| "P2pNetworkError_display (Pne_Libp2pTransport e) = ''Libp2p transport error: '' @ e"
| "P2pNetworkError_display (Pne_Libp2pGossipsubSubscription e) =
     ''Libp2p gossipsub subscription error: '' @ e"
| "P2pNetworkError_display (Pne_CBor e) = ''CBor error: '' @ e"
| "P2pNetworkError_display (Pne_Kademlia e) = ''Kademlia error: '' @ e"
| "P2pNetworkError_display (Pne_FileStorage e) = ''File store error: '' @ FileStoreError_display e"

datatype GrpcServerError = Gse_AddressParse string | Gse_Transport string

fun GrpcServerError_display :: "GrpcServerError \<Rightarrow> string" where
  "GrpcServerError_display (Gse_AddressParse e) = ''Failed to parse address: '' @ e"
| "GrpcServerError_display (Gse_Transport e) = ''GRPC transport error: '' @ e"

datatype ServerError =
  Sve_TaskJoin join_error | Sve_P2pNetwork P2pNetworkError | Sve_GrpcServer GrpcServerError
| Sve_FileStore FileStoreError | Sve_Io io_error | Sve_Custom string

fun ServerError_display :: "ServerError \<Rightarrow> string" where
  "ServerError_display (Sve_TaskJoin e) = ''Task join error: '' @ e"
| "ServerError_display (Sve_P2pNetwork e) = ''P2P Network error: '' @ P2pNetworkError_display e"
| "ServerError_display (Sve_GrpcServer e) = ''GRPC Server error: '' @ GrpcServerError_display e"
| "ServerError_display (Sve_FileStore e) = ''File store error: '' @ FileStoreError_display e"
| "ServerError_display (Sve_Io e) = ''IO error: '' @ io_error_display e"
| "ServerError_display (Sve_Custom s) = ''Error: '' @ s"

end
