(* ===== verification/Domain.thy ===== *)
theory Domain
  imports Errors
begin

text \<open>
  The data of the program: the records of \<open>file_store/domain.rs\<close>, the metadata of a file
  (\<open>file_processing/processing.rs\<close>), the messages and commands of \<open>p2p/domain.rs\<close>, and the key
  under which a file is known.

  The codec (\<open>serde_cbor\<close>) and the hasher (\<open>rs_sha256\<close>) are libraries outside \<open>src/\<close>:
  they are the record \<open>libs\<close>, an argument of every definition that uses them. The one thing
  the code relies on is that decoding undoes encoding, \<open>libs_ok\<close>.
\<close>

section \<open>Records\<close>

record FileMetadata =
  md_original_file_name :: string
  md_total_chunks :: usize
  md_chunks_dir :: path
  md_merkle_root :: bytes
  md_merkle_proofs :: "bytes list"
  md_chunk_file_extension :: string
  md_public :: bool

datatype PublishedFileKey = PublishedFileKey (key_bytes: bytes)

record PublishedFileRecord =
  pub_key :: PublishedFileKey
  pub_original_file_name :: string
  pub_chunks_dir :: path
  pub_public :: bool

text \<open>A \<open>HashSet<usize>\<close> is finite, hence the type of finite sets.\<close>

record PendingDownloadRecord =
  pend_key :: PublishedFileKey
  pend_original_file_name :: string
  pend_chunks_dir :: path
  pend_downloaded_chunks :: "usize fset"

definition PendingDownloadRecord_new ::
  "PublishedFileKey \<Rightarrow> string \<Rightarrow> path \<Rightarrow> PendingDownloadRecord" where
  "PendingDownloadRecord_new key name dir =
     \<lparr>pend_key = key, pend_original_file_name = name, pend_chunks_dir = dir,
      pend_downloaded_chunks = {||}\<rparr>"

record MetadataFileRequest =
  mreq_file_id :: u64

record FileChunkRequest =
  creq_file_id :: u64
  creq_chunk_id :: usize

datatype FileResponse = Success bytes | NotFound | Error string

record FileFound =
  found_file_id :: u64
  found_file_name :: string

record FileSearchResult =
  res_session_id :: string
  res_file_found :: FileFound

record FileSearchRequest =
  sreq_session_id :: string
  sreq_search_value :: string

record PublishedFile =
  pf_total_chunks :: usize
  pf_merkle_root :: bytes

record DownloadFileChunk =
  dfc_file_id :: u64
  dfc_chunk_id :: usize
  dfc_target_dir :: path

text \<open>
  The sending ends of the channels a command carries: a \<open>oneshot::Sender\<close> answers one request,
  an \<open>mpsc::Sender\<close> feeds one search. Only their identity matters to the model.
\<close>

type_synonym oneshot = nat
type_synonym mpsc_tx = nat
type_synonym PeerId = bytes

datatype P2pCommand =
  RequestMetadata MetadataFileRequest oneshot
| RequestFileChunk FileChunkRequest oneshot
| ProvideMetadata FileMetadata
| ProvideFileChunk FileChunkRequest
| FileSearch FileSearchRequest mpsc_tx
| FileSearchResultCmd PeerId FileSearchResult
| FileSearchAbort string

section \<open>The libraries the data goes through\<close>

record libs =
  enc_metadata :: "FileMetadata \<Rightarrow> cbor_error + bytes"
  dec_metadata :: "bytes \<Rightarrow> cbor_error + FileMetadata"
  enc_published :: "PublishedFileRecord \<Rightarrow> cbor_error + bytes"
  dec_published :: "bytes \<Rightarrow> cbor_error + PublishedFileRecord"
  enc_pending :: "PendingDownloadRecord \<Rightarrow> cbor_error + bytes"
  dec_pending :: "bytes \<Rightarrow> cbor_error + PendingDownloadRecord"
  enc_chunk_request :: "FileChunkRequest \<Rightarrow> cbor_error + bytes"
  enc_published_file :: "PublishedFile \<Rightarrow> cbor_error + bytes"
  enc_search :: "FileSearchRequest \<Rightarrow> cbor_error + bytes"
  dec_search :: "bytes \<Rightarrow> cbor_error + FileSearchRequest"
  sha256_finish :: "bytes \<Rightarrow> u64"

definition libs_ok :: "libs \<Rightarrow> bool" where
  "libs_ok L \<longleftrightarrow>
     (\<forall>m b. enc_metadata L m = Inr b \<longrightarrow> dec_metadata L b = Inr m) \<and>
     (\<forall>r b. enc_published L r = Inr b \<longrightarrow> dec_published L b = Inr r) \<and>
     (\<forall>r b. enc_pending L r = Inr b \<longrightarrow> dec_pending L b = Inr r) \<and>
     (\<forall>r b. enc_search L r = Inr b \<longrightarrow> dec_search L b = Inr r)"

lemma libs_okD:
  assumes "libs_ok L"
  shows "enc_metadata L m = Inr b \<Longrightarrow> dec_metadata L b = Inr m"
    and "enc_published L r = Inr b \<Longrightarrow> dec_published L b = Inr r"
    and "enc_pending L p = Inr b \<Longrightarrow> dec_pending L b = Inr p"
    and "enc_search L q = Inr b \<Longrightarrow> dec_search L b = Inr q"
  using assms by (auto simp: libs_ok_def)

section \<open>Keys\<close>

text \<open>The conversions between \<open>u64\<close>, \<open>[u8; 8]\<close> and \<open>PublishedFileKey\<close>.\<close>

definition key_of_u64 :: "u64 \<Rightarrow> PublishedFileKey" where
  "key_of_u64 k = PublishedFileKey (to_be_bytes k)"

definition u64_of_key :: "PublishedFileKey \<Rightarrow> u64" where
  "u64_of_key k = from_be_bytes (key_bytes k)"

definition valid_key :: "PublishedFileKey \<Rightarrow> bool" where
  "valid_key k \<longleftrightarrow> length (key_bytes k) = 8"

text \<open>
  What \<open>impl Hash for FileMetadata\<close> feeds the hasher: the name and the byte \<open>0xff\<close> that ends
  every hashed string, the number of chunks as a 64-bit integer, the root with the length prefix
  of a hashed slice, and the flag. Integers are in the byte order of the machine, little endian
  here.
\<close>

definition metadata_hash_input :: "FileMetadata \<Rightarrow> bytes" where
  "metadata_hash_input m =
     string_bytes (md_original_file_name m) @ [0xff]
     @ to_le_bytes (word_of_nat (md_total_chunks m))
     @ to_le_bytes (word_of_nat (length (md_merkle_root m))) @ md_merkle_root m
     @ [if md_public m then 1 else 0]"

definition metadata_key :: "libs \<Rightarrow> FileMetadata \<Rightarrow> bytes" where
  "metadata_key L m = to_be_bytes (sha256_finish L (metadata_hash_input m))"

definition get_chunks_dir_name_prefix :: "FileMetadata \<Rightarrow> string" where
  "get_chunks_dir_name_prefix m =
     map (\<lambda>c. if c = CHR ''.'' then CHR ''_'' else c) (md_original_file_name m)"

text \<open>\<open>impl From<FileMetadata> for PublishedFileRecord\<close>.\<close>

definition published_of_metadata :: "libs \<Rightarrow> FileMetadata \<Rightarrow> PublishedFileRecord" where
  "published_of_metadata L m =
     \<lparr>pub_key = PublishedFileKey (metadata_key L m),
      pub_original_file_name = md_original_file_name m,
      pub_chunks_dir = md_chunks_dir m, pub_public = md_public m\<rparr>"

text \<open>\<open>TryInto<(PublishedFileKey, Vec<u8>)>\<close>: the key and the encoded value of a stored record.\<close>

definition published_entry :: "libs \<Rightarrow> PublishedFileRecord \<Rightarrow> cbor_error + PublishedFileKey \<times> bytes" where
  "published_entry L r =
     (case enc_published L r of Inl e \<Rightarrow> Inl e | Inr b \<Rightarrow> Inr (pub_key r, b))"

definition pending_entry :: "libs \<Rightarrow> PendingDownloadRecord \<Rightarrow> cbor_error + PublishedFileKey \<times> bytes" where
  "pending_entry L r =
     (case enc_pending L r of Inl e \<Rightarrow> Inl e | Inr b \<Rightarrow> Inr (pend_key r, b))"

definition metadata_entry :: "libs \<Rightarrow> FileMetadata \<Rightarrow> cbor_error + PublishedFileKey \<times> bytes" where
  "metadata_entry L m =
     (case enc_metadata L m of
        Inl e \<Rightarrow> Inl e
      | Inr b \<Rightarrow> Inr (PublishedFileKey (metadata_key L m), b))"

section \<open>Facts about keys\<close>

lemma u64_of_key_of_u64 [simp]: "u64_of_key (key_of_u64 k) = k"
  by (simp add: u64_of_key_def key_of_u64_def)

lemma key_of_u64_of_key [simp]: "valid_key k \<Longrightarrow> key_of_u64 (u64_of_key k) = k"
  by (cases k) (simp add: u64_of_key_def key_of_u64_def valid_key_def)

lemma valid_key_of_u64 [simp]: "valid_key (key_of_u64 k)"
  by (simp add: valid_key_def key_of_u64_def)

lemma key_of_u64_inject [simp]: "key_of_u64 a = key_of_u64 b \<longleftrightarrow> a = b"
  by (simp add: key_of_u64_def)

lemma length_metadata_key [simp]: "length (metadata_key L m) = 8"
  by (simp add: metadata_key_def)

lemma valid_metadata_key [simp]: "valid_key (PublishedFileKey (metadata_key L m))"
  by (simp add: valid_key_def)

lemma published_of_metadata_simps [simp]:
  "pub_key (published_of_metadata L m) = PublishedFileKey (metadata_key L m)"
  "pub_original_file_name (published_of_metadata L m) = md_original_file_name m"
  "pub_chunks_dir (published_of_metadata L m) = md_chunks_dir m"
  "pub_public (published_of_metadata L m) = md_public m"
  by (simp_all add: published_of_metadata_def)

text \<open>
  The hashed bytes determine the fields: the name ends at its first \<open>0xff\<close> (no byte of UTF-8
  text is \<open>0xff\<close>), and the other parts have a fixed or a prefixed length.
\<close>

lemma append_first_marker:
  assumes "x \<notin> set xs" "x \<notin> set ys" "xs @ x # us = ys @ x # vs"
  shows "xs = ys \<and> us = vs"
  using assms
proof (induction xs arbitrary: ys)
  case Nil
  then show ?case by (cases ys) auto
next
  case (Cons a xs)
  then show ?case by (cases ys) auto
qed

definition text_name :: "string \<Rightarrow> bool" where
  "text_name s \<longleftrightarrow> 0xff \<notin> set (string_bytes s)"

lemma metadata_hash_input_inject:
  assumes same: "metadata_hash_input m = metadata_hash_input m'"
    and name: "text_name (md_original_file_name m)" "text_name (md_original_file_name m')"
    and small: "md_total_chunks m < 2 ^ 64" "md_total_chunks m' < 2 ^ 64"
    and root: "length (md_merkle_root m) = 32" "length (md_merkle_root m') = 32"
  shows "md_original_file_name m = md_original_file_name m' \<and>
    md_total_chunks m = md_total_chunks m' \<and> md_merkle_root m = md_merkle_root m' \<and>
    md_public m = md_public m'"
proof -
  let ?tail = "\<lambda>m. to_le_bytes (word_of_nat (md_total_chunks m))
     @ to_le_bytes (word_of_nat (length (md_merkle_root m))) @ md_merkle_root m
     @ [if md_public m then 1 else 0]"
  have "string_bytes (md_original_file_name m) = string_bytes (md_original_file_name m') \<and>
      ?tail m = ?tail m'"
    by (rule append_first_marker [of "0xff"])
       (use same name in \<open>auto simp: metadata_hash_input_def text_name_def\<close>)
  then have n: "md_original_file_name m = md_original_file_name m'" and t: "?tail m = ?tail m'"
    by simp_all
  from t have "(word_of_nat (md_total_chunks m) :: u64) = word_of_nat (md_total_chunks m')"
    by (simp add: append_eq_append_conv)
  with small have "md_total_chunks m = md_total_chunks m'"
    by (metis unat_u64_small)
  moreover from t root have "md_merkle_root m = md_merkle_root m'"
    "(if md_public m then 1 else 0 :: byte) = (if md_public m' then 1 else 0)"
    by (simp_all add: append_eq_append_conv)
  ultimately show ?thesis
    using n by (auto split: if_splits)
qed

end
