(* ===== verification/Domain_Props.thy ===== *)
theory Domain_Props
  imports Domain
begin

text \<open>The properties of keys: their two representations, and what a key depends on.\<close>

text \<open>
  The conversions between \<open>u64\<close> and \<open>PublishedFileKey\<close> are inverse to each other, so a
  file id that travels in a request finds the record stored under the 8-byte key.
\<close>

lemma key_round_trip:
  "u64_of_key (key_of_u64 k) = k \<and> (length bs = 8 \<longrightarrow> key_of_u64 (u64_of_key (PublishedFileKey bs)) = PublishedFileKey bs)"
  by (simp add: valid_key_def)

lemma key_round_trip_witness:
  "u64_of_key (key_of_u64 258) = 258 \<and>
   key_of_u64 (u64_of_key (PublishedFileKey [1, 2, 3, 4, 5, 6, 7, 8])) = PublishedFileKey [1, 2, 3, 4, 5, 6, 7, 8]"
  using key_round_trip [of 258 "[1, 2, 3, 4, 5, 6, 7, 8]"] by simp

text \<open>
  The key of a file does not depend on where its chunks are, on the proofs or on the
  extension of the chunk files: a downloader that moves the chunks to a directory of its own
  keeps the publisher's key.
\<close>

lemma key_ignores_location:
  "metadata_key L (m\<lparr>md_chunks_dir := dir, md_merkle_proofs := proofs, md_chunk_file_extension := ext\<rparr>) =
   metadata_key L m"
  by (simp add: metadata_key_def metadata_hash_input_def)

text \<open>
  Claim C29. The bytes hashed into a key determine the name, the number of chunks, the root and
  the visibility of the file: two files that differ in one of them can only share a key by a
  collision of the hash itself.
\<close>

theorem key_input_unambiguous:
  assumes "metadata_hash_input m = metadata_hash_input m'"
    and "text_name (md_original_file_name m)" "text_name (md_original_file_name m')"
    and "md_total_chunks m < 2 ^ 64" "md_total_chunks m' < 2 ^ 64"
    and "length (md_merkle_root m) = 32" "length (md_merkle_root m') = 32"
  shows "(md_original_file_name m, md_total_chunks m, md_merkle_root m, md_public m) =
    (md_original_file_name m', md_total_chunks m', md_merkle_root m', md_public m')"
  using metadata_hash_input_inject [OF assms] by simp

definition plain_metadata :: "path \<Rightarrow> FileMetadata" where
  "plain_metadata dir = \<lparr>md_original_file_name = ''a'', md_total_chunks = 1, md_chunks_dir = dir,
     md_merkle_root = replicate 32 7, md_merkle_proofs = [[]], md_chunk_file_extension = ''chunk'',
     md_public = True\<rparr>"

theorem key_input_unambiguous_witness:
  "md_merkle_root (plain_metadata (Path True [''x''])) = md_merkle_root (plain_metadata (Path True [''y'']))"
proof -
  have "text_name ''a''" by (simp add: text_name_def string_bytes_def)
  then show ?thesis
    using key_input_unambiguous [of "plain_metadata (Path True [''x''])" "plain_metadata (Path True [''y''])"]
    by (simp add: plain_metadata_def metadata_hash_input_def)
qed

end
