(* ===== verification/Chunking.thy ===== *)
theory Chunking
  imports Domain
begin

text \<open>
  \<open>file_processing/processing.rs\<close> and \<open>utils.rs\<close>: cutting a file into chunks, the Merkle tree
  over them, the metadata file, putting a downloaded file together again, and checking one chunk.

  The Merkle tree (\<open>rs_merkle\<close>) is a library: the record \<open>merkle\<close> holds the functions the code
  calls, with \<open>'p\<close> for its type of proofs. \<open>merkle_complete\<close> and \<open>merkle_binding\<close> state
  what the crate documents: the proof it makes for a leaf verifies, and what verifies against the
  root of some leaves at an index is the leaf at that index. An open file is a \<open>reader\<close>; how many
  bytes one \<open>read\<close> returns and when it fails is decided by the system.
\<close>

record 'p merkle =
  mk_hash :: "bytes \<Rightarrow> bytes"
  mk_root :: "bytes list \<Rightarrow> bytes option"
  mk_proof :: "bytes list \<Rightarrow> nat \<Rightarrow> bytes"
  mk_from_bytes :: "bytes \<Rightarrow> 'p option"
  mk_verify :: "'p \<Rightarrow> bytes \<Rightarrow> nat list \<Rightarrow> bytes list \<Rightarrow> nat \<Rightarrow> bool"

definition METADATA_FILE_NAME :: string where
  "METADATA_FILE_NAME = ''.metadata''"

definition FILE_CHUNK_EXTENSION :: string where
  "FILE_CHUNK_EXTENSION = ''chunk''"

definition CHUNK_SIZE :: usize where
  "CHUNK_SIZE = 1024 * 1024"

text \<open>\<open>format!("{}.{}", chunk_id, chunk_file_extension)\<close>.\<close>

definition chunk_file_name :: "usize \<Rightarrow> string \<Rightarrow> string" where
  "chunk_file_name i ext = show_nat i @ CHR ''.'' # ext"

section \<open>Helpers of utils.rs\<close>

definition ensure_dir_exists_or_create :: "filesys \<Rightarrow> path \<Rightarrow> (io_error + unit) \<times> filesys" where
  "ensure_dir_exists_or_create fs p =
     (case fs_try_exists fs p of
        Inl e \<Rightarrow> (Inl e, fs)
      | Inr True \<Rightarrow>
          (case fs_metadata fs p of
             Inl e \<Rightarrow> (Inl e, fs)
           | Inr DirNode \<Rightarrow> (Inr (), fs)
           | Inr (FileNode _) \<Rightarrow> (Inl (Io_Custom (path_display p @ '' is not a directory'')), fs))
      | Inr False \<Rightarrow> fs_create_dir_all fs p)"

text \<open>
  \<open>save_blocking\<close> writes through a \<open>BufWriter\<close> that is dropped, not flushed: what still sits
  in its buffer of 8 KiB is written by the destructor, which discards an error. So a write that
  stops after \<open>k\<close> bytes is reported only when more than a buffer was left to write.
\<close>

definition BUF_WRITER_CAPACITY :: nat where
  "BUF_WRITER_CAPACITY = 8 * 1024"

definition save_blocking :: "libs \<Rightarrow> filesys \<Rightarrow> FileMetadata \<Rightarrow> (FileProcessingError + FileMetadata) \<times> filesys" where
  "save_blocking L fs m =
     (let p = path_join_str (md_chunks_dir m) METADATA_FILE_NAME
      in case fs_create fs p of
           (Inl e, fs') \<Rightarrow> (Inl (Fpe_Io e), fs')
         | (Inr _, fs') \<Rightarrow>
             (case enc_metadata L m of
                Inl e \<Rightarrow> (Inl (Fpe_Cbor e), fs')
              | Inr b \<Rightarrow>
                  (case fs_append fs' p b of
                     (Inr _, fs'') \<Rightarrow> (Inr m, fs'')
                   | (Inl e, fs'') \<Rightarrow>
                       if length b - length (file_bytes fs'' p) \<le> BUF_WRITER_CAPACITY
                       then (Inr m, fs'')
                       else (Inl (Fpe_Cbor (io_error_display e)), fs''))))"

definition save_metadata :: "libs \<Rightarrow> filesys \<Rightarrow> FileMetadata \<Rightarrow> (FileProcessingError + FileMetadata) \<times> filesys" where
  "save_metadata L fs m =
     (case fs_join fs (fs_nodes fs) of
        Some e \<Rightarrow> (Inl (Fpe_TaskJoin e), fs)
      | None \<Rightarrow> save_blocking L fs m)"

text \<open>\<open>None\<close> is the panic of the \<open>unwrap\<close> on proof bytes that do not parse.\<close>

definition verify_chunk :: "'p merkle \<Rightarrow> bytes \<Rightarrow> usize \<Rightarrow> bytes \<Rightarrow> bytes \<Rightarrow> usize \<Rightarrow> bool option" where
  "verify_chunk M chunk index proof_bytes root total_leaves =
     (case mk_from_bytes M proof_bytes of
        None \<Rightarrow> None
      | Some proof \<Rightarrow> Some (mk_verify M proof root [index] [mk_hash M chunk] total_leaves))"

text \<open>
  A \<open>HashSet\<close> of peers is the list of its elements in the order its iterator happens to have;
  \<open>rng\<close> is \<open>random_range(0..n)\<close> of the crate \<open>rand\<close>, which answers below \<open>n\<close>.
\<close>

definition choose_random :: "(nat \<Rightarrow> nat) \<Rightarrow> 'a list \<Rightarrow> 'a option" where
  "choose_random rng xs =
     (if length xs = 1 then nth_opt xs 0
      else if xs \<noteq> [] then nth_opt xs (rng (length xs))
      else None)"

definition rng_ok :: "(nat \<Rightarrow> nat) \<Rightarrow> bool" where
  "rng_ok rng \<longleftrightarrow> (\<forall>n > 0. rng n < n)"

section \<open>Reading an open file\<close>

record reader =
  rd_rest :: bytes
  rd_size :: "bytes \<Rightarrow> nat \<Rightarrow> nat"
  rd_fault :: "bytes \<Rightarrow> io_error option"

text \<open>\<open>read\<close> returns 0 bytes only at the end of the file or for an empty buffer.\<close>

definition reader_read :: "reader \<Rightarrow> nat \<Rightarrow> io_error + (bytes \<times> reader)" where
  "reader_read r want =
     (case rd_fault r (rd_rest r) of
        Some e \<Rightarrow> Inl e
      | None \<Rightarrow>
          (let n = min (max 1 (rd_size r (rd_rest r) want)) (min want (length (rd_rest r)))
           in Inr (take n (rd_rest r), r\<lparr>rd_rest := drop n (rd_rest r)\<rparr>)))"

text \<open>The bytes that a read into \<open>heap_buffer[i..]\<close> replaces.\<close>

definition buf_put :: "bytes \<Rightarrow> nat \<Rightarrow> bytes \<Rightarrow> bytes" where
  "buf_put buf i d = take i buf @ d @ drop (i + length d) buf"

text \<open>The inner loop of \<open>split\<close>: fill the buffer, however short the reads are.\<close>

function fill_buffer :: "nat \<Rightarrow> reader \<Rightarrow> bytes \<Rightarrow> nat \<Rightarrow> io_error + (bytes \<times> nat \<times> reader)" where
  "fill_buffer cap r buf filled =
     (if filled < cap then
        (case reader_read r (cap - filled) of
           Inl e \<Rightarrow> Inl e
         | Inr (d, r') \<Rightarrow>
             if d = [] then Inr (buf, filled, r')
             else fill_buffer cap r' (buf_put buf filled d) (filled + length d))
      else Inr (buf, filled, r))"
  by pat_completeness auto
termination
  by (relation "measure (\<lambda>(cap, r, buf, filled). cap - filled)") (auto intro!: diff_less_mono2)

declare fill_buffer.simps [simp del]

lemma reader_read_Inr:
  "reader_read r want = Inr (d, r') \<Longrightarrow>
   \<exists>n. d = take n (rd_rest r) \<and> r' = r\<lparr>rd_rest := drop n (rd_rest r)\<rparr> \<and> n \<le> want \<and>
       n \<le> length (rd_rest r) \<and> (n = 0 \<longrightarrow> want = 0 \<or> rd_rest r = [])"
proof -
  assume *: "reader_read r want = Inr (d, r')"
  let ?n = "min (max 1 (rd_size r (rd_rest r) want)) (min want (length (rd_rest r)))"
  have "?n = 0 \<longrightarrow> want = 0 \<or> rd_rest r = []"
    by (auto simp: min_def max_def split: if_splits)
  with * show ?thesis
    by (intro exI [of _ ?n]) (auto simp: reader_read_def Let_def split: option.splits)
qed

text \<open>
  What the inner loop does, whatever the reads return: the buffer holds what it held before
  \<open>filled\<close> and then the next bytes of the file, as many as fit or as there are.
\<close>

lemma fill_buffer_Inr:
  assumes "fill_buffer cap r buf filled = Inr (buf', filled', r')"
    and "filled \<le> cap" and "length buf = cap"
  shows "filled' = min cap (filled + length (rd_rest r)) \<and> length buf' = cap \<and>
    take filled' buf' = take filled buf @ take (filled' - filled) (rd_rest r) \<and>
    r' = r\<lparr>rd_rest := drop (filled' - filled) (rd_rest r)\<rparr>"
  using assms
proof (induction cap r buf filled arbitrary: buf' filled' r' rule: fill_buffer.induct)
  case (1 cap r buf filled)
  show ?case
  proof (cases "filled < cap")
    case False
    with "1.prems" show ?thesis by (auto simp: fill_buffer.simps [of cap r buf filled])
  next
    case True
    with "1.prems"(1) obtain d r1 where rd: "reader_read r (cap - filled) = Inr (d, r1)"
      by (auto simp: fill_buffer.simps [of cap r buf filled] split: sum.splits)
    then obtain n where n: "d = take n (rd_rest r)" "r1 = r\<lparr>rd_rest := drop n (rd_rest r)\<rparr>"
      "n \<le> cap - filled" "n \<le> length (rd_rest r)" "n = 0 \<longrightarrow> rd_rest r = []"
      using reader_read_Inr [OF rd] True by auto
    show ?thesis
    proof (cases "d = []")
      case True
      with n have "rd_rest r = []" by auto
      with True rd \<open>filled < cap\<close> n "1.prems" show ?thesis
        by (auto simp: fill_buffer.simps [of cap r buf filled])
    next
      case False
      let ?buf = "buf_put buf filled d"
      have len: "length d = n" using n by simp
      have buf: "length ?buf = cap" "take (filled + n) ?buf = take filled buf @ d"
        using "1.prems" n len True by (auto simp: buf_put_def)
      have rec: "fill_buffer cap r1 ?buf (filled + length d) = Inr (buf', filled', r')"
        using "1.prems"(1) rd True False by (simp add: fill_buffer.simps [of cap r buf filled])
      have pre: "filled + length d \<le> cap" using n(3) True len by simp
      note IH = "1.IH" [OF True rd refl False rec pre buf(1), unfolded len]
      from IH have "filled' - filled = n + (filled' - (filled + n))" using n True by auto
      then have tk: "take (filled' - filled) (rd_rest r) = d @ take (filled' - (filled + n)) (rd_rest r1)"
        and dr: "drop (filled' - filled) (rd_rest r) = drop (filled' - (filled + n)) (rd_rest r1)"
        using n by (simp_all add: take_add add.commute)
      from IH have "take filled' buf' =
          take (filled + n) ?buf @ take (filled' - (filled + n)) (rd_rest r1)" by blast
      then have "take filled' buf' = take filled buf @ take (filled' - filled) (rd_rest r)"
        by (simp only: tk buf(2) append_assoc)
      moreover from IH have "r' = r1\<lparr>rd_rest := drop (filled' - (filled + n)) (rd_rest r1)\<rparr>" by blast
      then have "r' = r\<lparr>rd_rest := drop (filled' - filled) (rd_rest r)\<rparr>"
        by (simp only: dr) (simp add: n(2))
      moreover have "filled' = min cap (filled + length (rd_rest r))" "length buf' = cap"
        using IH n by simp_all
      ultimately show ?thesis by blast
    qed
  qed
qed

text \<open>The outer loop of \<open>split\<close>: one chunk file and one leaf for every filled buffer.\<close>

definition chunk_path :: "path \<Rightarrow> usize \<Rightarrow> string \<Rightarrow> path" where
  "chunk_path dir i ext = path_join_str dir (chunk_file_name i ext)"

lemma fill_buffer_progress:
  assumes "fill_buffer cap r buf 0 = Inr (buf', filled, r')" "filled \<noteq> 0"
  shows "length (rd_rest r') < length (rd_rest r)"
proof -
  have "fill_buffer cap r buf k = Inr (buf', filled, r') \<Longrightarrow>
      length (rd_rest r') + filled \<le> length (rd_rest r) + k" for k
  proof (induction cap r buf k rule: fill_buffer.induct)
    case (1 cap r buf k)
    show ?case
    proof (cases "k < cap")
      case False
      with "1.prems" show ?thesis by (simp add: fill_buffer.simps [of cap r buf k])
    next
      case True
      with "1.prems" obtain d r1 where rd: "reader_read r (cap - k) = Inr (d, r1)"
        by (auto simp: fill_buffer.simps [of cap r buf k] split: sum.splits)
      then have "length (rd_rest r1) + length d = length (rd_rest r)"
        by (auto dest!: reader_read_Inr)
      with "1.prems" "1.IH" [OF True rd refl] True rd show ?thesis
        by (auto simp: fill_buffer.simps [of cap r buf k] split: if_splits)
    qed
  qed
  from this [of 0] assms show ?thesis by auto
qed

function split_loop :: "'p merkle \<Rightarrow> nat \<Rightarrow> path \<Rightarrow> filesys \<Rightarrow> reader \<Rightarrow> bytes \<Rightarrow> bytes list
    \<Rightarrow> (FileProcessingError + bytes list) \<times> filesys" where
  "split_loop M cap pieces_dir fs r buf leaves =
     (case fill_buffer cap r buf 0 of
        Inl e \<Rightarrow> (Inl (Fpe_Io e), fs)
      | Inr (buf', filled, r') \<Rightarrow>
          if filled = 0 then (Inr leaves, fs)
          else
            (case fs_write fs (chunk_path pieces_dir (length leaves) FILE_CHUNK_EXTENSION)
                (take filled buf') of
               (Inl e, fs') \<Rightarrow> (Inl (Fpe_Io e), fs')
             | (Inr _, fs') \<Rightarrow>
                 split_loop M cap pieces_dir fs' r' buf' (leaves @ [mk_hash M (take filled buf')])))"
  by pat_completeness auto
termination
  by (relation "measure (\<lambda>(M, cap, dir, fs, r, buf, leaves). length (rd_rest r))")
     (auto dest: fill_buffer_progress)

declare split_loop.simps [simp del]

definition split :: "'p merkle \<Rightarrow> filesys \<Rightarrow> reader \<Rightarrow> path
    \<Rightarrow> (FileProcessingError + bytes list) \<times> filesys" where
  "split M fs file pieces_dir =
     split_loop M CHUNK_SIZE pieces_dir fs file (replicate CHUNK_SIZE 0) []"

section \<open>Publishing: from a file to its metadata\<close>

text \<open>
  \<open>process_file\<close>; \<open>rsize\<close> and \<open>rfault\<close> are how the system answers the reads of the opened
  file. The file is read as it was when it was opened.
\<close>

definition process_file :: "'p merkle \<Rightarrow> libs \<Rightarrow> filesys \<Rightarrow> (bytes \<Rightarrow> nat \<Rightarrow> nat) \<Rightarrow>
    (bytes \<Rightarrow> io_error option) \<Rightarrow> string \<Rightarrow> bool \<Rightarrow> (FileProcessingError + FileMetadata) \<times> filesys" where
  "process_file M L fs rsize rfault file_path public =
     (let p = path_of_string file_path in
      case fs_metadata fs p of
        Inl e \<Rightarrow> (Inl (Fpe_Io e), fs)
      | Inr DirNode \<Rightarrow> (Inl (Fpe_FileAccess ''Not a file''), fs)
      | Inr (FileNode _) \<Rightarrow>
      (case fs_read fs p of
        Inl e \<Rightarrow> (Inl (Fpe_Io e), fs)
      | Inr content \<Rightarrow>
      (case path_parent p of
        None \<Rightarrow> (Inl (Fpe_FileAccess ''cannot get parent dir''), fs)
      | Some containing_dir \<Rightarrow>
      (case path_file_name p of
        None \<Rightarrow> (Inl (Fpe_FileAccess ''cannot get file name''), fs)
      | Some file_name \<Rightarrow>
      (let chunks_dir = path_join_str containing_dir
             (map (\<lambda>c. if c = CHR ''.'' then CHR ''_'' else c) file_name @ ''_chunks'') in
      case fs_create_dir_all fs chunks_dir of
        (Inl e, fs1) \<Rightarrow> (Inl (Fpe_Io e), fs1)
      | (Inr _, fs1) \<Rightarrow>
      (case split M fs1 \<lparr>rd_rest = content, rd_size = rsize, rd_fault = rfault\<rparr> chunks_dir of
        (Inl e, fs2) \<Rightarrow> (Inl e, fs2)
      | (Inr leaves, fs2) \<Rightarrow>
      (case mk_root M leaves of
        None \<Rightarrow> (Inl (Fpe_MerkleTreeCreation ''cannot get merkle root''), fs2)
      | Some merkle_root \<Rightarrow>
          save_metadata L fs2
            \<lparr>md_original_file_name = file_name,
             md_total_chunks = length leaves,
             md_chunks_dir = chunks_dir,
             md_merkle_root = merkle_root,
             md_merkle_proofs = map (mk_proof M leaves) [0..<length leaves],
             md_chunk_file_extension = FILE_CHUNK_EXTENSION,
             md_public = public\<rparr>)))))))"

section \<open>Finishing a download: from the chunks to the file\<close>

text \<open>
  Appending the chunk files \<open>i, i + 1, \<dots>\<close> to the file being restored. Each chunk is appended at
  once; the \<open>BufWriter\<close> of the code may hold the last bytes back until its final flush, so that the
  \<open>.part\<close> file that a failing run leaves behind can be shorter than here. The result of the run, and
  the file after a run that succeeds, are the same.
\<close>

fun append_chunks :: "filesys \<Rightarrow> path \<Rightarrow> path \<Rightarrow> string \<Rightarrow> usize list \<Rightarrow> (io_error + unit) \<times> filesys" where
  "append_chunks fs dir tmp_path ext [] = (Inr (), fs)"
| "append_chunks fs dir tmp_path ext (i # is) =
     (case fs_read fs (chunk_path dir i ext) of
        Inl e \<Rightarrow> (Inl e, fs)
      | Inr chunk_bytes \<Rightarrow>
          (case fs_append fs tmp_path chunk_bytes of
             (Inl e, fs') \<Rightarrow> (Inl e, fs')
           | (Inr _, fs') \<Rightarrow> append_chunks fs' dir tmp_path ext is))"

definition restore_original_file :: "libs \<Rightarrow> filesys \<Rightarrow> PendingDownloadRecord
    \<Rightarrow> (FileProcessingError + FileMetadata) \<times> filesys" where
  "restore_original_file L fs rec =
     (case fs_read fs (path_join_str (pend_chunks_dir rec) METADATA_FILE_NAME) of
        Inl e \<Rightarrow> (Inl (Fpe_Io e), fs)
      | Inr bytes \<Rightarrow>
      (case dec_metadata L bytes of
        Inl e \<Rightarrow> (Inl (Fpe_Cbor e), fs)
      | Inr m \<Rightarrow>
      (case path_parent (md_chunks_dir m) of
        None \<Rightarrow> (Inl (Fpe_FileAccess
                  (''cannot get parent dir: '' @ path_display (md_chunks_dir m))), fs)
      | Some parent_dir \<Rightarrow>
      (let file_path = path_join_str parent_dir (md_original_file_name m) in
      case fs_try_exists fs file_path of
        Inl e \<Rightarrow> (Inl (Fpe_Io e), fs)
      | Inr True \<Rightarrow>
          (case fs_metadata fs file_path of
             Inl e \<Rightarrow> (Inl (Fpe_Io e), fs)
           | Inr DirNode \<Rightarrow> (Inl (Fpe_FileAccess
                  (''already exists but not a file: '' @ path_display file_path)), fs)
           | Inr (FileNode _) \<Rightarrow> (Inr m, fs))
      | Inr False \<Rightarrow>
      (let tmp_path = path_join_str parent_dir (md_original_file_name m @ ''.part'') in
      case fs_create fs tmp_path of
        (Inl e, fs1) \<Rightarrow> (Inl (Fpe_Io e), fs1)
      | (Inr _, fs1) \<Rightarrow>
      (case append_chunks fs1 (md_chunks_dir m) tmp_path (md_chunk_file_extension m)
          [0..<md_total_chunks m] of
        (Inl e, fs2) \<Rightarrow> (Inl (Fpe_Io e), fs2)
      | (Inr _, fs2) \<Rightarrow>
      (case fs_rename fs2 tmp_path file_path of
        (Inl e, fs3) \<Rightarrow> (Inl (Fpe_Io e), fs3)
      | (Inr _, fs3) \<Rightarrow> (Inr m, fs3))))))))"

end
