(* ===== verification/Chunking_Correct.thy ===== *)
theory Chunking_Correct
  imports Chunking
begin

text \<open>
  What \<open>process_file\<close>, \<open>split\<close> and \<open>restore_original_file\<close> achieve. The loops of \<open>split\<close> are
  shown equal to the obvious specification \<open>chunks_of\<close>; on top of that, the metadata and files
  a publication leaves, and that restoring from them gives back the published bytes.
\<close>


section \<open>What the chunks are\<close>

function chunks_of :: "nat \<Rightarrow> 'a list \<Rightarrow> 'a list list" where
  "chunks_of n xs = (if n = 0 \<or> xs = [] then [] else take n xs # chunks_of n (drop n xs))"
  by pat_completeness auto
termination
  by (relation "measure (\<lambda>(n, xs). length xs)") auto

declare chunks_of.simps [simp del]

lemma chunks_of_Nil [simp]: "chunks_of n [] = []"
  by (simp add: chunks_of.simps)

lemma chunks_of_step: "0 < n \<Longrightarrow> xs \<noteq> [] \<Longrightarrow> chunks_of n xs = take n xs # chunks_of n (drop n xs)"
  by (subst chunks_of.simps) simp

lemma chunks_of_short: "xs \<noteq> [] \<Longrightarrow> length xs \<le> n \<Longrightarrow> chunks_of n xs = [xs]"
  by (cases xs) (auto simp: chunks_of_step)

lemma chunks_of_eq_Nil [simp]: "0 < n \<Longrightarrow> chunks_of n xs = [] \<longleftrightarrow> xs = []"
  by (subst chunks_of.simps) simp

lemma concat_chunks_of [simp]: "0 < n \<Longrightarrow> concat (chunks_of n xs) = xs"
proof (induction n xs rule: chunks_of.induct)
  case (1 n xs)
  then show ?case by (cases "xs = []") (auto simp: chunks_of_step)
qed

lemma chunks_of_size: "c \<in> set (chunks_of n xs) \<Longrightarrow> c \<noteq> [] \<and> length c \<le> n"
proof (induction n xs rule: chunks_of.induct)
  case (1 n xs)
  then show ?case
    by (cases "n = 0 \<or> xs = []") (auto simp: chunks_of_step chunks_of.simps [of 0])
qed

lemma chunks_of_full: "Suc i < length (chunks_of n xs) \<Longrightarrow> length (chunks_of n xs ! i) = n"
proof (induction n xs arbitrary: i rule: chunks_of.induct)
  case (1 n xs)
  show ?case
  proof (cases "n = 0 \<or> xs = []")
    case True
    with "1.prems" show ?thesis by (auto simp: chunks_of.simps [of 0])
  next
    case False
    then have eq: "chunks_of n xs = take n xs # chunks_of n (drop n xs)"
      by (simp add: chunks_of_step)
    show ?thesis
    proof (cases i)
      case 0
      with "1.prems" eq have "drop n xs \<noteq> []" by auto
      with 0 eq show ?thesis by simp
    next
      case (Suc j)
      with "1.prems" "1.IH" [OF False] eq show ?thesis by simp
    qed
  qed
qed

lemma length_chunks_of: "0 < n \<Longrightarrow> length (chunks_of n xs) = (length xs + n - 1) div n"
proof (induction n xs rule: chunks_of.induct)
  case (1 n xs)
  show ?case
  proof (cases "xs = []")
    case True
    with "1.prems" show ?thesis by simp
  next
    case False
    with "1" have IH: "length (chunks_of n (drop n xs)) = (length (drop n xs) + n - 1) div n" by simp
    show ?thesis
    proof (cases "length xs \<le> n")
      case True
      from False have "0 < length xs" by simp
      with True have eq: "length xs + n - 1 = (length xs - 1) + n" and lt: "length xs - 1 < n"
        by linarith+
      have "(length xs + n - 1) div n = 1"
        unfolding eq using lt "1.prems" by (subst div_add_self2) auto
      with True False show ?thesis by (simp add: chunks_of_short)
    next
      case False
      with IH "1.prems" \<open>xs \<noteq> []\<close> show ?thesis by (auto simp: chunks_of_step le_div_geq)
    qed
  qed
qed

lemma fill_buffer_from_0:
  assumes fb: "fill_buffer cap r buf 0 = Inr (buf', filled, r')" and len: "length buf = cap"
  shows "filled = min cap (length (rd_rest r))" and "length buf' = cap"
    and "take filled buf' = take filled (rd_rest r)" and "rd_rest r' = drop filled (rd_rest r)"
    and "rd_fault r' = rd_fault r"
proof -
  note f = fill_buffer_Inr [OF fb le0 len]
  from f have "filled = min cap (0 + length (rd_rest r))" by blast
  then show "filled = min cap (length (rd_rest r))" by simp
  from f show "length buf' = cap" by blast
  from f have "take filled buf' = take 0 buf @ take (filled - 0) (rd_rest r)" by blast
  then show "take filled buf' = take filled (rd_rest r)" by simp
  from f have r': "r' = r\<lparr>rd_rest := drop (filled - 0) (rd_rest r)\<rparr>" by blast
  then show "rd_rest r' = drop filled (rd_rest r)" "rd_fault r' = rd_fault r" by simp_all
qed

text \<open>The chunk files that \<open>split\<close> leaves, as a change of the file system.\<close>

fun put_chunks :: "(path \<Rightarrow> fs_node option) \<Rightarrow> path \<Rightarrow> nat \<Rightarrow> bytes list \<Rightarrow> path \<Rightarrow> fs_node option" where
  "put_chunks m dir i [] = m"
| "put_chunks m dir i (c # cs) =
     put_chunks (m(chunk_path dir i FILE_CHUNK_EXTENSION \<mapsto> FileNode c)) dir (Suc i) cs"

lemma chunk_file_name_Cons: "\<exists>d ds. chunk_file_name i ext = d # ds \<and> d \<noteq> CHR ''.''"
proof -
  obtain d ds where "show_nat i = d # ds" by (cases "show_nat i") auto
  then show ?thesis using show_nat_plain [of d i] by (simp add: chunk_file_name_def)
qed

lemma plain_chunk_file_name [path_simps]: "CHR ''/'' \<notin> set ext \<Longrightarrow> plain_name (chunk_file_name i ext)"
proof -
  assume "CHR ''/'' \<notin> set ext"
  moreover obtain d ds where *: "show_nat i = d # ds" by (cases "show_nat i") auto
  then have "d \<noteq> CHR ''.''" using show_nat_plain [of d i] by simp
  moreover have "CHR ''/'' \<notin> set (show_nat i)" using show_nat_plain by blast
  ultimately show ?thesis
    using * by (auto simp: plain_name_def chunk_file_name_def)
qed

lemma no_slash_chunk [simp]: "CHR ''/'' \<notin> set FILE_CHUNK_EXTENSION"
  by (simp add: FILE_CHUNK_EXTENSION_def)

lemma chunk_file_name_inject [simp]: "chunk_file_name i ext = chunk_file_name j ext \<longleftrightarrow> i = j"
  by (simp add: chunk_file_name_def)

lemma chunk_path_inject [simp]:
  "CHR ''/'' \<notin> set ext \<Longrightarrow> chunk_path d i ext = chunk_path e j ext \<longleftrightarrow> d = e \<and> i = j"
  by (simp add: chunk_path_def path_join_plain_inject plain_chunk_file_name)

lemma components_chunk_path:
  "CHR ''/'' \<notin> set ext \<Longrightarrow> components (chunk_path d i ext) = components d @ [chunk_file_name i ext]"
  by (simp add: chunk_path_def path_join_plain plain_chunk_file_name)

lemma put_chunks_other:
  "(\<And>j. j < length cs \<Longrightarrow> q \<noteq> chunk_path dir (i + j) FILE_CHUNK_EXTENSION) \<Longrightarrow>
   put_chunks m dir i cs q = m q"
proof (induction cs arbitrary: m i)
  case Nil
  then show ?case by simp
next
  case (Cons c cs)
  from Cons.prems [of 0] have "q \<noteq> chunk_path dir i FILE_CHUNK_EXTENSION" by simp
  moreover have "put_chunks m' dir (Suc i) cs q = m' q" for m'
    by (rule Cons.IH) (use Cons.prems [of "Suc _"] in auto)
  ultimately show ?case by simp
qed

lemma put_chunks_nth:
  "j < length cs \<Longrightarrow>
   put_chunks m dir i cs (chunk_path dir (i + j) FILE_CHUNK_EXTENSION) = Some (FileNode (cs ! j))"
proof (induction cs arbitrary: m i j)
  case Nil
  then show ?case by simp
next
  case (Cons c cs)
  show ?case
  proof (cases j)
    case 0
    then show ?thesis by (simp add: put_chunks_other)
  next
    case (Suc k)
    with Cons.IH [of k _ "Suc i"] Cons.prems show ?thesis by simp
  qed
qed

text \<open>
  The loop is the specification: whatever sizes the reads have, the leaves are the hashes of the
  pieces of \<open>cap\<close> bytes of the file, and the pieces are what is written.
\<close>

lemma split_loop_Inr:
  assumes "split_loop M cap dir fs r buf leaves = (Inr ls, fs')" "0 < cap" "length buf = cap"
  shows "ls = leaves @ map (mk_hash M) (chunks_of cap (rd_rest r)) \<and>
    fs' = fs\<lparr>fs_nodes := put_chunks (fs_nodes fs) dir (length leaves) (chunks_of cap (rd_rest r))\<rparr>"
  using assms
proof (induction M cap dir fs r buf leaves arbitrary: ls fs' rule: split_loop.induct)
  case (1 M cap dir fs r buf leaves)
  from "1.prems"(1) obtain x where fb: "fill_buffer cap r buf 0 = Inr x"
    by (auto simp: split_loop.simps [of M cap dir fs r buf leaves] split: sum.splits)
  obtain buf' filled r' where x: "x = (buf', filled, r')" by (cases x)
  note fb = fb [unfolded x]
  note spec = fill_buffer_from_0 [OF fb "1.prems"(3)]
  show ?case
  proof (cases "filled = 0")
    case True
    with spec(1) "1.prems"(2) have "rd_rest r = []" by (simp add: min_def split: if_splits)
    with True "1.prems"(1) fb show ?thesis
      by (simp add: split_loop.simps [of M cap dir fs r buf leaves])
  next
    case False
    let ?p = "chunk_path dir (length leaves) FILE_CHUNK_EXTENSION"
    let ?c = "take filled buf'"
    from "1.prems"(1) fb False obtain fs1 where w: "fs_write fs ?p ?c = (Inr (), fs1)"
      and rec: "split_loop M cap dir fs1 r' buf' (leaves @ [mk_hash M ?c]) = (Inr ls, fs')"
      by (auto simp: split_loop.simps [of M cap dir fs r buf leaves] split: prod.splits sum.splits)
    have IH: "ls = (leaves @ [mk_hash M ?c]) @ map (mk_hash M) (chunks_of cap (rd_rest r')) \<and>
        fs' = fs1\<lparr>fs_nodes := put_chunks (fs_nodes fs1) dir (length (leaves @ [mk_hash M ?c]))
                    (chunks_of cap (rd_rest r'))\<rparr>"
      using "1.IH" [OF fb refl refl False w [symmetric] refl rec] "1.prems"(2) spec(2) by simp
    have "rd_rest r \<noteq> []" using False spec by auto
    then have "chunks_of cap (rd_rest r) = ?c # chunks_of cap (rd_rest r')"
      using "1.prems"(2) spec by (simp add: chunks_of_step min_def)
    with IH fs_write_ok [OF w] show ?thesis by simp
  qed
qed


lemma put_chunks_append: "put_chunks m dir i (cs @ ds) = put_chunks (put_chunks m dir i cs) dir (i + length cs) ds"
  by (induction cs arbitrary: m i) auto

text \<open>On a healthy system nothing stops the loops.\<close>

lemma fill_buffer_total:
  "rd_fault r = (\<lambda>_. None) \<Longrightarrow> \<exists>x. fill_buffer cap r buf k = Inr x"
proof (induction cap r buf k rule: fill_buffer.induct)
  case (1 cap r buf k)
  show ?case
  proof (cases "k < cap")
    case False
    then show ?thesis by (simp add: fill_buffer.simps [of cap r buf k])
  next
    case True
    from "1.prems" obtain d r1 where rd: "reader_read r (cap - k) = Inr (d, r1)"
      by (simp add: reader_read_def Let_def)
    with "1.prems" have "rd_fault r1 = (\<lambda>_. None)"
      by (auto dest!: reader_read_Inr)
    with "1.IH" [OF True rd refl] True rd show ?thesis
      by (cases "d = []") (auto simp: fill_buffer.simps [of cap r buf k])
  qed
qed

definition chunk_dir_free :: "filesys \<Rightarrow> path \<Rightarrow> bool" where
  "chunk_dir_free fs dir \<longleftrightarrow> node_at fs dir = Some DirNode \<and>
     (\<forall>i. fs_nodes fs (chunk_path dir i FILE_CHUNK_EXTENSION) \<noteq> Some DirNode) \<and>
     fs_nodes fs (path_join_str dir METADATA_FILE_NAME) \<noteq> Some DirNode"

lemma plain_metadata_name [simp]: "plain_name METADATA_FILE_NAME"
  by (simp add: plain_name_def METADATA_FILE_NAME_def)

lemma node_at_child:
  "plain_name s \<Longrightarrow> node_at fs (path_join_str d s) = fs_nodes fs (path_join_str d s)"
  by (simp add: node_at_def)

lemma parent_is_dir_child:
  "plain_name s \<Longrightarrow> parent_is_dir fs (path_join_str d s) \<longleftrightarrow> node_at fs d = Some DirNode"
  by (simp add: parent_is_dir_def path_parent_join_plain)

lemma child_neq_dir: "plain_name s \<Longrightarrow> path_join_str d s \<noteq> d \<and> d \<noteq> path_join_str d s"
  by (cases d) (simp add: path_join_plain)

lemma chunk_neq_metadata [simp]:
  "chunk_path d i FILE_CHUNK_EXTENSION \<noteq> path_join_str d METADATA_FILE_NAME"
proof
  assume "chunk_path d i FILE_CHUNK_EXTENSION = path_join_str d METADATA_FILE_NAME"
  then have "chunk_file_name i FILE_CHUNK_EXTENSION = METADATA_FILE_NAME"
    by (simp add: chunk_path_def path_join_plain_inject plain_chunk_file_name)
  with chunk_file_name_Cons [of i FILE_CHUNK_EXTENSION] show False
    by (simp add: METADATA_FILE_NAME_def)
qed

lemma split_loop_total:
  assumes "healthy fs" "chunk_dir_free fs dir" "rd_fault r = (\<lambda>_. None)" "length buf = cap"
  shows "\<exists>ls fs'. split_loop M cap dir fs r buf leaves = (Inr ls, fs')"
  using assms
proof (induction M cap dir fs r buf leaves rule: split_loop.induct)
  case (1 M cap dir fs r buf leaves)
  from fill_buffer_total [OF "1.prems"(3)] obtain buf' filled r'
    where fb: "fill_buffer cap r buf 0 = Inr (buf', filled, r')" by (metis prod.exhaust)
  note spec = fill_buffer_from_0 [OF fb "1.prems"(4)]
  show ?case
  proof (cases "filled = 0")
    case True
    with fb show ?thesis by (simp add: split_loop.simps [of M cap dir fs r buf leaves])
  next
    case False
    let ?p = "chunk_path dir (length leaves) FILE_CHUNK_EXTENSION"
    let ?fs = "fs\<lparr>fs_nodes := (fs_nodes fs)(?p \<mapsto> FileNode (take filled buf'))\<rparr>"
    have w: "fs_write fs ?p (take filled buf') = (Inr (), ?fs)"
      by (rule fs_write_healthy)
         (use "1.prems"(1,2) in \<open>simp_all add: chunk_path_def node_at_child parent_is_dir_child
            plain_chunk_file_name chunk_dir_free_def\<close>)
    have "chunk_dir_free ?fs dir"
      using "1.prems"(2) by (auto simp: chunk_dir_free_def node_at_def chunk_path_def child_neq_dir plain_chunk_file_name)
    with "1.IH" [OF fb refl refl False w [symmetric] refl] "1.prems" spec fb False w
    show ?thesis by (simp add: split_loop.simps [of M cap dir fs r buf leaves])
  qed
qed

lemma split_Inr:
  assumes "split M fs r dir = (Inr ls, fs')"
  shows "ls = map (mk_hash M) (chunks_of CHUNK_SIZE (rd_rest r)) \<and>
    fs' = fs\<lparr>fs_nodes := put_chunks (fs_nodes fs) dir 0 (chunks_of CHUNK_SIZE (rd_rest r))\<rparr>"
  using split_loop_Inr [OF assms [unfolded split_def]] by (simp add: CHUNK_SIZE_def)

section \<open>Publication\<close>

definition chunks_dir_of :: "path \<Rightarrow> string \<Rightarrow> path" where
  "chunks_dir_of containing_dir file_name =
     path_join_str containing_dir
       (map (\<lambda>c. if c = CHR ''.'' then CHR ''_'' else c) file_name @ ''_chunks'')"

definition leaves_of :: "'p merkle \<Rightarrow> bytes \<Rightarrow> bytes list" where
  "leaves_of M content = map (mk_hash M) (chunks_of CHUNK_SIZE content)"

definition expected_metadata :: "'p merkle \<Rightarrow> path \<Rightarrow> string \<Rightarrow> bytes \<Rightarrow> bool \<Rightarrow> bytes \<Rightarrow> FileMetadata" where
  "expected_metadata M dir file_name content public root =
     \<lparr>md_original_file_name = file_name,
      md_total_chunks = length (chunks_of CHUNK_SIZE content),
      md_chunks_dir = dir,
      md_merkle_root = root,
      md_merkle_proofs = map (mk_proof M (leaves_of M content)) [0..<length (chunks_of CHUNK_SIZE content)],
      md_chunk_file_extension = FILE_CHUNK_EXTENSION,
      md_public = public\<rparr>"

abbreviation metadata_path :: "path \<Rightarrow> path" where
  "metadata_path dir \<equiv> path_join_str dir METADATA_FILE_NAME"

lemma save_metadata_Inr:
  assumes "save_metadata L fs m = (Inr m', fs')"
  shows "m' = m \<and> (\<exists>b. enc_metadata L m = Inr b \<and>
      (healthy fs \<longrightarrow> fs' = fs\<lparr>fs_nodes := (fs_nodes fs)(metadata_path (md_chunks_dir m) \<mapsto> FileNode b)\<rparr>))"
    and "q \<noteq> metadata_path (md_chunks_dir m) \<Longrightarrow> fs_nodes fs' q = fs_nodes fs q"
proof -
  let ?p = "metadata_path (md_chunks_dir m)"
  from assms have sb: "save_blocking L fs m = (Inr m', fs')"
    by (simp add: save_metadata_def split: option.splits)
  then obtain fs1 where cr: "fs_create fs ?p = (Inr (), fs1)"
    by (cases "fs_create fs ?p"; cases "fst (fs_create fs ?p)") (auto simp: save_blocking_def Let_def)
  with sb obtain b where b: "enc_metadata L m = Inr b"
    by (cases "enc_metadata L m") (auto simp: save_blocking_def Let_def)
  obtain r fs2 where ap: "fs_append fs1 ?p b = (r, fs2)" by fastforce
  with sb cr b have m: "m' = m" "fs2 = fs'"
    by (cases r; simp add: save_blocking_def Let_def split: if_splits)+
  note ap = ap [unfolded m]
  from cr have fs1: "fs1 = fs\<lparr>fs_nodes := (fs_nodes fs)(?p \<mapsto> FileNode [])\<rparr>"
    by (cases rule: fs_create_cases [of fs ?p]) auto
  have "fs' = fs\<lparr>fs_nodes := (fs_nodes fs)(?p \<mapsto> FileNode b)\<rparr>" if "healthy fs"
    using ap that by (simp add: fs1 fs_append_healthy file_bytes_def)
  with b m(1) show "m' = m \<and> (\<exists>b. enc_metadata L m = Inr b \<and>
      (healthy fs \<longrightarrow> fs' = fs\<lparr>fs_nodes := (fs_nodes fs)(?p \<mapsto> FileNode b)\<rparr>))"
    by blast
  from ap show "q \<noteq> ?p \<Longrightarrow> fs_nodes fs' q = fs_nodes fs q"
    by (auto simp: fs1 dest: fs_append_frame(1))
qed

lemma save_metadata_healthy:
  assumes "healthy fs" "enc_metadata L m = Inr b" "node_at fs (md_chunks_dir m) = Some DirNode"
    "fs_nodes fs (metadata_path (md_chunks_dir m)) \<noteq> Some DirNode"
  shows "save_metadata L fs m =
    (Inr m, fs\<lparr>fs_nodes := (fs_nodes fs)(metadata_path (md_chunks_dir m) \<mapsto> FileNode b)\<rparr>)"
  using assms
  by (simp add: save_metadata_def save_blocking_def fs_create_def fs_append_def healthy_def
      node_at_child parent_is_dir_child file_bytes_def Let_def)

text \<open>Everything a successful publication implies, under any pattern of failures.\<close>

lemma process_file_Inr:
  assumes "process_file M L fs rsize rfault file_path public = (Inr m, fs')"
  obtains content containing_dir file_name root fs1 where
    "fs_read fs (path_of_string file_path) = Inr content"
    "path_parent (path_of_string file_path) = Some containing_dir"
    "path_file_name (path_of_string file_path) = Some file_name"
    "mk_root M (leaves_of M content) = Some root"
    "m = expected_metadata M (chunks_dir_of containing_dir file_name) file_name content public root"
    "fs_create_dir_all fs (md_chunks_dir m) = (Inr (), fs1)"
    "save_metadata L (fs1\<lparr>fs_nodes := put_chunks (fs_nodes fs1) (md_chunks_dir m) 0
        (chunks_of CHUNK_SIZE content)\<rparr>) m = (Inr m, fs')"
proof -
  let ?p = "path_of_string file_path"
  from assms obtain content containing_dir file_name where
    1: "fs_read fs ?p = Inr content" "path_parent ?p = Some containing_dir"
       "path_file_name ?p = Some file_name"
    by (auto simp: process_file_def Let_def
        split: option.splits prod.splits sum.splits fs_node.splits)
  let ?dir = "chunks_dir_of containing_dir file_name"
  let ?r = "\<lparr>rd_rest = content, rd_size = rsize, rd_fault = rfault\<rparr>"
  from assms 1 obtain fs1 leaves fs2 root where
    2: "fs_create_dir_all fs ?dir = (Inr (), fs1)" "split M fs1 ?r ?dir = (Inr leaves, fs2)"
       "mk_root M leaves = Some root" and
    3: "save_metadata L fs2
            \<lparr>md_original_file_name = file_name, md_total_chunks = length leaves,
             md_chunks_dir = ?dir, md_merkle_root = root,
             md_merkle_proofs = map (mk_proof M leaves) [0..<length leaves],
             md_chunk_file_extension = FILE_CHUNK_EXTENSION, md_public = public\<rparr> = (Inr m, fs')"
    by (auto simp: process_file_def Let_def chunks_dir_of_def
        split: option.splits prod.splits sum.splits fs_node.splits)
  from split_Inr [OF 2(2)] have s: "leaves = leaves_of M content"
    "fs2 = fs1\<lparr>fs_nodes := put_chunks (fs_nodes fs1) ?dir 0 (chunks_of CHUNK_SIZE content)\<rparr>"
    by (simp_all add: leaves_of_def)
  have e: "\<lparr>md_original_file_name = file_name, md_total_chunks = length leaves,
      md_chunks_dir = ?dir, md_merkle_root = root,
      md_merkle_proofs = map (mk_proof M leaves) [0..<length leaves],
      md_chunk_file_extension = FILE_CHUNK_EXTENSION, md_public = public\<rparr> =
      expected_metadata M ?dir file_name content public root"
    by (simp add: expected_metadata_def s) (simp add: leaves_of_def)
  from save_metadata_Inr(1) [OF 3] have m: "m = expected_metadata M ?dir file_name content public root"
    by (simp add: e)
  then have d: "md_chunks_dir m = ?dir" by (simp add: expected_metadata_def)
  show ?thesis
    by (rule that [OF 1 _ m]) (use 2 3 s e m d in \<open>simp_all add: leaves_of_def\<close>)
qed

lemma CHUNK_SIZE_pos [simp]: "0 < CHUNK_SIZE"
  by (simp add: CHUNK_SIZE_def)

lemma path_join_components_length:
  "plain_name s \<Longrightarrow> length (components (path_join_str d s)) = Suc (length (components d))"
  by (simp add: path_join_plain)

lemma put_chunks_chunk:
  "i < length cs \<Longrightarrow>
   put_chunks m dir 0 cs (chunk_path dir i FILE_CHUNK_EXTENSION) = Some (FileNode (cs ! i))"
  using put_chunks_nth [of i cs m dir 0] by simp

lemma put_chunks_metadata [simp]:
  "put_chunks m dir i cs (metadata_path dir) = m (metadata_path dir)"
  by (rule put_chunks_other) (metis chunk_neq_metadata)

lemma put_chunks_shallow:
  "length (components q) \<le> length (components dir) \<Longrightarrow> put_chunks m dir i cs q = m q"
  by (rule put_chunks_other) (auto simp: components_chunk_path)

lemma plain_chunks_dir: "plain_name name \<Longrightarrow>
  plain_name (map (\<lambda>c. if c = CHR ''.'' then CHR ''_'' else c) name @ ''_chunks'')"
  by (auto simp: plain_name_def append_eq_Cons_conv)

lemma chunks_dir_of_simps:
  assumes "plain_name name"
  shows "path_parent (chunks_dir_of dir name) = Some dir"
    and "length (components (chunks_dir_of dir name)) = Suc (length (components dir))"
    and "components (chunks_dir_of dir name) \<noteq> []"
  using plain_chunks_dir [OF assms]
  by (simp_all add: chunks_dir_of_def path_parent_join_plain path_join_components_length)

lemma expected_metadata_simps [simp]:
  "md_original_file_name (expected_metadata M dir name c pub root) = name"
  "md_total_chunks (expected_metadata M dir name c pub root) = length (chunks_of CHUNK_SIZE c)"
  "md_chunks_dir (expected_metadata M dir name c pub root) = dir"
  "md_merkle_root (expected_metadata M dir name c pub root) = root"
  "md_merkle_proofs (expected_metadata M dir name c pub root) =
     map (mk_proof M (leaves_of M c)) [0..<length (chunks_of CHUNK_SIZE c)]"
  "md_chunk_file_extension (expected_metadata M dir name c pub root) = FILE_CHUNK_EXTENSION"
  "md_public (expected_metadata M dir name c pub root) = pub"
  by (simp_all add: expected_metadata_def)

text \<open>The files a publication leaves.\<close>

lemma process_file_files:
  assumes "process_file M L fs rsize rfault file_path public = (Inr m, fs')"
    and "fs_read fs (path_of_string file_path) = Inr content" and "i < md_total_chunks m"
  shows "md_total_chunks m = length (chunks_of CHUNK_SIZE content)"
    and "fs_nodes fs' (chunk_path (md_chunks_dir m) i FILE_CHUNK_EXTENSION) =
           Some (FileNode (chunks_of CHUNK_SIZE content ! i))"
  using assms
  by (auto elim!: process_file_Inr simp: put_chunks_chunk save_metadata_Inr(2))

lemma depth_neq: "length (components p) \<noteq> length (components q) \<Longrightarrow> p \<noteq> q"
  by auto

text \<open>Appending the chunk files to another file concatenates them.\<close>

lemma append_chunks_healthy:
  assumes "healthy fs" "\<And>i. i \<in> set js \<Longrightarrow>
      tmp \<noteq> chunk_path dir i ext \<and> components (chunk_path dir i ext) \<noteq> [] \<and>
      fs_nodes fs (chunk_path dir i ext) = Some (FileNode (f i))"
    and "fs_nodes fs tmp = Some (FileNode b)"
  shows "append_chunks fs dir tmp ext js =
    (Inr (), fs\<lparr>fs_nodes := (fs_nodes fs)(tmp \<mapsto> FileNode (b @ concat (map f js)))\<rparr>)"
  using assms
proof (induction js arbitrary: fs b)
  case Nil
  then have "(fs_nodes fs)(tmp \<mapsto> FileNode b) = fs_nodes fs" by (intro ext) auto
  then show ?case by simp
next
  case (Cons i js)
  let ?fs = "fs\<lparr>fs_nodes := (fs_nodes fs)(tmp \<mapsto> FileNode (b @ f i))\<rparr>"
  from Cons.prems(2) [of i] Cons.prems(1) have rd: "fs_read fs (chunk_path dir i ext) = Inr (f i)"
    by (simp add: fs_read_healthy)
  have ap: "fs_append fs tmp (f i) = (Inr (), ?fs)"
    using Cons.prems by (simp add: fs_append_healthy file_bytes_def)
  have "append_chunks fs dir tmp ext (i # js) = append_chunks ?fs dir tmp ext js"
    using rd ap by simp
  also have "\<dots> = (Inr (), ?fs\<lparr>fs_nodes := (fs_nodes ?fs)
      (tmp \<mapsto> FileNode ((b @ f i) @ concat (map f js)))\<rparr>)"
    by (rule Cons.IH) (use Cons.prems in \<open>auto dest: spec\<close>)
  also have "\<dots> = (Inr (), fs\<lparr>fs_nodes := (fs_nodes fs)(tmp \<mapsto> FileNode (b @ concat (map f (i # js))))\<rparr>)"
    by (simp del: fun_upd_apply)
  finally show ?case .
qed

text \<open>
  Restoring: with the metadata file and all chunk files in place and nothing in the way, the file
  comes out as the concatenation of its chunks. First for any name the metadata may hold, with
  what has to be known of the two paths made from it.
\<close>

lemma restore_core:
  assumes h: "healthy fs"
    and meta: "fs_nodes fs (metadata_path (pend_chunks_dir rec)) = Some (FileNode b)"
       "dec_metadata L b = Inr m" "path_parent (md_chunks_dir m) = Some d"
    and target: "target = path_join_str d (md_original_file_name m)"
       "node_at fs target = None" "parent_is_dir fs target" "path_parent target \<noteq> Some tmp"
    and tmp: "tmp = path_join_str d (md_original_file_name m @ ''.part'')"
       "node_at fs tmp \<noteq> Some DirNode" "parent_is_dir fs tmp" "tmp \<noteq> target"
    and chunks: "\<And>i. i < md_total_chunks m \<Longrightarrow>
       tmp \<noteq> chunk_path (md_chunks_dir m) i (md_chunk_file_extension m) \<and>
       components (chunk_path (md_chunks_dir m) i (md_chunk_file_extension m)) \<noteq> [] \<and>
       fs_nodes fs (chunk_path (md_chunks_dir m) i (md_chunk_file_extension m)) = Some (FileNode (f i))"
  shows "restore_original_file L fs rec = (Inr m, fs\<lparr>fs_nodes := (fs_nodes fs)
    (tmp := None, target \<mapsto> FileNode (concat (map f [0..<md_total_chunks m])))\<rparr>)"
proof -
  let ?dir = "md_chunks_dir m" and ?ext = "md_chunk_file_extension m"
  let ?body = "concat (map f [0..<md_total_chunks m])"
  have rd: "fs_read fs (metadata_path (pend_chunks_dir rec)) = Inr b"
    using h meta by (simp add: fs_read_healthy)
  have ex: "fs_try_exists fs target = Inr False"
    using h target(2) by (simp add: fs_try_exists_def healthy_def)
  let ?fs1 = "fs\<lparr>fs_nodes := (fs_nodes fs)(tmp \<mapsto> FileNode [])\<rparr>"
  have cr: "fs_create fs tmp = (Inr (), ?fs1)"
    using h tmp by (simp add: fs_create_def healthy_def)
  let ?fs2 = "fs\<lparr>fs_nodes := (fs_nodes fs)(tmp \<mapsto> FileNode ?body)\<rparr>"
  have ap: "append_chunks ?fs1 ?dir tmp ?ext [0..<md_total_chunks m] = (Inr (), ?fs2)"
  proof -
    have "append_chunks ?fs1 ?dir tmp ?ext [0..<md_total_chunks m] =
      (Inr (), ?fs1\<lparr>fs_nodes := (fs_nodes ?fs1)(tmp \<mapsto> FileNode ([] @ ?body))\<rparr>)"
      by (rule append_chunks_healthy) (use h chunks in \<open>auto simp: eq_commute [of _ tmp]\<close>)
    then show ?thesis by simp
  qed
  have "parent_is_dir ?fs2 target"
    using target(3,4) by (auto simp: parent_is_dir_def node_at_def split: option.splits)
  then have rn: "fs_rename ?fs2 tmp target =
      (Inr (), ?fs2\<lparr>fs_nodes := (fs_nodes ?fs2)(tmp := None, target \<mapsto> FileNode ?body)\<rparr>)"
    using h target(2) tmp(4)
    by (auto simp: fs_rename_def healthy_def node_at_def split: if_splits)
  have "restore_original_file L fs rec =
      (Inr m, ?fs2\<lparr>fs_nodes := (fs_nodes ?fs2)(tmp := None, target \<mapsto> FileNode ?body)\<rparr>)"
    unfolding restore_original_file_def Let_def target(1) [symmetric] tmp(1) [symmetric]
    by (simp only: rd meta(2,3) target(1) [symmetric] tmp(1) [symmetric] ex cr ap rn
        sum.case option.case prod.case bool.case)
  then show ?thesis by simp
qed

lemma restore_healthy:
  assumes h: "healthy fs"
    and meta: "fs_nodes fs (metadata_path (pend_chunks_dir rec)) = Some (FileNode b)"
       "dec_metadata L b = Inr m"
    and par: "path_parent (md_chunks_dir m) = Some d" "node_at fs d = Some DirNode"
    and name: "plain_name (md_original_file_name m)"
    and ext: "CHR ''/'' \<notin> set (md_chunk_file_extension m)"
    and free: "fs_nodes fs (path_join_str d (md_original_file_name m)) = None"
       "fs_nodes fs (path_join_str d (md_original_file_name m @ ''.part'')) \<noteq> Some DirNode"
    and chunks: "\<And>i. i < md_total_chunks m \<Longrightarrow>
       fs_nodes fs (chunk_path (md_chunks_dir m) i (md_chunk_file_extension m)) = Some (FileNode (f i))"
  shows "\<exists>fs'. restore_original_file L fs rec = (Inr m, fs') \<and>
    fs_nodes fs' (path_join_str d (md_original_file_name m)) =
      Some (FileNode (concat (map f [0..<md_total_chunks m])))"
proof -
  let ?name = "md_original_file_name m"
  let ?tmp = "path_join_str d (?name @ ''.part'')"
  have part: "plain_name (?name @ ''.part'')"
    using name by (auto simp: plain_name_def append_eq_Cons_conv)
  have shallow: "length (components (md_chunks_dir m)) = Suc (length (components d))"
    using par by (auto simp: path_parent_def split: if_splits)
  have apart: "?tmp \<noteq> chunk_path (md_chunks_dir m) i (md_chunk_file_extension m)" for i
    by (rule depth_neq)
       (simp add: shallow components_chunk_path [OF ext] path_join_components_length [OF part])
  show ?thesis
    using restore_core [OF h meta par(1) refl _ _ _ refl, of f] par name part free chunks apart
    by (simp add: node_at_child parent_is_dir_child path_parent_join_plain path_join_plain_inject
        child_neq_dir components_chunk_path [OF ext])
qed

section \<open>Totality of publication\<close>

text \<open>The chunk directory can be made and filled: no file where a directory goes, and back.\<close>

definition chunk_dir_ready :: "filesys \<Rightarrow> path \<Rightarrow> bool" where
  "chunk_dir_ready fs dir \<longleftrightarrow>
     (\<forall>q \<in> set (path_prefixes dir). \<not> is_file_node (fs_nodes fs q)) \<and>
     (\<forall>i. fs_nodes fs (chunk_path dir i FILE_CHUNK_EXTENSION) \<noteq> Some DirNode) \<and>
     fs_nodes fs (metadata_path dir) \<noteq> Some DirNode"

lemma path_prefixes_length: "q \<in> set (path_prefixes p) \<Longrightarrow> length (components q) \<le> length (components p)"
  by (auto simp: path_prefixes_def)

lemma fs_create_dir_all_healthy:
  assumes "healthy fs" "chunk_dir_ready fs dir" "components dir \<noteq> []"
  obtains fs1 where "fs_create_dir_all fs dir = (Inr (), fs1)" "healthy fs1" "chunk_dir_free fs1 dir"
proof -
  have "\<not> is_file_node (node_at fs dir)"
    using assms path_in_prefixes [of dir] by (simp add: chunk_dir_ready_def node_at_def)
  then obtain fs1 where ok: "fs_create_dir_all fs dir = (Inr (), fs1)"
    using assms(1,2) by (auto simp: fs_create_dir_all_def healthy_def chunk_dir_ready_def list_ex_iff)
  have h: "healthy fs1"
    using assms(1) fs_create_dir_all_frame(1-3) [OF ok] by (simp add: healthy_def)
  have "chunk_path dir i FILE_CHUNK_EXTENSION \<notin> set (path_prefixes dir)"
    "metadata_path dir \<notin> set (path_prefixes dir)" for i
    using path_prefixes_length [of _ dir]
    by (fastforce simp: components_chunk_path path_join_components_length)+
  then have "chunk_dir_free fs1 dir"
    using fs_create_dir_all_ok(1) [OF ok] fs_create_dir_all_frame(4) [OF ok] assms(2)
    by (simp add: chunk_dir_free_def chunk_dir_ready_def)
  with ok h show ?thesis by (rule that)
qed

lemma process_file_healthy:
  assumes h: "healthy fs" and ff: "fs_nodes fs (path_of_string file_path) = Some (FileNode content)"
    and p: "path_parent (path_of_string file_path) = Some d"
       "path_file_name (path_of_string file_path) = Some name"
    and ready: "chunk_dir_ready fs (chunks_dir_of d name)" and reads: "rfault = (\<lambda>_. None)"
  obtains fs2 where "healthy fs2" "chunk_dir_free fs2 (chunks_dir_of d name)"
    "process_file M L fs rsize rfault file_path public =
      (case mk_root M (leaves_of M content) of
         None \<Rightarrow> (Inl (Fpe_MerkleTreeCreation ''cannot get merkle root''), fs2)
       | Some root \<Rightarrow> save_metadata L fs2
           (expected_metadata M (chunks_dir_of d name) name content public root))"
proof -
  let ?p = "path_of_string file_path" and ?dir = "chunks_dir_of d name"
  let ?r = "\<lparr>rd_rest = content, rd_size = rsize, rd_fault = rfault\<rparr>"
  have comps: "components ?p \<noteq> []" using p by (auto simp: path_file_name_def)
  have name: "plain_name name" using p(2) by (rule path_file_name_plain)
  have rd: "fs_read fs ?p = Inr content" "fs_metadata fs ?p = Inr (FileNode content)"
    using h ff comps by (simp_all add: fs_read_healthy fs_metadata_def healthy_def node_at_def)
  obtain fs1 where 1: "fs_create_dir_all fs ?dir = (Inr (), fs1)" "healthy fs1" "chunk_dir_free fs1 ?dir"
    using fs_create_dir_all_healthy [OF h ready] chunks_dir_of_simps(3) [OF name] by blast
  obtain ls fs2 where 2: "split M fs1 ?r ?dir = (Inr ls, fs2)"
    using split_loop_total [OF 1(2,3), of ?r "replicate CHUNK_SIZE 0" CHUNK_SIZE M "[]"] reads
    by (auto simp: split_def)
  from split_Inr [OF 2] have ls: "ls = leaves_of M content"
    and fs2: "fs2 = fs1\<lparr>fs_nodes := put_chunks (fs_nodes fs1) ?dir 0 (chunks_of CHUNK_SIZE content)\<rparr>"
    by (simp_all add: leaves_of_def)
  have shallow: "put_chunks (fs_nodes fs1) ?dir 0 (chunks_of CHUNK_SIZE content) ?dir = fs_nodes fs1 ?dir"
    by (rule put_chunks_shallow) simp
  have "fs_nodes fs2 (chunk_path ?dir i FILE_CHUNK_EXTENSION) \<noteq> Some DirNode" for i
  proof (cases "i < length (chunks_of CHUNK_SIZE content)")
    case True
    then show ?thesis by (simp add: fs2 put_chunks_chunk)
  next
    case False
    then have "fs_nodes fs2 (chunk_path ?dir i FILE_CHUNK_EXTENSION) =
        fs_nodes fs1 (chunk_path ?dir i FILE_CHUNK_EXTENSION)"
      by (simp add: fs2) (rule put_chunks_other, simp)
    with 1(3) show ?thesis by (simp add: chunk_dir_free_def)
  qed
  then have free: "chunk_dir_free fs2 ?dir"
    using 1(3) by (auto simp: chunk_dir_free_def fs2 node_at_def shallow split: if_splits)
  have "process_file M L fs rsize rfault file_path public =
      (case mk_root M (leaves_of M content) of
         None \<Rightarrow> (Inl (Fpe_MerkleTreeCreation ''cannot get merkle root''), fs2)
       | Some root \<Rightarrow> save_metadata L fs2 (expected_metadata M ?dir name content public root))"
    using rd p 1(1) 2 ls
    by (simp add: process_file_def Let_def chunks_dir_of_def [symmetric] expected_metadata_def
        leaves_of_def [symmetric] split: option.split)
       (simp add: leaves_of_def)
  with 1(2) fs2 free show ?thesis by (intro that) simp_all
qed

lemma save_metadata_free:
  assumes "healthy fs" "chunk_dir_free fs (md_chunks_dir m)" "enc_metadata L m = Inr b"
  shows "\<exists>fs'. save_metadata L fs m = (Inr m, fs')"
  using assms by (simp add: save_metadata_healthy chunk_dir_free_def)

lemma process_file_succeeds:
  assumes "healthy fs" "fs_nodes fs (path_of_string file_path) = Some (FileNode content)"
    and "path_parent (path_of_string file_path) = Some d"
    and "path_file_name (path_of_string file_path) = Some name"
    and "chunk_dir_ready fs (chunks_dir_of d name)" and "rfault = (\<lambda>_. None)"
    and "mk_root M (leaves_of M content) = Some root"
    and "enc_metadata L (expected_metadata M (chunks_dir_of d name) name content public root) = Inr b"
  obtains fs' where "process_file M L fs rsize rfault file_path public =
      (Inr (expected_metadata M (chunks_dir_of d name) name content public root), fs')"
    and "healthy fs'" and "chunk_dir_free fs' (chunks_dir_of d name)"
proof -
  let ?m = "expected_metadata M (chunks_dir_of d name) name content public root"
  obtain fs2 where 2: "healthy fs2" "chunk_dir_free fs2 (chunks_dir_of d name)"
    "process_file M L fs rsize rfault file_path public =
      (case mk_root M (leaves_of M content) of
         None \<Rightarrow> (Inl (Fpe_MerkleTreeCreation ''cannot get merkle root''), fs2)
       | Some root \<Rightarrow> save_metadata L fs2
           (expected_metadata M (chunks_dir_of d name) name content public root))"
    by (rule process_file_healthy [OF assms(1-6)])
  let ?fs' = "fs2\<lparr>fs_nodes := (fs_nodes fs2)(metadata_path (md_chunks_dir ?m) \<mapsto> FileNode b)\<rparr>"
  have "save_metadata L fs2 ?m = (Inr ?m, ?fs')"
    by (rule save_metadata_healthy) (use 2 assms(8) in \<open>simp_all add: chunk_dir_free_def\<close>)
  moreover have "chunk_dir_free ?fs' (chunks_dir_of d name)"
    using 2(2) by (auto simp: chunk_dir_free_def node_at_def child_neq_dir)
  ultimately show ?thesis
    using 2 assms(7) by (intro that) simp_all
qed

section \<open>Merkle proofs\<close>

definition merkle_complete :: "'p merkle \<Rightarrow> bytes list \<Rightarrow> bool" where
  "merkle_complete M leaves \<longleftrightarrow>
     (\<forall>root i. mk_root M leaves = Some root \<longrightarrow> i < length leaves \<longrightarrow>
        (\<exists>p. mk_from_bytes M (mk_proof M leaves i) = Some p \<and>
             mk_verify M p root [i] [leaves ! i] (length leaves)))"

definition merkle_binding :: "'p merkle \<Rightarrow> bytes list \<Rightarrow> bytes \<Rightarrow> bool" where
  "merkle_binding M leaves root \<longleftrightarrow>
     (\<forall>p i l. mk_verify M p root [i] [l] (length leaves) \<longrightarrow> i < length leaves \<and> l = leaves ! i)"

definition no_second_preimage :: "'p merkle \<Rightarrow> bytes list \<Rightarrow> bool" where
  "no_second_preimage M cs \<longleftrightarrow> (\<forall>c \<in> set cs. \<forall>c'. mk_hash M c' = mk_hash M c \<longrightarrow> c' = c)"

lemma verify_chunk_complete:
  assumes "merkle_complete M (leaves_of M content)" "mk_root M (leaves_of M content) = Some root"
    and "i < length (chunks_of CHUNK_SIZE content)"
  shows "verify_chunk M (chunks_of CHUNK_SIZE content ! i) i (mk_proof M (leaves_of M content) i) root
           (length (chunks_of CHUNK_SIZE content)) = Some True"
  using assms by (auto simp: merkle_complete_def verify_chunk_def leaves_of_def split: option.splits)

lemma verify_chunk_sound:
  assumes "merkle_binding M (leaves_of M content) root"
    and "no_second_preimage M (chunks_of CHUNK_SIZE content)"
    and "verify_chunk M c i proof root (length (chunks_of CHUNK_SIZE content)) = Some True"
  shows "i < length (chunks_of CHUNK_SIZE content) \<and> c = chunks_of CHUNK_SIZE content ! i"
proof -
  from assms(3) obtain p where "mk_verify M p root [i] [mk_hash M c] (length (leaves_of M content))"
    by (auto simp: verify_chunk_def leaves_of_def split: option.splits)
  with assms(1) have i: "i < length (leaves_of M content)" "mk_hash M c = leaves_of M content ! i"
    by (auto simp: merkle_binding_def)
  then have "mk_hash M c = mk_hash M (chunks_of CHUNK_SIZE content ! i)"
    by (simp add: leaves_of_def)
  with assms(2) i show ?thesis
    by (auto simp: no_second_preimage_def leaves_of_def)
qed

lemma parent_and_name:
  "path_parent p = Some d \<Longrightarrow> path_file_name p = Some name \<Longrightarrow> plain_name name \<Longrightarrow>
   p = path_join_str d name"
  by (cases p) (auto simp: path_parent_def path_file_name_def path_join_plain split: if_splits)

lemma process_file_stays_healthy:
  assumes "process_file M L fs rsize rfault file_path public = (Inr m, fs')" "healthy fs"
  shows "healthy fs'"
proof -
  from assms(1) obtain fs0 content where
    1: "fs_create_dir_all fs (md_chunks_dir m) = (Inr (), fs0)" and
    2: "save_metadata L (fs0\<lparr>fs_nodes := put_chunks (fs_nodes fs0) (md_chunks_dir m) 0
        (chunks_of CHUNK_SIZE content)\<rparr>) m = (Inr m, fs')"
    by (auto elim!: process_file_Inr)
  have "healthy fs0"
    using assms(2) fs_create_dir_all_frame(1-3) [OF 1] by (simp add: healthy_def)
  with save_metadata_Inr(1) [OF 2] show ?thesis by auto
qed

text \<open>A publication writes below its chunk directory and nowhere else.\<close>

lemma process_file_other:
  assumes "process_file M L fs rsize rfault file_path public = (Inr m, fs')"
    and "q \<notin> set (path_prefixes (md_chunks_dir m))"
    and "length (components q) \<le> length (components (md_chunks_dir m))"
  shows "fs_nodes fs' q = fs_nodes fs q"
proof -
  from assms(1) obtain fs0 content where
    1: "fs_create_dir_all fs (md_chunks_dir m) = (Inr (), fs0)" and
    2: "save_metadata L (fs0\<lparr>fs_nodes := put_chunks (fs_nodes fs0) (md_chunks_dir m) 0
        (chunks_of CHUNK_SIZE content)\<rparr>) m = (Inr m, fs')"
    by (auto elim!: process_file_Inr)
  have "q \<noteq> metadata_path (md_chunks_dir m)"
    by (rule depth_neq) (use assms(3) in \<open>simp add: path_join_components_length\<close>)
  from save_metadata_Inr(2) [OF 2 this] fs_create_dir_all_frame(4) [OF 1 assms(2)] assms(3)
  show ?thesis by (simp add: put_chunks_shallow)
qed

text \<open>
  The chunks and the metadata of a publication restore the published bytes wherever they are:
  what matters of a file system is that it holds the files the publication wrote.
\<close>

lemma restore_published:
  assumes "libs_ok L" "healthy fs"
    and pf: "process_file M L fs rsize rfault file_path public = (Inr m, fs1)"
    and content: "fs_read fs (path_of_string file_path) = Inr content"
    and d: "path_parent (path_of_string file_path) = Some d"
    and name: "path_file_name (path_of_string file_path) = Some name"
    and fs': "healthy fs'" "node_at fs' d = Some DirNode"
      "fs_nodes fs' (path_of_string file_path) = None"
      "fs_nodes fs' (path_join_str d (name @ ''.part'')) \<noteq> Some DirNode"
    and same: "fs_nodes fs' (metadata_path (md_chunks_dir m)) = fs_nodes fs1 (metadata_path (md_chunks_dir m))"
      "\<And>i. fs_nodes fs' (chunk_path (md_chunks_dir m) i FILE_CHUNK_EXTENSION) =
            fs_nodes fs1 (chunk_path (md_chunks_dir m) i FILE_CHUNK_EXTENSION)"
    and rec: "pend_chunks_dir rec = md_chunks_dir m"
  shows "\<exists>fs''. restore_original_file L fs' rec = (Inr m, fs'') \<and>
    fs_nodes fs'' (path_of_string file_path) = Some (FileNode content)"
proof -
  have plain: "plain_name name" using name by (rule path_file_name_plain)
  from pf content d name obtain root fs0 where
    m: "m = expected_metadata M (chunks_dir_of d name) name content public root"
    and sm: "fs_create_dir_all fs (md_chunks_dir m) = (Inr (), fs0)"
      "save_metadata L (fs0\<lparr>fs_nodes := put_chunks (fs_nodes fs0) (md_chunks_dir m) 0
        (chunks_of CHUNK_SIZE content)\<rparr>) m = (Inr m, fs1)"
    by (auto elim!: process_file_Inr)
  have "healthy fs0"
    using assms(2) fs_create_dir_all_frame(1-3) [OF sm(1)] by (simp add: healthy_def)
  with save_metadata_Inr(1) [OF sm(2)] obtain b where b: "enc_metadata L m = Inr b"
    "fs_nodes fs1 (metadata_path (md_chunks_dir m)) = Some (FileNode b)" by auto
  have dec: "dec_metadata L b = Inr m" using libs_okD(1) [OF assms(1) b(1)] .
  have mm: "md_original_file_name m = name" "md_chunk_file_extension m = FILE_CHUNK_EXTENSION"
    "md_total_chunks m = length (chunks_of CHUNK_SIZE content)"
    "path_parent (md_chunks_dir m) = Some d"
    using chunks_dir_of_simps [OF plain] by (simp_all add: m)
  have target: "path_join_str d name = path_of_string file_path"
    using parent_and_name [OF d name plain] by simp
  have "\<exists>fs''. restore_original_file L fs' rec = (Inr m, fs'') \<and>
      fs_nodes fs'' (path_join_str d (md_original_file_name m)) =
        Some (FileNode (concat (map (\<lambda>i. chunks_of CHUNK_SIZE content ! i) [0..<md_total_chunks m])))"
  proof (rule restore_healthy [OF fs'(1) _ dec mm(4) fs'(2)])
    show "fs_nodes fs' (metadata_path (pend_chunks_dir rec)) = Some (FileNode b)"
      using same(1) b(2) rec by simp
    show "fs_nodes fs' (chunk_path (md_chunks_dir m) i (md_chunk_file_extension m)) =
        Some (FileNode (chunks_of CHUNK_SIZE content ! i))" if "i < md_total_chunks m" for i
      using process_file_files(2) [OF pf content that] same(2) by (simp add: mm)
  qed (use plain fs' target in \<open>simp_all add: mm\<close>)
  then show ?thesis
    by (simp add: mm target map_nth)
qed

end
