(* ===== verification/Sample_World.thy ===== *)
theory Sample_World
  imports Chunking
begin

text \<open>
  Concrete libraries and a concrete file system, used only to evaluate the theorems at an input:
  a codec that knows one value of each type, a hasher that returns the number of bytes, a Merkle
  tree that knows its leaves, and a healthy disk with one file.
\<close>

definition sample_libs ::
  "FileMetadata \<Rightarrow> PublishedFileRecord \<Rightarrow> PendingDownloadRecord \<Rightarrow> FileSearchRequest \<Rightarrow> libs" where
  "sample_libs m r q s =
     \<lparr>enc_metadata = (\<lambda>x. if x = m then Inr [1] else Inl ''unsupported''),
      dec_metadata = (\<lambda>b. if b = [1] then Inr m else Inl ''malformed''),
      enc_published = (\<lambda>x. if x = r then Inr [2] else Inl ''unsupported''),
      dec_published = (\<lambda>b. if b = [2] then Inr r else Inl ''malformed''),
      enc_pending = (\<lambda>x. if x = q then Inr [3] else Inl ''unsupported''),
      dec_pending = (\<lambda>b. if b = [3] then Inr q else Inl ''malformed''),
      enc_chunk_request = (\<lambda>c. Inr (to_be_bytes (creq_file_id c) @
          to_be_bytes (word_of_nat (creq_chunk_id c)))),
      enc_published_file = (\<lambda>p. Inr (pf_merkle_root p)),
      enc_search = (\<lambda>x. if x = s then Inr [4] else Inl ''unsupported''),
      dec_search = (\<lambda>b. if b = [4] then Inr s else Inl ''malformed''),
      sha256_finish = (\<lambda>b. word_of_nat (length b))\<rparr>"

lemma sample_libs_ok [simp]: "libs_ok (sample_libs m r q s)"
  by (simp add: libs_ok_def sample_libs_def)

lemma sample_libs_simps [simp]:
  "enc_metadata (sample_libs m r q s) m = Inr [1]"
  "dec_metadata (sample_libs m r q s) [1] = Inr m"
  "enc_published (sample_libs m r q s) r = Inr [2]"
  "enc_pending (sample_libs m r q s) q = Inr [3]"
  "enc_search (sample_libs m r q s) s = Inr [4]"
  by (simp_all add: sample_libs_def)

definition sample_merkle :: "bytes list \<Rightarrow> bytes merkle" where
  "sample_merkle leaves =
     \<lparr>mk_hash = (\<lambda>b. b),
      mk_root = (\<lambda>ls. if ls = [] then None else Some (replicate 32 0)),
      mk_proof = (\<lambda>ls i. [word_of_nat i]),
      mk_from_bytes = Some,
      mk_verify = (\<lambda>p root idx ls n.
         (case (idx, ls) of
            ([i], [l]) \<Rightarrow> i < length leaves \<and> l = leaves ! i
          | _ \<Rightarrow> False))\<rparr>"

definition sample_fs :: "(path \<Rightarrow> fs_node option) \<Rightarrow> filesys" where
  "sample_fs m = \<lparr>fs_nodes = m, fs_fault = (\<lambda>_ _ _. None), fs_short = (\<lambda>_ _ _. None),
     fs_join = (\<lambda>_. None)\<rparr>"

lemma healthy_sample_fs [simp]: "healthy (sample_fs m)"
  by (simp add: healthy_def sample_fs_def)

lemma nodes_sample_fs [simp]: "fs_nodes (sample_fs m) = m"
  by (simp add: sample_fs_def)

definition sample_record :: "path \<Rightarrow> PendingDownloadRecord" where
  "sample_record dir = PendingDownloadRecord_new (key_of_u64 1) ''f'' dir"

definition sample_published :: PublishedFileRecord where
  "sample_published = \<lparr>pub_key = key_of_u64 1, pub_original_file_name = ''f'',
     pub_chunks_dir = Path True [''f_chunks''], pub_public = True\<rparr>"

definition sample_search :: FileSearchRequest where
  "sample_search = \<lparr>sreq_session_id = ''f'', sreq_search_value = ''f''\<rparr>"

end
