(* ===== verification/Chunking_Props.thy ===== *)
theory Chunking_Props
  imports Chunking_Correct Sample_World
begin

text \<open>
  The properties of publication and restoration, with a concrete publication of a three-byte
  file \<open>/f\<close> on which they are evaluated.
\<close>

section \<open>A sample publication\<close>

definition sample_metadata :: FileMetadata where
  "sample_metadata = expected_metadata (sample_merkle [[1, 2, 3]]) (Path True [''f_chunks'']) ''f''
     [1, 2, 3] True (replicate 32 0)"

definition sample_disk :: filesys where
  "sample_disk = sample_fs [Path True [''f''] \<mapsto> FileNode [1, 2, 3]]"

abbreviation sample_world_libs :: libs where
  "sample_world_libs \<equiv> sample_libs sample_metadata sample_published
     (sample_record (Path True [''f_chunks''])) sample_search"

lemma sample_path: "path_of_string ''/f'' = Path True [''f'']"
  by (simp add: path_of_string_def Let_def)

lemma sample_chunks_dir: "chunks_dir_of (Path True []) ''f'' = Path True [''f_chunks'']"
proof -
  have "plain_name ''f_chunks''" by (simp add: plain_name_def)
  then show ?thesis by (simp add: chunks_dir_of_def path_join_plain)
qed

lemma sample_chunks: "chunks_of CHUNK_SIZE [1, 2, 3 :: byte] = [[1, 2, 3]]"
  by (rule chunks_of_short) (simp_all add: CHUNK_SIZE_def)

lemma sample_ready: "chunk_dir_ready sample_disk (Path True [''f_chunks''])"
  by (auto simp: chunk_dir_ready_def sample_disk_def path_prefixes_def is_file_node_def)

lemma sample_publication_with:
  assumes "enc_metadata L sample_metadata = Inr [1]"
  obtains fs1 where "process_file (sample_merkle [[1, 2, 3]]) L sample_disk
      (\<lambda>_ _. 2) (\<lambda>_. None) ''/f'' True = (Inr sample_metadata, fs1)"
    and "fs_nodes fs1 (Path True [''f.part'']) = None"
proof -
  let ?M = "sample_merkle [[1, 2, 3]]"
  have "path_parent (path_of_string ''/f'') = Some (Path True [])"
    "path_file_name (path_of_string ''/f'') = Some ''f''"
    by (simp_all add: sample_path path_parent_def path_file_name_def)
  from process_file_healthy [OF _ _ this, of sample_disk "[1, 2, 3]" "\<lambda>_. None" ?M L
      "\<lambda>_ _. 2" True, unfolded sample_chunks_dir]
  obtain fs2 where "healthy fs2" "chunk_dir_free fs2 (Path True [''f_chunks''])"
    "process_file ?M L sample_disk (\<lambda>_ _. 2) (\<lambda>_. None) ''/f'' True =
       save_metadata L fs2 sample_metadata"
    using sample_ready
    by (auto simp: sample_disk_def sample_path leaves_of_def sample_chunks sample_merkle_def
        sample_metadata_def)
  with save_metadata_free [of fs2 sample_metadata L] assms
  obtain fs1 where pf: "process_file ?M L sample_disk (\<lambda>_ _. 2) (\<lambda>_. None) ''/f'' True =
      (Inr sample_metadata, fs1)"
    by (auto simp: sample_metadata_def)
  show ?thesis
    by (rule that [OF pf]) (use process_file_other [OF pf, of "Path True [''f.part'']"]
       in \<open>simp add: sample_disk_def sample_metadata_def path_prefixes_def\<close>)
qed

lemma sample_publication:
  obtains fs1 where "process_file (sample_merkle [[1, 2, 3]]) sample_world_libs sample_disk
      (\<lambda>_ _. 2) (\<lambda>_. None) ''/f'' True = (Inr sample_metadata, fs1)"
    and "fs_nodes fs1 (Path True [''f.part'']) = None"
  by (rule sample_publication_with [of sample_world_libs]) simp

section \<open>Properties\<close>

text \<open>
  Claim C6. Publishing and restoring are inverse: on a healthy system, when \<open>process_file\<close> has
  published a file and the file is then lost, \<open>restore_original_file\<close> rebuilds it from the
  metadata and the chunk files, byte for byte, under its old path.
\<close>

theorem publish_then_restore:
  assumes "libs_ok L" "healthy fs"
    and "process_file M L fs rsize rfault file_path public = (Inr m, fs1)"
    and "fs_nodes fs (path_of_string file_path) = Some (FileNode content)"
    and "path_parent (path_of_string file_path) = Some d" "node_at fs1 d = Some DirNode"
    and "fs_nodes fs1 (path_join_str d (md_original_file_name m @ ''.part'')) \<noteq> Some DirNode"
    and "pend_chunks_dir rec = md_chunks_dir m"
  shows "\<exists>fs2. restore_original_file L
      (fs1\<lparr>fs_nodes := (fs_nodes fs1)(path_of_string file_path := None)\<rparr>) rec = (Inr m, fs2) \<and>
    fs_nodes fs2 (path_of_string file_path) = Some (FileNode content)"
proof -
  from assms(3,4,5) obtain name where name: "path_file_name (path_of_string file_path) = Some name"
    and m: "md_original_file_name m = name" "md_chunks_dir m = chunks_dir_of d name"
    by (auto elim!: process_file_Inr)
  have plain: "plain_name name" using name by (rule path_file_name_plain)
  have p: "path_of_string file_path = path_join_str d name"
    by (rule parent_and_name [OF assms(5) name plain])
  have read: "fs_read fs (path_of_string file_path) = Inr content"
    using assms(2,4) plain p by (simp add: fs_read_healthy)
  have h: "healthy fs1" using process_file_stays_healthy [OF assms(3,2)] .
  have len: "length (components (path_of_string file_path)) = length (components (md_chunks_dir m))"
    by (simp add: p m path_join_components_length plain chunks_dir_of_simps)
  have "metadata_path (md_chunks_dir m) \<noteq> path_of_string file_path"
    "chunk_path (md_chunks_dir m) i FILE_CHUNK_EXTENSION \<noteq> path_of_string file_path" for i
    by (rule depth_neq, simp add: len components_chunk_path path_join_components_length)+
  then show ?thesis
    by (intro restore_published [OF assms(1,2,3) read assms(5) name])
       (use h assms plain p m in \<open>auto simp: node_at_def child_neq_dir\<close>)
qed

theorem publish_then_restore_witness:
  "\<exists>fs1 fs2. process_file (sample_merkle [[1, 2, 3]]) sample_world_libs sample_disk
      (\<lambda>_ _. 2) (\<lambda>_. None) ''/f'' True = (Inr sample_metadata, fs1) \<and>
    restore_original_file sample_world_libs
      (fs1\<lparr>fs_nodes := (fs_nodes fs1)(Path True [''f''] := None)\<rparr>)
      (sample_record (Path True [''f_chunks''])) = (Inr sample_metadata, fs2) \<and>
    fs_nodes fs2 (Path True [''f'']) = Some (FileNode [1, 2, 3])"
proof (rule sample_publication)
  fix fs1
  assume pf: "process_file (sample_merkle [[1, 2, 3]]) sample_world_libs sample_disk
      (\<lambda>_ _. 2) (\<lambda>_. None) ''/f'' True = (Inr sample_metadata, fs1)"
    and part: "fs_nodes fs1 (Path True [''f.part'']) = None"
  have name: "md_original_file_name sample_metadata = ''f''"
    "md_chunks_dir sample_metadata = Path True [''f_chunks'']"
    by (simp_all add: sample_metadata_def)
  have "plain_name ''f.part''" by (simp add: plain_name_def)
  then have "path_join_str (Path True []) ''f.part'' = Path True [''f.part'']"
    by (simp add: path_join_plain)
  with part pf publish_then_restore [OF sample_libs_ok _ pf, of "[1, 2, 3]" "Path True []"
      "sample_record (Path True [''f_chunks''])"]
  show ?thesis
    by (auto simp: name sample_path sample_disk_def node_at_def path_parent_def sample_record_def
        PendingDownloadRecord_new_def)
qed

text \<open>
  Claim C9. What \<open>process_file\<close> announces is what it wrote: one proof per chunk, as many chunks as
  the file has started mebibytes, every chunk file non-empty and at most a mebibyte, and each one
  accepted by \<open>verify_chunk\<close> with its proof against the announced root.
\<close>

theorem published_chunks_verify:
  assumes "process_file M L fs rsize rfault file_path public = (Inr m, fs')"
    and "fs_read fs (path_of_string file_path) = Inr content"
    and "merkle_complete M (leaves_of M content)"
  shows "length (md_merkle_proofs m) = md_total_chunks m \<and>
    md_total_chunks m = (length content + CHUNK_SIZE - 1) div CHUNK_SIZE \<and>
    (\<forall>i < md_total_chunks m. \<exists>c.
       fs_nodes fs' (chunk_path (md_chunks_dir m) i (md_chunk_file_extension m)) = Some (FileNode c) \<and>
       0 < length c \<and> length c \<le> CHUNK_SIZE \<and>
       verify_chunk M c i (md_merkle_proofs m ! i) (md_merkle_root m) (md_total_chunks m) = Some True)"
proof -
  let ?cs = "chunks_of CHUNK_SIZE content"
  from assms(1,2) obtain root dir name where root: "mk_root M (leaves_of M content) = Some root"
    and m: "m = expected_metadata M dir name content public root"
    by (auto elim!: process_file_Inr)
  have "\<exists>c. fs_nodes fs' (chunk_path (md_chunks_dir m) i (md_chunk_file_extension m)) = Some (FileNode c) \<and>
      0 < length c \<and> length c \<le> CHUNK_SIZE \<and>
      verify_chunk M c i (md_merkle_proofs m ! i) (md_merkle_root m) (md_total_chunks m) = Some True"
    if "i < md_total_chunks m" for i
    using process_file_files(2) [OF assms(1,2) that] verify_chunk_complete [OF assms(3) root, of i]
      chunks_of_size [of "?cs ! i" CHUNK_SIZE content] that
    by (auto simp: m)
  then show ?thesis by (simp add: m length_chunks_of)
qed

theorem published_chunks_verify_witness:
  "\<exists>fs1. process_file (sample_merkle [[1, 2, 3]]) sample_world_libs sample_disk
      (\<lambda>_ _. 2) (\<lambda>_. None) ''/f'' True = (Inr sample_metadata, fs1) \<and>
    (\<exists>c. fs_nodes fs1 (chunk_path (Path True [''f_chunks'']) 0 FILE_CHUNK_EXTENSION) = Some (FileNode c) \<and>
      verify_chunk (sample_merkle [[1, 2, 3]]) c 0 [0] (replicate 32 0) 1 = Some True)"
proof (rule sample_publication)
  fix fs1
  assume pf: "process_file (sample_merkle [[1, 2, 3]]) sample_world_libs sample_disk
      (\<lambda>_ _. 2) (\<lambda>_. None) ''/f'' True = (Inr sample_metadata, fs1)"
  have "fs_read sample_disk (path_of_string ''/f'') = Inr [1, 2, 3]"
    by (simp add: fs_read_healthy sample_disk_def sample_path)
  moreover have "merkle_complete (sample_merkle [[1, 2, 3]]) (leaves_of (sample_merkle [[1, 2, 3]]) [1, 2, 3])"
    by (simp add: merkle_complete_def leaves_of_def sample_chunks sample_merkle_def)
  ultimately show ?thesis
    using published_chunks_verify [OF pf] pf
    by (auto simp: sample_metadata_def sample_chunks leaves_of_def sample_merkle_def dest: spec [of _ 0])
qed

text \<open>
  Claim C15. The loops of \<open>split\<close> compute the plain specification: whatever number of bytes each
  \<open>read\<close> returns, the leaves are the hashes of the consecutive pieces of \<open>CHUNK_SIZE\<close> bytes,
  the pieces put together are the file, only the last may be shorter, and each piece is in the
  chunk file of its index, never mixed with bytes left over in the reused buffer.
\<close>

theorem split_spec:
  assumes "split M fs r dir = (Inr leaves, fs')"
  shows "leaves = map (mk_hash M) (chunks_of CHUNK_SIZE (rd_rest r)) \<and>
    concat (chunks_of CHUNK_SIZE (rd_rest r)) = rd_rest r \<and>
    (\<forall>i < length leaves. fs_nodes fs' (chunk_path dir i FILE_CHUNK_EXTENSION) =
        Some (FileNode (chunks_of CHUNK_SIZE (rd_rest r) ! i)) \<and>
        (Suc i < length leaves \<longrightarrow> length (chunks_of CHUNK_SIZE (rd_rest r) ! i) = CHUNK_SIZE))"
  using split_Inr [OF assms] by (simp add: put_chunks_chunk chunks_of_full)

theorem split_spec_witness:
  "\<exists>leaves fs'. split (sample_merkle []) (sample_fs [Path True [''d''] \<mapsto> DirNode])
      \<lparr>rd_rest = [7, 8], rd_size = (\<lambda>_ _. 1), rd_fault = (\<lambda>_. None)\<rparr> (Path True [''d'']) =
      (Inr leaves, fs') \<and> leaves = [[7, 8]]"
proof -
  let ?fs = "sample_fs [Path True [''d''] \<mapsto> DirNode]"
  let ?r = "\<lparr>rd_rest = [7, 8 :: byte], rd_size = (\<lambda>_ _. 1), rd_fault = (\<lambda>_. None)\<rparr>"
  have "chunk_dir_free ?fs (Path True [''d''])"
    by (auto simp: chunk_dir_free_def node_at_def chunk_path_def path_join_plain plain_chunk_file_name)
  from split_loop_total [OF healthy_sample_fs this, of ?r "replicate CHUNK_SIZE 0" CHUNK_SIZE
      "sample_merkle []" "[]"]
  obtain ls fs' where *: "split (sample_merkle []) ?fs ?r (Path True [''d'']) = (Inr ls, fs')"
    by (auto simp: split_def)
  have "chunks_of CHUNK_SIZE [7, 8 :: byte] = [[7, 8]]"
    by (rule chunks_of_short) (simp_all add: CHUNK_SIZE_def)
  with * split_spec [OF *] show ?thesis by (simp add: sample_merkle_def)
qed

text \<open>
  Claim C34. On a healthy system publishing a readable file always returns, and its result is
  decided by the content alone: the announced metadata, or the Merkle error for an empty file,
  which has no chunk and so no root.
\<close>

theorem publish_total:
  assumes "healthy fs" "fs_nodes fs (path_of_string file_path) = Some (FileNode content)"
    and "path_parent (path_of_string file_path) = Some d"
    and "path_file_name (path_of_string file_path) = Some name"
    and "chunk_dir_ready fs (chunks_dir_of d name)" and "rfault = (\<lambda>_. None)"
    and "\<And>ls. mk_root M ls = (if ls = [] then None else Some (root ls))"
    and "\<And>x. \<exists>b. enc_metadata L x = Inr b"
  shows "fst (process_file M L fs rsize rfault file_path public) =
    (if content = [] then Inl (Fpe_MerkleTreeCreation ''cannot get merkle root'')
     else Inr (expected_metadata M (chunks_dir_of d name) name content public
                 (root (leaves_of M content))))"
proof -
  let ?m = "expected_metadata M (chunks_dir_of d name) name content public (root (leaves_of M content))"
  obtain fs2 where 2: "healthy fs2" "chunk_dir_free fs2 (chunks_dir_of d name)"
    "process_file M L fs rsize rfault file_path public =
      (case mk_root M (leaves_of M content) of
         None \<Rightarrow> (Inl (Fpe_MerkleTreeCreation ''cannot get merkle root''), fs2)
       | Some root \<Rightarrow> save_metadata L fs2
           (expected_metadata M (chunks_dir_of d name) name content public root))"
    by (rule process_file_healthy [OF assms(1-6)])
  obtain b where "enc_metadata L ?m = Inr b" using assms(8) by blast
  with save_metadata_free [OF 2(1), of ?m L b] 2(2)
  have "fst (save_metadata L fs2 ?m) = Inr ?m" by auto
  with 2(3) assms(7) [of "leaves_of M content"] show ?thesis
    by (simp add: leaves_of_def)
qed

theorem publish_total_witness:
  "fst (process_file (sample_merkle [[1, 2, 3]])
      (sample_world_libs\<lparr>enc_metadata := (\<lambda>_. Inr [])\<rparr>) sample_disk (\<lambda>_ _. 2) (\<lambda>_. None) ''/f'' True) =
    Inr sample_metadata"
proof -
  let ?M = "sample_merkle [[1, 2, 3]]" and ?L = "sample_world_libs\<lparr>enc_metadata := (\<lambda>_. Inr [])\<rparr>"
  have p: "path_parent (path_of_string ''/f'') = Some (Path True [])"
    "path_file_name (path_of_string ''/f'') = Some ''f''"
    by (simp_all add: sample_path path_parent_def path_file_name_def)
  have "fst (process_file ?M ?L sample_disk (\<lambda>_ _. 2) (\<lambda>_. None) ''/f'' True) =
    (if [1, 2, 3 :: byte] = [] then Inl (Fpe_MerkleTreeCreation ''cannot get merkle root'')
     else Inr (expected_metadata ?M (chunks_dir_of (Path True []) ''f'') ''f'' [1, 2, 3] True
                 (replicate 32 0)))"
    by (rule publish_total [OF _ _ p, where root = "\<lambda>_. replicate 32 0"])
       (use sample_ready in \<open>simp_all add: sample_disk_def sample_path sample_chunks_dir sample_merkle_def\<close>)
  then show ?thesis by (simp add: sample_metadata_def sample_chunks_dir)
qed

text \<open>
  Claim C36. Names that differ only in dots and underscores share one chunk directory
  (\<open>"a.b"\<close> and \<open>"a_b"\<close> both give \<open>"a_b_chunks"\<close>). Publishing the second file of such a pair
  overwrites what was published of the first: its metadata file then describes the second file,
  and its chunk 0 holds the second file's bytes.
\<close>

theorem second_publication_overwrites:
  assumes "libs_ok L" "healthy fs"
    and "process_file M L fs rsize rfault path1 public1 = (Inr m1, fs1)"
    and "process_file M L fs1 rsize rfault path2 public2 = (Inr m2, fs2)"
    and "path_parent (path_of_string path1) = path_parent (path_of_string path2)"
    and "get_chunks_dir_name_prefix m1 = get_chunks_dir_name_prefix m2"
    and "fs_read fs1 (path_of_string path2) = Inr content2" "0 < md_total_chunks m2"
  shows "md_chunks_dir m1 = md_chunks_dir m2 \<and>
    (\<exists>b. fs_nodes fs2 (path_join_str (md_chunks_dir m1) METADATA_FILE_NAME) = Some (FileNode b) \<and>
         dec_metadata L b = Inr m2) \<and>
    fs_nodes fs2 (chunk_path (md_chunks_dir m1) 0 (md_chunk_file_extension m1)) =
      Some (FileNode (take CHUNK_SIZE content2))"
proof -
  from assms(3) obtain c1 d1 n1 r1 where
    1: "path_parent (path_of_string path1) = Some d1"
       "m1 = expected_metadata M (chunks_dir_of d1 n1) n1 c1 public1 r1"
    by (auto elim!: process_file_Inr)
  from assms(4,7) obtain d2 n2 r2 fs3 where
    2: "path_parent (path_of_string path2) = Some d2"
       "m2 = expected_metadata M (chunks_dir_of d2 n2) n2 content2 public2 r2" and
    3: "fs_create_dir_all fs1 (md_chunks_dir m2) = (Inr (), fs3)"
       "save_metadata L (fs3\<lparr>fs_nodes := put_chunks (fs_nodes fs3) (md_chunks_dir m2) 0
        (chunks_of CHUNK_SIZE content2)\<rparr>) m2 = (Inr m2, fs2)"
    by (auto elim!: process_file_Inr)
  have dirs: "md_chunks_dir m1 = md_chunks_dir m2"
    using assms(5,6) 1 2 by (simp add: chunks_dir_of_def get_chunks_dir_name_prefix_def)
  have "healthy fs1" using process_file_stays_healthy [OF assms(3,2)] .
  then have "healthy fs3"
    using fs_create_dir_all_frame(1-3) [OF 3(1)] by (simp add: healthy_def)
  with save_metadata_Inr(1) [OF 3(2)] obtain b where "enc_metadata L m2 = Inr b"
    "fs_nodes fs2 (path_join_str (md_chunks_dir m2) METADATA_FILE_NAME) = Some (FileNode b)" by auto
  moreover from this have "dec_metadata L b = Inr m2" using libs_okD(1) [OF assms(1)] by simp
  moreover have "content2 \<noteq> []" using assms(8) 2 by auto
  then have "chunks_of CHUNK_SIZE content2 ! 0 = take CHUNK_SIZE content2"
    by (simp add: chunks_of_step)
  with process_file_files(2) [OF assms(4,7,8)] dirs 1
  have "fs_nodes fs2 (chunk_path (md_chunks_dir m1) 0 (md_chunk_file_extension m1)) =
      Some (FileNode (take CHUNK_SIZE content2))" by simp
  ultimately show ?thesis using dirs by auto
qed

definition dotted_metadata :: FileMetadata where
  "dotted_metadata = expected_metadata (sample_merkle []) (Path True [''a_b_chunks'']) ''a.b'' [1] True
     (replicate 32 0)"

definition underscored_metadata :: FileMetadata where
  "underscored_metadata = expected_metadata (sample_merkle []) (Path True [''a_b_chunks'']) ''a_b'' [2] True
     (replicate 32 0)"

definition two_file_libs :: libs where
  "two_file_libs = sample_world_libs
     \<lparr>enc_metadata := (\<lambda>x. if x = dotted_metadata then Inr [1]
        else if x = underscored_metadata then Inr [9] else Inl ''unsupported''),
      dec_metadata := (\<lambda>b. if b = [1] then Inr dotted_metadata
        else if b = [9] then Inr underscored_metadata else Inl ''malformed'')\<rparr>"

lemma two_file_metadata [simp]:
  "dotted_metadata \<noteq> underscored_metadata" "underscored_metadata \<noteq> dotted_metadata"
  by (simp_all add: dotted_metadata_def underscored_metadata_def expected_metadata_def)

lemma two_file_libs_ok: "libs_ok two_file_libs"
  by (simp add: libs_ok_def two_file_libs_def sample_libs_def)

theorem second_publication_overwrites_witness:
  "\<exists>fs1 fs2. process_file (sample_merkle []) two_file_libs
      (sample_fs [Path True [''a.b''] \<mapsto> FileNode [1], Path True [''a_b''] \<mapsto> FileNode [2]])
      (\<lambda>_ _. 1) (\<lambda>_. None) ''/a.b'' True = (Inr dotted_metadata, fs1) \<and>
    process_file (sample_merkle []) two_file_libs fs1 (\<lambda>_ _. 1) (\<lambda>_. None) ''/a_b'' True =
      (Inr underscored_metadata, fs2) \<and>
    fs_nodes fs2 (chunk_path (md_chunks_dir dotted_metadata) 0 (md_chunk_file_extension dotted_metadata)) =
      Some (FileNode [2])"
proof -
  let ?M = "sample_merkle []" and ?dir = "Path True [''a_b_chunks'']"
  let ?fs = "sample_fs [Path True [''a.b''] \<mapsto> FileNode [1], Path True [''a_b''] \<mapsto> FileNode [2]]"
  have paths: "path_of_string ''/a.b'' = Path True [''a.b'']" "path_of_string ''/a_b'' = Path True [''a_b'']"
    by (simp_all add: path_of_string_def Let_def)
  have parts: "path_parent (Path True [x]) = Some (Path True [])" "path_file_name (Path True [x]) = Some x"
    if "plain_name x" for x
    using that by (auto simp: path_parent_def path_file_name_def plain_name_def)
  have plain: "plain_name ''a.b''" "plain_name ''a_b''" "plain_name ''a_b_chunks''"
    by (simp_all add: plain_name_def)
  have dirs: "chunks_dir_of (Path True []) ''a.b'' = ?dir" "chunks_dir_of (Path True []) ''a_b'' = ?dir"
    using plain(3) by (simp_all add: chunks_dir_of_def path_join_plain)
  have one: "chunks_of CHUNK_SIZE [x] = [[x]]" for x :: byte
    by (rule chunks_of_short) (simp_all add: CHUNK_SIZE_def)
  have ready: "chunk_dir_ready ?fs ?dir"
    by (auto simp: chunk_dir_ready_def path_prefixes_def is_file_node_def)
  have root: "mk_root ?M (leaves_of ?M [x]) = Some (replicate 32 0)" for x
    by (simp add: leaves_of_def one sample_merkle_def)
  have enc: "enc_metadata two_file_libs dotted_metadata = Inr [1]"
    "enc_metadata two_file_libs underscored_metadata = Inr [9]"
    by (simp_all add: two_file_libs_def)
  obtain fs1 where fs1: "process_file ?M two_file_libs ?fs (\<lambda>_ _. 1) (\<lambda>_. None) ''/a.b'' True =
      (Inr dotted_metadata, fs1)" "healthy fs1" "chunk_dir_free fs1 ?dir"
    by (rule process_file_succeeds [of ?fs "''/a.b''" "[1]" "Path True []" "''a.b''" "\<lambda>_. None" ?M
        "replicate 32 0" two_file_libs True "[1]" "\<lambda>_ _. 1"])
       (simp_all add: paths parts dirs plain root ready enc flip: dotted_metadata_def)
  have file2: "fs_nodes fs1 (Path True [''a_b'']) = Some (FileNode [2])"
    using process_file_other [OF fs1(1), of "Path True [''a_b'']"]
    by (simp add: dotted_metadata_def path_prefixes_def)
  have ready1: "chunk_dir_ready fs1 ?dir"
    using fs1(3) by (auto simp: chunk_dir_ready_def chunk_dir_free_def node_at_def path_prefixes_def
        is_file_node_def)
  obtain fs2 where fs2: "process_file ?M two_file_libs fs1 (\<lambda>_ _. 1) (\<lambda>_. None) ''/a_b'' True =
      (Inr underscored_metadata, fs2)"
    by (rule process_file_succeeds [of fs1 "''/a_b''" "[2]" "Path True []" "''a_b''" "\<lambda>_. None" ?M
        "replicate 32 0" two_file_libs True "[9]" "\<lambda>_ _. 1"])
       (simp_all add: paths parts dirs plain root ready1 enc fs1(2) file2 flip: underscored_metadata_def)
  have "fs_read fs1 (path_of_string ''/a_b'') = Inr [2]"
    using fs1(2) file2 by (simp add: fs_read_healthy paths)
  with second_publication_overwrites [OF two_file_libs_ok healthy_sample_fs fs1(1) fs2] plain
  show ?thesis
    using fs1 fs2 by (auto simp: paths parts dotted_metadata_def underscored_metadata_def one
        get_chunks_dir_name_prefix_def CHUNK_SIZE_def)
qed

text \<open>
  Claim C35. The name under which a download is restored is taken from the metadata a peer sent
  and is not checked: a name that starts with a slash leaves the directory the user asked for.
  The restored file lands at that absolute path.
\<close>

theorem restored_name_can_escape:
  assumes "healthy fs" "plain_name s"
    and "fs_nodes fs (path_join_str (pend_chunks_dir rec) METADATA_FILE_NAME) = Some (FileNode b)"
    and "dec_metadata L b = Inr m" "path_parent (md_chunks_dir m) = Some d"
    and "md_original_file_name m = CHR ''/'' # s"
    and "CHR ''/'' \<notin> set (md_chunk_file_extension m)" "length (components (md_chunks_dir m)) \<noteq> 0"
    and "fs_nodes fs (Path True [s]) = None" "fs_nodes fs (Path True [s @ ''.part'']) = None"
    and "\<And>i. i < md_total_chunks m \<Longrightarrow>
       fs_nodes fs (chunk_path (md_chunks_dir m) i (md_chunk_file_extension m)) = Some (FileNode (f i))"
  shows "\<exists>fs'. restore_original_file L fs rec = (Inr m, fs') \<and>
    fs_nodes fs' (Path True [s]) = Some (FileNode (concat (map f [0..<md_total_chunks m])))"
proof -
  have root: "path_of_string (CHR ''/'' # t) = Path True [t]" if "plain_name t" for t
    using that by (auto simp: path_of_string_def plain_name_def split_slash_no_slash Let_def)
  have part: "plain_name (s @ ''.part'')"
    using assms(2) by (auto simp: plain_name_def append_eq_Cons_conv)
  have target: "Path True [s] = path_join_str d (md_original_file_name m)"
    and tmp: "Path True [s @ ''.part''] = path_join_str d (md_original_file_name m @ ''.part'')"
    using root [OF assms(2)] root [OF part] by (simp_all add: assms(6) path_join_absolute)
  have apart: "Path True [s @ ''.part''] \<noteq> chunk_path (md_chunks_dir m) i (md_chunk_file_extension m)" for i
    by (rule depth_neq) (use assms(8) in \<open>simp add: components_chunk_path [OF assms(7)]\<close>)
  show ?thesis
    using restore_core [OF assms(1,3,4,5) target _ _ _ tmp, of f] assms(9,10,11) apart
    by (simp add: node_at_def parent_is_dir_def path_parent_def components_chunk_path [OF assms(7)])
qed

definition escaping_metadata :: FileMetadata where
  "escaping_metadata = \<lparr>md_original_file_name = ''/evil'', md_total_chunks = 1,
     md_chunks_dir = Path True [''home'', ''evil_chunks''], md_merkle_root = replicate 32 0,
     md_merkle_proofs = [[]], md_chunk_file_extension = ''chunk'', md_public = True\<rparr>"

theorem restored_name_can_escape_witness:
  "\<exists>fs'. restore_original_file
      (sample_libs escaping_metadata sample_published (sample_record (Path True [])) sample_search)
      (sample_fs [Path True [''home'', ''evil_chunks'', ''.metadata''] \<mapsto> FileNode [1],
                  Path True [''home'', ''evil_chunks'', ''0.chunk''] \<mapsto> FileNode [66]])
      (sample_record (Path True [''home'', ''evil_chunks''])) = (Inr escaping_metadata, fs') \<and>
    fs_nodes fs' (Path True [''evil'']) = Some (FileNode [66])"
proof -
  let ?L = "sample_libs escaping_metadata sample_published (sample_record (Path True [])) sample_search"
  let ?fs = "sample_fs [Path True [''home'', ''evil_chunks'', ''.metadata''] \<mapsto> FileNode [1],
                  Path True [''home'', ''evil_chunks'', ''0.chunk''] \<mapsto> FileNode [66]]"
  have "plain_name ''evil''" by (simp add: plain_name_def)
  moreover have "show_nat 0 = ''0''" by code_simp
  then have "chunk_path (Path True [''home'', ''evil_chunks'']) 0 ''chunk'' =
      Path True [''home'', ''evil_chunks'', ''0.chunk'']"
    using plain_chunk_file_name [of "''chunk''" 0]
    by (simp add: chunk_path_def chunk_file_name_def path_join_plain)
  moreover have "path_join_str (Path True [''home'', ''evil_chunks'']) METADATA_FILE_NAME =
      Path True [''home'', ''evil_chunks'', ''.metadata'']"
    by (simp add: path_join_plain) (simp add: METADATA_FILE_NAME_def)
  ultimately show ?thesis
    using restored_name_can_escape [of ?fs "''evil''" "sample_record (Path True [''home'', ''evil_chunks''])"
        "[1]" ?L escaping_metadata "Path True [''home'']" "\<lambda>_. [66]"]
    by (simp add: escaping_metadata_def sample_record_def PendingDownloadRecord_new_def path_parent_def)
qed

text \<open>
  \<open>save_metadata\<close> can report success and leave a truncated metadata file: the buffered
  writer is dropped without \<open>flush\<close>, so an error of the last write is lost.
\<close>

lemma metadata_write_error_lost:
  assumes "fs_join fs (fs_nodes fs) = None" "enc_metadata L m = Inr b"
    and "p = path_join_str (md_chunks_dir m) METADATA_FILE_NAME"
    and "fs_create fs p = (Inr (), fs1)"
    and "fs_short fs1 p b (fs_nodes fs1) = Some (e, k)" "length b \<le> BUF_WRITER_CAPACITY" "k < length b"
  shows "fst (save_metadata L fs m) = Inr m \<and>
    fs_nodes (snd (save_metadata L fs m)) p = Some (FileNode (take k b)) \<and> take k b \<noteq> b"
proof -
  from assms(4) have fs1: "fs1 = fs\<lparr>fs_nodes := (fs_nodes fs)(p \<mapsto> FileNode [])\<rparr>"
    by (cases rule: fs_create_cases [of fs p]) auto
  have "take k b \<noteq> b" using assms(7) by (metis length_take min.absorb4 nat_less_le)
  with assms fs1 show ?thesis
    by (simp add: save_metadata_def save_blocking_def fs_append_def file_bytes_def Let_def)
qed

definition full_disk :: filesys where
  "full_disk = (sample_fs [Path True [''f_chunks''] \<mapsto> DirNode])
     \<lparr>fs_short := (\<lambda>_ _ _. Some (Os_Error 28 ''No space left on device'', 0))\<rparr>"

lemma metadata_write_error_lost_witness:
  "fst (save_metadata sample_world_libs full_disk sample_metadata) = Inr sample_metadata \<and>
   fs_nodes (snd (save_metadata sample_world_libs full_disk sample_metadata))
     (path_join_str (Path True [''f_chunks'']) METADATA_FILE_NAME) = Some (FileNode [])"
proof -
  let ?p = "path_join_str (Path True [''f_chunks'']) METADATA_FILE_NAME"
  have cr: "fs_create full_disk ?p =
      (Inr (), full_disk\<lparr>fs_nodes := (fs_nodes full_disk)(?p \<mapsto> FileNode [])\<rparr>)"
    by (simp add: fs_create_def full_disk_def sample_fs_def node_at_def parent_is_dir_def path_parent_def
        path_join_plain)
  have "fs_join full_disk (fs_nodes full_disk) = None" by (simp add: full_disk_def sample_fs_def)
  from metadata_write_error_lost [OF this _ _ cr, of sample_world_libs sample_metadata "[1]"]
  show ?thesis by (simp add: sample_metadata_def full_disk_def BUF_WRITER_CAPACITY_def)
qed

end
