(* ===== verification/File_Store.thy ===== *)
theory File_Store
  imports Domain
begin

text \<open>
  \<open>file_store/\<close>: the trait \<open>Store\<close> as the record of its methods, and \<open>RocksDBStore\<close>, which
  implements it over three column families of a RocksDB database.

  The database is a library: its handle \<open>'d\<close> and the functions the code calls on it are the
  record \<open>DB\<close>. Every call may fail. \<open>rt_join\<close> is the failure of \<open>spawn_blocking\<close>, in which
  the task is not run. A stream is the list of the items its task sends; a consumer that drops the
  receiver early sees a prefix of it.
\<close>

section \<open>The trait\<close>

record 's Store =
  put_published_file :: "'s \<Rightarrow> PublishedFileRecord \<Rightarrow> (FileStoreError + unit) \<times> 's"
  get_published_file :: "'s \<Rightarrow> PublishedFileKey \<Rightarrow> FileStoreError + PublishedFileRecord option"
  published_file_exists :: "'s \<Rightarrow> PublishedFileKey \<Rightarrow> FileStoreError + bool"
  stream_published_files :: "'s \<Rightarrow> (FileStoreError + PublishedFileRecord) list"
  put_pending_download :: "'s \<Rightarrow> PendingDownloadRecord \<Rightarrow> (FileStoreError + unit) \<times> 's"
  get_pending_download :: "'s \<Rightarrow> PublishedFileKey \<Rightarrow> FileStoreError + PendingDownloadRecord option"
  pending_download_exists :: "'s \<Rightarrow> PublishedFileKey \<Rightarrow> FileStoreError + bool"
  delete_pending_download :: "'s \<Rightarrow> PublishedFileKey \<Rightarrow> (FileStoreError + unit) \<times> 's"
  stream_pending_downloads :: "'s \<Rightarrow> (FileStoreError + PendingDownloadRecord) list"
  put_file_metadata :: "'s \<Rightarrow> FileMetadata \<Rightarrow> (FileStoreError + unit) \<times> 's"
  delete_file_metadata :: "'s \<Rightarrow> bytes \<Rightarrow> (FileStoreError + unit) \<times> 's"
  get_next_file_metadata :: "(nat \<Rightarrow> 's) \<Rightarrow> (FileStoreError + FileMetadata) option"

text \<open>
  The last method waits: it polls the store once a second. Its argument is the store at each
  poll, and its result is \<open>None\<close> when it waits for ever.
\<close>

section \<open>The database\<close>

record 'd DB =
  db_open_cf_descriptors :: "path \<Rightarrow> string list \<Rightarrow> rocksdb_error + 'd"
  db_cf_handle :: "'d \<Rightarrow> string \<Rightarrow> bool"
  db_put_cf :: "'d \<Rightarrow> string \<Rightarrow> bytes \<Rightarrow> bytes \<Rightarrow> (rocksdb_error + unit) \<times> 'd"
  db_get_cf :: "'d \<Rightarrow> string \<Rightarrow> bytes \<Rightarrow> rocksdb_error + bytes option"
  db_delete_cf :: "'d \<Rightarrow> string \<Rightarrow> bytes \<Rightarrow> (rocksdb_error + unit) \<times> 'd"
  db_key_may_exist_cf :: "'d \<Rightarrow> string \<Rightarrow> bytes \<Rightarrow> bool"
  db_get_pinned_cf_opt :: "'d \<Rightarrow> string \<Rightarrow> bytes \<Rightarrow> rocksdb_error + bytes option"
  db_iterator_cf :: "'d \<Rightarrow> string \<Rightarrow> (rocksdb_error + bytes \<times> bytes) list"
  rt_join :: "'d \<Rightarrow> join_error option"

definition PUBLISHED_FILES_COLUMN_FAMILY_NAME :: string where
  "PUBLISHED_FILES_COLUMN_FAMILY_NAME = ''published_files''"

definition PENDING_DOWNLOADS_COLUMN_FAMILY_NAME :: string where
  "PENDING_DOWNLOADS_COLUMN_FAMILY_NAME = ''pending_downloads''"

definition FILE_METADATA_COLUMN_FAMILY_NAME :: string where
  "FILE_METADATA_COLUMN_FAMILY_NAME = ''jobs''"

section \<open>RocksDBStore\<close>

text \<open>
  \<open>RocksDBStore::new\<close>; the options ask for missing families to be created, which is what
  \<open>db_open_cf_descriptors\<close> is given to do.
\<close>

definition RocksDBStore_new :: "'d DB \<Rightarrow> join_error option \<Rightarrow> path \<Rightarrow> FileStoreError + 'd" where
  "RocksDBStore_new R join p =
     (case join of
        Some e \<Rightarrow> Inl (Fse_JoinError e)
      | None \<Rightarrow>
          map_err (\<lambda>e. Fse_RocksDb (Rse_RocksDb e))
            (db_open_cf_descriptors R p
              [PUBLISHED_FILES_COLUMN_FAMILY_NAME, FILE_METADATA_COLUMN_FAMILY_NAME,
               PENDING_DOWNLOADS_COLUMN_FAMILY_NAME]))"

definition get_cf :: "'d DB \<Rightarrow> 'd \<Rightarrow> string \<Rightarrow> FileStoreError + unit" where
  "get_cf R db x =
     (if db_cf_handle R db x then Inr () else Inl (Fse_RocksDb (Rse_CfMissing x)))"

text \<open>\<open>put\<close> takes the result of the record's \<open>try_into\<close>, its key and its encoded value.\<close>

definition rocks_put :: "'d DB \<Rightarrow> 'd \<Rightarrow> cbor_error + PublishedFileKey \<times> bytes \<Rightarrow> string
    \<Rightarrow> (FileStoreError + unit) \<times> 'd" where
  "rocks_put R db rec cf =
     (case rt_join R db of
        Some e \<Rightarrow> (Inl (Fse_JoinError e), db)
      | None \<Rightarrow>
     (case rec of
        Inl e \<Rightarrow> (Inl (Fse_RocksDb (Rse_CBor e)), db)
      | Inr (key, value) \<Rightarrow>
     (case get_cf R db cf of
        Inl e \<Rightarrow> (Inl e, db)
      | Inr _ \<Rightarrow>
     (case db_put_cf R db cf (key_bytes key) value of
        (Inl e, db') \<Rightarrow> (Inl (Fse_RocksDb (Rse_RocksDb e)), db')
      | (Inr _, db') \<Rightarrow> (Inr (), db')))))"

definition rocks_get :: "'d DB \<Rightarrow> (bytes \<Rightarrow> cbor_error + 'r) \<Rightarrow> 'd \<Rightarrow> PublishedFileKey \<Rightarrow> string
    \<Rightarrow> FileStoreError + 'r option" where
  "rocks_get R decode db key cf =
     (case rt_join R db of
        Some e \<Rightarrow> Inl (Fse_JoinError e)
      | None \<Rightarrow>
     (case get_cf R db cf of
        Inl e \<Rightarrow> Inl e
      | Inr _ \<Rightarrow>
     (case db_get_cf R db cf (key_bytes key) of
        Inl e \<Rightarrow> Inl (Fse_RocksDb (Rse_RocksDb e))
      | Inr None \<Rightarrow> Inr None
      | Inr (Some value) \<Rightarrow>
          (case decode value of
             Inl e \<Rightarrow> Inl (Fse_RocksDb (Rse_CBor e))
           | Inr r \<Rightarrow> Inr (Some r)))))"

definition rocks_delete :: "'d DB \<Rightarrow> 'd \<Rightarrow> bytes \<Rightarrow> string \<Rightarrow> (FileStoreError + unit) \<times> 'd" where
  "rocks_delete R db key cf =
     (case rt_join R db of
        Some e \<Rightarrow> (Inl (Fse_JoinError e), db)
      | None \<Rightarrow>
     (case get_cf R db cf of
        Inl e \<Rightarrow> (Inl e, db)
      | Inr _ \<Rightarrow>
     (case db_delete_cf R db cf key of
        (Inl e, db') \<Rightarrow> (Inl (Fse_RocksDb (Rse_RocksDb e)), db')
      | (Inr _, db') \<Rightarrow> (Inr (), db'))))"

definition rocks_exists :: "'d DB \<Rightarrow> 'd \<Rightarrow> PublishedFileKey \<Rightarrow> string \<Rightarrow> FileStoreError + bool" where
  "rocks_exists R db key cf =
     (case rt_join R db of
        Some e \<Rightarrow> Inl (Fse_JoinError e)
      | None \<Rightarrow>
     (case get_cf R db cf of
        Inl e \<Rightarrow> Inl e
      | Inr _ \<Rightarrow>
          if \<not> db_key_may_exist_cf R db cf (key_bytes key) then Inr False
          else
     (case db_get_pinned_cf_opt R db cf (key_bytes key) of
        Inl e \<Rightarrow> Inl (Fse_RocksDb (Rse_RocksDb e))
      | Inr value \<Rightarrow> Inr (value \<noteq> None))))"

definition stream_item :: "(bytes \<Rightarrow> cbor_error + 'r) \<Rightarrow> rocksdb_error + bytes \<times> bytes
    \<Rightarrow> FileStoreError + 'r" where
  "stream_item decode item =
     (case item of
        Inr (_, value) \<Rightarrow> map_err (\<lambda>e. Fse_RocksDb (Rse_CBor e)) (decode value)
      | Inl e \<Rightarrow> Inl (Fse_RocksDb (Rse_RocksDb e)))"

definition rocks_stream_all :: "'d DB \<Rightarrow> (bytes \<Rightarrow> cbor_error + 'r) \<Rightarrow> 'd \<Rightarrow> string
    \<Rightarrow> (FileStoreError + 'r) list" where
  "rocks_stream_all R decode db cf =
     (case rt_join R db of
        Some e \<Rightarrow> []
      | None \<Rightarrow>
     (case get_cf R db cf of
        Inl e \<Rightarrow> [Inl e]
      | Inr _ \<Rightarrow> map (stream_item decode) (db_iterator_cf R db cf)))"

text \<open>One round of \<open>get_next_file_metadata\<close>: the first entry of the job queue, if there is one.\<close>

definition poll_file_metadata :: "'d DB \<Rightarrow> libs \<Rightarrow> 'd \<Rightarrow> FileStoreError + FileMetadata option" where
  "poll_file_metadata R L db =
     (case rt_join R db of
        Some e \<Rightarrow> Inl (Fse_JoinError e)
      | None \<Rightarrow>
     (case get_cf R db FILE_METADATA_COLUMN_FAMILY_NAME of
        Inl e \<Rightarrow> Inl e
      | Inr _ \<Rightarrow>
     (case db_iterator_cf R db FILE_METADATA_COLUMN_FAMILY_NAME of
        [] \<Rightarrow> Inr None
      | Inr (_, value) # _ \<Rightarrow>
          (case dec_metadata L value of
             Inl e \<Rightarrow> Inl (Fse_RocksDb (Rse_CBor e))
           | Inr m \<Rightarrow> Inr (Some m))
      | Inl e # _ \<Rightarrow> Inl (Fse_RocksDb (Rse_RocksDb e)))))"

partial_function (option) next_file_metadata :: "'d DB \<Rightarrow> libs \<Rightarrow> (nat \<Rightarrow> 'd) \<Rightarrow> nat
    \<Rightarrow> (FileStoreError + FileMetadata) option" where
  "next_file_metadata R L dbs i =
     (case poll_file_metadata R L (dbs i) of
        Inr None \<Rightarrow> next_file_metadata R L dbs (Suc i)
      | Inr (Some m) \<Rightarrow> Some (Inr m)
      | Inl e \<Rightarrow> Some (Inl e))"

text \<open>\<open>impl Store for RocksDBStore\<close>.\<close>

definition rocks_store :: "libs \<Rightarrow> 'd DB \<Rightarrow> 'd Store" where
  "rocks_store L R =
     \<lparr>put_published_file = (\<lambda>db r. rocks_put R db (published_entry L r) PUBLISHED_FILES_COLUMN_FAMILY_NAME),
      get_published_file = (\<lambda>db k. rocks_get R (dec_published L) db k PUBLISHED_FILES_COLUMN_FAMILY_NAME),
      published_file_exists = (\<lambda>db k. rocks_exists R db k PUBLISHED_FILES_COLUMN_FAMILY_NAME),
      stream_published_files =
        (\<lambda>db. rocks_stream_all R (dec_published L) db PUBLISHED_FILES_COLUMN_FAMILY_NAME),
      put_pending_download = (\<lambda>db r. rocks_put R db (pending_entry L r) PENDING_DOWNLOADS_COLUMN_FAMILY_NAME),
      get_pending_download = (\<lambda>db k. rocks_get R (dec_pending L) db k PENDING_DOWNLOADS_COLUMN_FAMILY_NAME),
      pending_download_exists = (\<lambda>db k. rocks_exists R db k PENDING_DOWNLOADS_COLUMN_FAMILY_NAME),
      delete_pending_download =
        (\<lambda>db k. rocks_delete R db (key_bytes k) PENDING_DOWNLOADS_COLUMN_FAMILY_NAME),
      stream_pending_downloads =
        (\<lambda>db. rocks_stream_all R (dec_pending L) db PENDING_DOWNLOADS_COLUMN_FAMILY_NAME),
      put_file_metadata = (\<lambda>db m. rocks_put R db (metadata_entry L m) FILE_METADATA_COLUMN_FAMILY_NAME),
      delete_file_metadata = (\<lambda>db k. rocks_delete R db k FILE_METADATA_COLUMN_FAMILY_NAME),
      get_next_file_metadata = (\<lambda>dbs. next_file_metadata R L dbs 0)\<rparr>"

end
