(* ===== verification/File_Store_Correct.thy ===== *)
theory File_Store_Correct
  imports File_Store "HOL-Library.List_Lexorder"
begin

text \<open>
  What the rest of the program may rely on when it uses a \<open>Store\<close>: the locales \<open>column\<close>,
  \<open>deletable\<close> and \<open>store_contract\<close>. Their interpretation shows that \<open>RocksDBStore\<close> keeps the
  contract, provided that the database behaves as documented (\<open>db_ok\<close>).
\<close>

section \<open>The interfaces\<close>

text \<open>
  One column of a store, holding records of type \<open>'r\<close>. \<open>lookup\<close> is its contents, \<open>inv\<close> what
  every operation keeps, and \<open>ready\<close> holds when the blocking tasks of the store are run. Every
  operation may fail; a failed write has happened or not.
\<close>

locale column =
  fixes put :: "'s \<Rightarrow> 'r \<Rightarrow> (FileStoreError + unit) \<times> 's"
    and get :: "'s \<Rightarrow> PublishedFileKey \<Rightarrow> FileStoreError + 'r option"
    and has :: "'s \<Rightarrow> PublishedFileKey \<Rightarrow> FileStoreError + bool"
    and stream :: "'s \<Rightarrow> (FileStoreError + 'r) list"
    and key_of :: "'r \<Rightarrow> PublishedFileKey"
    and inv :: "'s \<Rightarrow> bool"
    and lookup :: "'s \<Rightarrow> PublishedFileKey \<rightharpoonup> 'r"
    and ready :: "'s \<Rightarrow> bool"
  assumes put_inv: "inv s \<Longrightarrow> put s r = (x, s') \<Longrightarrow> inv s'"
    and put_ok: "inv s \<Longrightarrow> put s r = (Inr u, s') \<Longrightarrow> lookup s' = (lookup s)(key_of r \<mapsto> r)"
    and put_err: "inv s \<Longrightarrow> put s r = (Inl e, s') \<Longrightarrow>
      lookup s' = lookup s \<or> lookup s' = (lookup s)(key_of r \<mapsto> r)"
    and get_lookup: "inv s \<Longrightarrow> get s k = Inr v \<Longrightarrow> v = lookup s k"
    and has_lookup: "inv s \<Longrightarrow> has s k = Inr b \<Longrightarrow> b = (lookup s k \<noteq> None)"
    and lookup_key: "inv s \<Longrightarrow> lookup s k = Some r \<Longrightarrow> key_of r = k"
    and stream_sound: "inv s \<Longrightarrow> Inr r \<in> set (stream s) \<Longrightarrow> lookup s (key_of r) = Some r"
    and stream_complete: "inv s \<Longrightarrow> ready s \<Longrightarrow> lookup s k = Some r \<Longrightarrow>
      Inr r \<in> set (stream s) \<or> (\<exists>e. Inl e \<in> set (stream s))"
    and stream_sorted: "inv s \<Longrightarrow> (\<And>e. Inl e \<notin> set (stream s)) \<Longrightarrow>
      sorted_wrt (\<lambda>a b. key_bytes (key_of (projr a)) < key_bytes (key_of (projr b))) (stream s)"
begin

lemma put_get:
  assumes "inv s" "put s r = (Inr u, s')" "get s' k = Inr v"
  shows "v = (if k = key_of r then Some r else lookup s k)"
  using assms put_ok [of s r u s'] get_lookup [of s' k v] put_inv [of s r "Inr u" s'] by auto

lemma put_keeps:
  assumes "inv s" "put s r = (x, s')" "k \<noteq> key_of r"
  shows "lookup s' k = lookup s k"
  using assms put_ok put_err by (cases x) (metis fun_upd_other)+

lemma put_dom: "inv s \<Longrightarrow> put s r = (x, s') \<Longrightarrow> dom (lookup s) \<subseteq> dom (lookup s')"
  using put_ok put_err by (cases x) (fastforce)+

lemma has_iff_get:
  assumes "inv s" "has s k = Inr b" "get s k = Inr v"
  shows "b = (v \<noteq> None)"
  using assms has_lookup [of s k b] get_lookup [of s k v] by simp

lemma put_stream:
  assumes "inv s" "put s r = (Inr u, s')" "ready s'" "\<And>e. Inl e \<notin> set (stream s')"
  shows "Inr r \<in> set (stream s')"
  using assms stream_complete [of s' "key_of r" r] put_inv put_ok by fastforce

lemma stream_range:
  assumes "inv s" "ready s" "\<And>e. Inl e \<notin> set (stream s)"
  shows "set (stream s) = Inr ` ran (lookup s)"
proof
  show "set (stream s) \<subseteq> Inr ` ran (lookup s)"
  proof
    fix a assume a: "a \<in> set (stream s)"
    then obtain r where "a = Inr r" using assms(3) by (metis sum.exhaust)
    then show "a \<in> Inr ` ran (lookup s)"
      using a stream_sound [OF assms(1)] by (auto intro: ranI)
  qed
  show "Inr ` ran (lookup s) \<subseteq> set (stream s)"
    using stream_complete [OF assms(1,2)] assms(3) by (auto simp: ran_def)
qed

end

text \<open>A column whose records can be deleted, by a key of type \<open>'k\<close>.\<close>

locale deletable =
  fixes del :: "'s \<Rightarrow> 'k \<Rightarrow> (FileStoreError + unit) \<times> 's"
    and key_at :: "'k \<Rightarrow> PublishedFileKey"
    and inv :: "'s \<Rightarrow> bool"
    and lookup :: "'s \<Rightarrow> PublishedFileKey \<rightharpoonup> 'r"
  assumes del_inv: "inv s \<Longrightarrow> del s k = (x, s') \<Longrightarrow> inv s'"
    and del_ok: "inv s \<Longrightarrow> del s k = (Inr u, s') \<Longrightarrow> lookup s' = (lookup s)(key_at k := None)"
    and del_err: "inv s \<Longrightarrow> del s k = (Inl e, s') \<Longrightarrow>
      lookup s' = lookup s \<or> lookup s' = (lookup s)(key_at k := None)"
begin

lemma del_keeps:
  assumes "inv s" "del s k = (x, s')" "k' \<noteq> key_at k"
  shows "lookup s' k' = lookup s k'"
  using assms del_ok del_err by (cases x) (metis fun_upd_other)+

end

text \<open>
  The job queue: records go in by \<open>put\<close>, and \<open>poll\<close> shows the one with the smallest key.
\<close>

locale job_queue = deletable del key_at inv lookup
  for del :: "'s \<Rightarrow> 'k \<Rightarrow> (FileStoreError + unit) \<times> 's"
    and key_at :: "'k \<Rightarrow> PublishedFileKey"
    and inv :: "'s \<Rightarrow> bool"
    and lookup :: "'s \<Rightarrow> PublishedFileKey \<rightharpoonup> 'r" +
  fixes put :: "'s \<Rightarrow> 'r \<Rightarrow> (FileStoreError + unit) \<times> 's"
    and "next" :: "(nat \<Rightarrow> 's) \<Rightarrow> (FileStoreError + 'r) option"
    and key_of :: "'r \<Rightarrow> PublishedFileKey"
  assumes put_inv: "inv s \<Longrightarrow> put s r = (x, s') \<Longrightarrow> inv s'"
    and put_ok: "inv s \<Longrightarrow> put s r = (Inr u, s') \<Longrightarrow> lookup s' = (lookup s)(key_of r \<mapsto> r)"
    and put_err: "inv s \<Longrightarrow> put s r = (Inl e, s') \<Longrightarrow>
      lookup s' = lookup s \<or> lookup s' = (lookup s)(key_of r \<mapsto> r)"
    and next_ok: "(\<And>i. inv (ss i)) \<Longrightarrow> next ss = Some (Inr r) \<Longrightarrow>
      \<exists>i. lookup (ss i) (key_of r) = Some r \<and>
        (\<forall>k\<in>dom (lookup (ss i)). key_bytes (key_of r) \<le> key_bytes k) \<and>
        (\<forall>j<i. lookup (ss j) = Map.empty)"
    and next_none: "(\<And>i. inv (ss i)) \<Longrightarrow> next ss = None \<Longrightarrow> lookup (ss i) = Map.empty"
begin

lemma put_keeps:
  assumes "inv s" "put s r = (x, s')" "k \<noteq> key_of r"
  shows "lookup s' k = lookup s k"
  using assms put_ok put_err by (cases x) (metis fun_upd_other)+

end

text \<open>
  The whole contract: three columns, and no operation on one touches another. The queue of jobs
  is deleted from by raw keys.
\<close>

locale store_contract =
  published: column "put_published_file S" "get_published_file S" "published_file_exists S"
    "stream_published_files S" pub_key inv published ready +
  pending: column "put_pending_download S" "get_pending_download S" "pending_download_exists S"
    "stream_pending_downloads S" pend_key inv pending ready +
  pending: deletable "delete_pending_download S" "\<lambda>k. k" inv pending +
  jobs: job_queue "delete_file_metadata S" PublishedFileKey inv jobs "put_file_metadata S"
    "get_next_file_metadata S" "\<lambda>m. PublishedFileKey (metadata_key L m)"
  for S :: "'s Store" and L :: libs and inv :: "'s \<Rightarrow> bool"
    and published :: "'s \<Rightarrow> PublishedFileKey \<rightharpoonup> PublishedFileRecord"
    and pending :: "'s \<Rightarrow> PublishedFileKey \<rightharpoonup> PendingDownloadRecord"
    and jobs :: "'s \<Rightarrow> PublishedFileKey \<rightharpoonup> FileMetadata"
    and ready :: "'s \<Rightarrow> bool" +
  assumes published_frame:
      "inv s \<Longrightarrow> put_published_file S s r = (x, s') \<Longrightarrow> pending s' = pending s \<and> jobs s' = jobs s"
    and pending_put_frame:
      "inv s \<Longrightarrow> put_pending_download S s p = (x, s') \<Longrightarrow> published s' = published s \<and> jobs s' = jobs s"
    and pending_del_frame:
      "inv s \<Longrightarrow> delete_pending_download S s k = (x, s') \<Longrightarrow> published s' = published s \<and> jobs s' = jobs s"
    and jobs_put_frame:
      "inv s \<Longrightarrow> put_file_metadata S s m = (x, s') \<Longrightarrow> published s' = published s \<and> pending s' = pending s"
    and jobs_del_frame:
      "inv s \<Longrightarrow> delete_file_metadata S s b = (x, s') \<Longrightarrow> published s' = published s \<and> pending s' = pending s"
begin

text \<open>Moving a job to the published files: at no point is it in neither column.\<close>

lemma move_job:
  assumes "inv s" "put_published_file S s (published_of_metadata L m) = (Inr u, s1)"
    "delete_file_metadata S s1 (metadata_key L m) = (x, s2)"
  shows "inv s2"
    and "published s2 = (published s)(PublishedFileKey (metadata_key L m) \<mapsto> published_of_metadata L m)"
    and "k \<noteq> PublishedFileKey (metadata_key L m) \<Longrightarrow> jobs s2 k = jobs s k"
    and "pending s2 = pending s"
proof -
  note i1 = published.put_inv [OF assms(1,2)]
  show "inv s2" by (rule jobs.del_inv [OF i1 assms(3)])
  show "published s2 = (published s)(PublishedFileKey (metadata_key L m) \<mapsto> published_of_metadata L m)"
    using published.put_ok [OF assms(1,2)] jobs_del_frame [OF i1 assms(3)] by simp
  show "k \<noteq> PublishedFileKey (metadata_key L m) \<Longrightarrow> jobs s2 k = jobs s k"
    using jobs.del_keeps [OF i1 assms(3)] published_frame [OF assms(1,2)] by simp
  show "pending s2 = pending s"
    using published_frame [OF assms(1,2)] jobs_del_frame [OF i1 assms(3)] by simp
qed

end

section \<open>What a RocksDB database does\<close>

text \<open>
  An iterator yields the entries in the order of their keys. When it fails, it reports the error
  and ends; what it has yielded before is an initial part of the entries.
\<close>

definition iter_ok :: "(bytes \<rightharpoonup> bytes) \<Rightarrow> (rocksdb_error + bytes \<times> bytes) list \<Rightarrow> bool" where
  "iter_ok c items \<longleftrightarrow>
     (\<exists>es t. items = map Inr es @ t \<and> (t = [] \<or> (\<exists>e. t = [Inl e])) \<and>
        sorted_wrt (<) (map fst es) \<and> (\<forall>(k, v)\<in>set es. c k = Some v) \<and>
        (\<forall>k v. c k = Some v \<longrightarrow> (k, v) \<in> set es \<or> (t \<noteq> [] \<and> (\<forall>x\<in>set es. fst x < k))))"

text \<open>
  \<open>c db cf\<close> is the contents of a column family. A failed write has happened or not; a bloom
  filter (\<open>key_may_exist\<close>) is never wrong when it says no.
\<close>

definition wrote :: "'a + 'b \<Rightarrow> ('d \<Rightarrow> string \<Rightarrow> bytes \<rightharpoonup> bytes) \<Rightarrow> 'd \<Rightarrow> 'd \<Rightarrow> string
    \<Rightarrow> bytes \<Rightarrow> bytes option \<Rightarrow> bool" where
  "wrote x c db db' cf k v \<longleftrightarrow>
     c db' = (c db)(cf := (c db cf)(k := v)) \<or> ((\<exists>e. x = Inl e) \<and> c db' = c db)"

definition db_ok :: "'d DB \<Rightarrow> ('d \<Rightarrow> string \<Rightarrow> bytes \<rightharpoonup> bytes) \<Rightarrow> bool" where
  "db_ok R c \<longleftrightarrow>
     (\<forall>db cf k v. db_get_cf R db cf k = Inr v \<longrightarrow> v = c db cf k) \<and>
     (\<forall>db cf k v. db_get_pinned_cf_opt R db cf k = Inr v \<longrightarrow> v = c db cf k) \<and>
     (\<forall>db cf k. \<not> db_key_may_exist_cf R db cf k \<longrightarrow> c db cf k = None) \<and>
     (\<forall>db cf k v x db'. db_put_cf R db cf k v = (x, db') \<longrightarrow>
        wrote x c db db' cf k (Some v) \<and> db_cf_handle R db' = db_cf_handle R db) \<and>
     (\<forall>db cf k x db'. db_delete_cf R db cf k = (x, db') \<longrightarrow>
        wrote x c db db' cf k None \<and> db_cf_handle R db' = db_cf_handle R db) \<and>
     (\<forall>db cf. iter_ok (c db cf) (db_iterator_cf R db cf))"

lemma db_okD:
  assumes "db_ok R c"
  shows "db_get_cf R db cf k = Inr v \<Longrightarrow> v = c db cf k"
    and "db_get_pinned_cf_opt R db cf k = Inr v \<Longrightarrow> v = c db cf k"
    and "\<not> db_key_may_exist_cf R db cf k \<Longrightarrow> c db cf k = None"
    and "db_put_cf R db cf k b = (x, db') \<Longrightarrow>
        wrote x c db db' cf k (Some b) \<and> db_cf_handle R db' = db_cf_handle R db"
    and "db_delete_cf R db cf k = (x, db') \<Longrightarrow>
        wrote x c db db' cf k None \<and> db_cf_handle R db' = db_cf_handle R db"
    and "iter_ok (c db cf) (db_iterator_cf R db cf)"
  using assms by (simp_all add: db_ok_def)

lemma iter_ok_sound: "iter_ok c items \<Longrightarrow> Inr (k, v) \<in> set items \<Longrightarrow> c k = Some v"
  unfolding iter_ok_def by auto

lemma iter_ok_complete:
  "iter_ok c items \<Longrightarrow> c k = Some v \<Longrightarrow> Inr (k, v) \<in> set items \<or> (\<exists>e. Inl e \<in> set items)"
  unfolding iter_ok_def by fastforce

lemma iter_ok_sorted:
  assumes "iter_ok c items" "\<And>e. Inl e \<notin> set items"
  shows "sorted_wrt (\<lambda>a b. fst (projr a) < fst (projr b)) items"
proof -
  from assms(1) obtain es t where *: "items = map Inr es @ t" "t = [] \<or> (\<exists>e. t = [Inl e])"
    "sorted_wrt (<) (map fst es)"
    unfolding iter_ok_def by blast
  with assms(2) have "t = []" by (metis UnCI list.set_intros(1) set_append)
  with * show ?thesis by (simp add: sorted_wrt_map)
qed

lemma iter_ok_Nil: "iter_ok c [] \<Longrightarrow> c = Map.empty"
  by (rule ext) (metis empty_iff iter_ok_complete list.set(1) not_None_eq)

lemma iter_ok_head:
  assumes "iter_ok c (Inr (k, v) # items)"
  shows "c k = Some v" and "k' \<in> dom c \<Longrightarrow> k \<le> k'"
proof -
  from assms obtain es t where *: "Inr (k, v) # items = map Inr es @ t"
    "t = [] \<or> (\<exists>e. t = [Inl e])" "sorted_wrt (<) (map fst es)"
    "\<And>k v. c k = Some v \<Longrightarrow> (k, v) \<in> set es \<or> (t \<noteq> [] \<and> (\<forall>x\<in>set es. fst x < k))"
    unfolding iter_ok_def by blast
  then obtain es' where es: "es = (k, v) # es'" by (cases es) auto
  show "c k = Some v" using assms by (rule iter_ok_sound) simp
  show "k' \<in> dom c \<Longrightarrow> k \<le> k'"
    using * (3,4) unfolding es by (force intro: less_imp_le)
qed

section \<open>RocksDBStore keeps the contract\<close>

definition codec_ok :: "(bytes \<Rightarrow> cbor_error + 'r) \<Rightarrow> ('r \<Rightarrow> cbor_error + PublishedFileKey \<times> bytes)
    \<Rightarrow> ('r \<Rightarrow> PublishedFileKey) \<Rightarrow> bool" where
  "codec_ok dec entry key_of \<longleftrightarrow>
     (\<forall>r k b. entry r = Inr (k, b) \<longrightarrow> k = key_of r \<and> dec b = Inr r)"

text \<open>Every stored value is the encoding of a record with the key it is stored under.\<close>

definition decodes :: "(bytes \<Rightarrow> cbor_error + 'r) \<Rightarrow> ('r \<Rightarrow> PublishedFileKey) \<Rightarrow> (bytes \<rightharpoonup> bytes) \<Rightarrow> bool" where
  "decodes dec key_of m \<longleftrightarrow>
     (\<forall>k v. m k = Some v \<longrightarrow> (\<exists>r. dec v = Inr r \<and> key_of r = PublishedFileKey k))"

definition column_lookup :: "(bytes \<Rightarrow> cbor_error + 'r) \<Rightarrow> (bytes \<rightharpoonup> bytes) \<Rightarrow> PublishedFileKey \<rightharpoonup> 'r" where
  "column_lookup dec m k =
     (case m (key_bytes k) of
        None \<Rightarrow> None
      | Some v \<Rightarrow> (case dec v of Inl _ \<Rightarrow> None | Inr r \<Rightarrow> Some r))"

lemma column_lookup_Some:
  assumes "decodes dec key_of m"
  shows "column_lookup dec m k = Some r \<longleftrightarrow> (\<exists>v. m (key_bytes k) = Some v \<and> dec v = Inr r)"
  by (auto simp: column_lookup_def split: option.splits sum.splits)

lemma column_lookup_key:
  "decodes dec key_of m \<Longrightarrow> column_lookup dec m k = Some r \<Longrightarrow> key_of r = k"
  by (fastforce simp: column_lookup_Some decodes_def intro: PublishedFileKey.expand)

lemma column_lookup_None:
  "decodes dec key_of m \<Longrightarrow> column_lookup dec m k = None \<longleftrightarrow> m (key_bytes k) = None"
  unfolding column_lookup_def decodes_def by (force split: option.splits sum.splits)

lemma column_lookup_put:
  "dec v = Inr r \<Longrightarrow>
   column_lookup dec (m(key_bytes k \<mapsto> v)) = (column_lookup dec m)(k \<mapsto> r)"
  by (rule ext) (auto simp: column_lookup_def intro: PublishedFileKey.expand)

lemma column_lookup_del:
  "column_lookup dec (m(key_bytes k := None)) = (column_lookup dec m)(k := None)"
  by (rule ext) (auto simp: column_lookup_def intro: PublishedFileKey.expand)

lemma column_lookup_empty [simp]: "column_lookup dec Map.empty = Map.empty"
  by (rule ext) (simp add: column_lookup_def)

lemma decodes_put: "decodes dec key_of m \<Longrightarrow> dec v = Inr r \<Longrightarrow> key_of r = PublishedFileKey k \<Longrightarrow>
    decodes dec key_of (m(k \<mapsto> v))"
  by (simp add: decodes_def)

lemma decodes_del: "decodes dec key_of m \<Longrightarrow> decodes dec key_of (m(k := None))"
  by (simp add: decodes_def)

text \<open>What the private operations do to the contents of the database.\<close>

lemma get_cf_Inr [simp]: "get_cf R db cf = Inr u \<longleftrightarrow> db_cf_handle R db cf"
  by (simp add: get_cf_def)

lemma rocks_put_cases:
  assumes "db_ok R c" "codec_ok dec entry key_of" "rocks_put R db (entry r) cf = (x, db')"
  obtains (unchanged) e where "x = Inl e" "c db' = c db"
  | (written) b where "entry r = Inr (key_of r, b)" "dec b = Inr r"
      "c db' = (c db)(cf := (c db cf)(key_bytes (key_of r) \<mapsto> b))"
proof (cases "rt_join R db")
  case (Some e)
  with assms(3) have "x = Inl (Fse_JoinError e)" "db' = db" by (simp_all add: rocks_put_def)
  then show ?thesis by (intro unchanged) simp_all
next
  case N: None
  show ?thesis
  proof (cases "entry r")
    case (Inl e)
    with N assms(3) have "x = Inl (Fse_RocksDb (Rse_CBor e))" "db' = db"
      by (simp_all add: rocks_put_def)
    then show ?thesis by (intro unchanged) simp_all
  next
    case (Inr kb)
    obtain k b where kb: "kb = (k, b)" by (cases kb)
    have k: "k = key_of r" "dec b = Inr r"
      using assms(2) Inr unfolding codec_ok_def kb by blast+
    show ?thesis
    proof (cases "get_cf R db cf")
      case (Inl e)
      with N Inr assms(3) have "x = Inl e" "db' = db" by (simp_all add: rocks_put_def kb)
      then show ?thesis by (intro unchanged) simp_all
    next
      case cf: (Inr u)
      obtain y d where put: "db_put_cf R db cf (key_bytes k) b = (y, d)"
        by (cases "db_put_cf R db cf (key_bytes k) b")
      with N Inr cf assms(3) have x: "d = db'" "(\<exists>e. x = Inl e) = (\<exists>e. y = Inl e)"
        by (auto simp: rocks_put_def kb get_cf_def split: sum.splits if_splits)
      have "wrote y c db db' cf (key_bytes k) (Some b)"
        using db_okD(4) [OF assms(1) put] by (simp add: x)
      then show ?thesis
        using Inr k x unchanged written unfolding wrote_def kb by blast
    qed
  qed
qed

lemma rocks_put_Inr:
  assumes "db_ok R c" "codec_ok dec entry key_of" "rocks_put R db (entry r) cf = (Inr u, db')"
  obtains b where "entry r = Inr (key_of r, b)" "dec b = Inr r"
      "c db' = (c db)(cf := (c db cf)(key_bytes (key_of r) \<mapsto> b))"
  using rocks_put_cases [OF assms] by blast

lemma rocks_delete_cases:
  assumes "db_ok R c" "rocks_delete R db k cf = (x, db')"
  shows "(\<exists>e. x = Inl e) \<and> c db' = c db \<or> c db' = (c db)(cf := (c db cf)(k := None))"
proof (cases "rt_join R db")
  case (Some e)
  with assms(2) show ?thesis by (auto simp: rocks_delete_def)
next
  case N: None
  show ?thesis
  proof (cases "get_cf R db cf")
    case (Inl e)
    with N assms(2) have "x = Inl e" "db' = db" by (simp_all add: rocks_delete_def)
    then show ?thesis by simp
  next
    case cf: (Inr u)
    obtain y d where del: "db_delete_cf R db cf k = (y, d)" by (cases "db_delete_cf R db cf k")
    with N cf assms(2) have x: "d = db'" "(\<exists>e. x = Inl e) = (\<exists>e. y = Inl e)"
      by (auto simp: rocks_delete_def get_cf_def split: sum.splits if_splits)
    show ?thesis
      using db_okD(5) [OF assms(1) del] x unfolding wrote_def by blast
  qed
qed

lemma rocks_get_Inr:
  assumes "db_ok R c" "rocks_get R dec db k cf = Inr v"
  shows "v = column_lookup dec (c db cf) k"
  using assms(2) db_okD(1) [OF assms(1), of db cf "key_bytes k", symmetric]
  by (auto simp: rocks_get_def column_lookup_def split: option.splits sum.splits)

lemma rocks_exists_Inr:
  assumes "db_ok R c" "rocks_exists R db k cf = Inr b"
  shows "b = (c db cf (key_bytes k) \<noteq> None)"
  using assms(2) db_okD(2,3) [OF assms(1), of db cf "key_bytes k"]
  by (auto simp: rocks_exists_def split: option.splits sum.splits if_splits)

lemma rocks_stream_cases:
  obtains "rt_join R db \<noteq> None" "rocks_stream_all R dec db cf = []"
  | e where "rt_join R db = None" "rocks_stream_all R dec db cf = [Inl e]"
  | "rt_join R db = None"
    "rocks_stream_all R dec db cf = map (stream_item dec) (db_iterator_cf R db cf)"
  unfolding rocks_stream_all_def by (cases "rt_join R db"; cases "get_cf R db cf") auto

lemma stream_item_Inr:
  "stream_item dec i = Inr r \<longleftrightarrow> (\<exists>k v. i = Inr (k, v) \<and> dec v = Inr r)"
  by (auto simp: stream_item_def split: sum.splits)

lemma rocks_stream_sound:
  assumes "db_ok R c" "decodes dec key_of (c db cf)" "Inr r \<in> set (rocks_stream_all R dec db cf)"
  shows "column_lookup dec (c db cf) (key_of r) = Some r"
proof -
  obtain k v where "Inr (k, v) \<in> set (db_iterator_cf R db cf)" "dec v = Inr r"
    using assms(3) by (cases rule: rocks_stream_cases [of R db dec cf])
      (auto simp: image_iff eq_commute [of "Inr r"] stream_item_Inr)
  then have k: "c db cf k = Some v" using iter_ok_sound db_okD(6) [OF assms(1)] by blast
  then have "key_of r = PublishedFileKey k"
    using assms(2) \<open>dec v = Inr r\<close> unfolding decodes_def by fastforce
  with k \<open>dec v = Inr r\<close> show ?thesis by (simp add: column_lookup_def)
qed

lemma rocks_stream_complete:
  assumes "db_ok R c" "rt_join R db = None" "column_lookup dec (c db cf) k = Some r"
  shows "Inr r \<in> set (rocks_stream_all R dec db cf) \<or> (\<exists>e. Inl e \<in> set (rocks_stream_all R dec db cf))"
proof (cases rule: rocks_stream_cases [of R db dec cf])
  case 3
  from assms(3) obtain v where v: "c db cf (key_bytes k) = Some v" "dec v = Inr r"
    by (auto simp: column_lookup_def split: option.splits sum.splits)
  from iter_ok_complete [OF db_okD(6) [OF assms(1)] v(1)] show ?thesis
  proof
    assume "Inr (key_bytes k, v) \<in> set (db_iterator_cf R db cf)"
    then have "stream_item dec (Inr (key_bytes k, v)) \<in> set (rocks_stream_all R dec db cf)"
      by (simp add: 3)
    then show ?thesis using v(2) by (simp add: stream_item_def)
  next
    assume "\<exists>e. Inl e \<in> set (db_iterator_cf R db cf)"
    then obtain e where "Inl e \<in> set (db_iterator_cf R db cf)" by blast
    then have "stream_item dec (Inl e) \<in> set (rocks_stream_all R dec db cf)"
      by (simp add: 3)
    then show ?thesis by (auto simp add: stream_item_def)
  qed
qed (use assms in auto)

lemma rocks_stream_sorted:
  assumes "db_ok R c" "decodes dec key_of (c db cf)" "\<And>e. Inl e \<notin> set (rocks_stream_all R dec db cf)"
  shows "sorted_wrt (\<lambda>a b. key_bytes (key_of (projr a)) < key_bytes (key_of (projr b)))
    (rocks_stream_all R dec db cf)"
proof (cases rule: rocks_stream_cases [of R db dec cf])
  case 3
  let ?it = "db_iterator_cf R db cf"
  note ok = db_okD(6) [OF assms(1), of db cf]
  have no: "Inl e \<notin> set ?it" for e
  proof
    assume "Inl e \<in> set ?it"
    then have "stream_item dec (Inl e) \<in> set (rocks_stream_all R dec db cf)" by (simp add: 3)
    with assms(3) show False by (simp add: stream_item_def)
  qed
  have key: "key_bytes (key_of (projr (stream_item dec i))) = fst (projr i)" if "i \<in> set ?it" for i
  proof -
    from no that obtain k v where i: "i = Inr (k, v)" by (metis sum.exhaust prod.exhaust)
    with that ok have "c db cf k = Some v" using iter_ok_sound by blast
    with assms(2) obtain r where "dec v = Inr r" "key_of r = PublishedFileKey k"
      unfolding decodes_def by blast
    with i show ?thesis by (simp add: stream_item_def)
  qed
  show ?thesis
    unfolding 3 sorted_wrt_map
    by (rule sorted_wrt_mono_rel [OF _ iter_ok_sorted [OF ok no]]) (simp add: key)
qed auto

text \<open>The queue of jobs.\<close>

lemma poll_Inr_None:
  assumes "db_ok R c" "poll_file_metadata R L db = Inr None"
  shows "c db FILE_METADATA_COLUMN_FAMILY_NAME = Map.empty"
proof -
  from assms(2) have "db_iterator_cf R db FILE_METADATA_COLUMN_FAMILY_NAME = []"
    by (auto simp: poll_file_metadata_def split: option.splits sum.splits list.splits)
  with db_okD(6) [OF assms(1), of db FILE_METADATA_COLUMN_FAMILY_NAME] show ?thesis
    by (simp add: iter_ok_Nil)
qed

lemma poll_Inr_Some:
  assumes "db_ok R c" "poll_file_metadata R L db = Inr (Some m)"
  obtains k v where "c db FILE_METADATA_COLUMN_FAMILY_NAME k = Some v" "dec_metadata L v = Inr m"
    "\<And>k'. k' \<in> dom (c db FILE_METADATA_COLUMN_FAMILY_NAME) \<Longrightarrow> k \<le> k'"
proof -
  from assms(2) obtain k v items where
    "db_iterator_cf R db FILE_METADATA_COLUMN_FAMILY_NAME = Inr (k, v) # items"
    "dec_metadata L v = Inr m"
    by (auto simp: poll_file_metadata_def split: option.splits sum.splits list.splits)
  then show ?thesis
    using that iter_ok_head db_okD(6) [OF assms(1), of db FILE_METADATA_COLUMN_FAMILY_NAME]
    by metis
qed

text \<open>The wait ends at the first poll that does not find the queue empty, and only then.\<close>

lemma next_file_metadata_Some:
  assumes "next_file_metadata R L dbs i = Some x"
  shows "\<exists>n\<ge>i. (\<forall>j. i \<le> j \<and> j < n \<longrightarrow> poll_file_metadata R L (dbs j) = Inr None) \<and>
    (case poll_file_metadata R L (dbs n) of
       Inl e \<Rightarrow> x = Inl e | Inr None \<Rightarrow> False | Inr (Some m) \<Rightarrow> x = Inr m)"
  using assms
proof (induction rule: next_file_metadata.raw_induct [rotated, consumes 1, case_names step])
  case (step f R L dbs i x)
  show ?case
  proof (cases "poll_file_metadata R L (dbs i) = Inr None")
    case True
    with step(2) have "f R L dbs (Suc i) = Some x" by simp
    from step(1) [OF this] obtain n where n: "n \<ge> Suc i"
      "\<forall>j. Suc i \<le> j \<and> j < n \<longrightarrow> poll_file_metadata R L (dbs j) = Inr None"
      "case poll_file_metadata R L (dbs n) of
         Inl e \<Rightarrow> x = Inl e | Inr None \<Rightarrow> False | Inr (Some m) \<Rightarrow> x = Inr m"
      by (elim exE conjE)
    have "poll_file_metadata R L (dbs j) = Inr None" if "i \<le> j" "j < n" for j
      using that n(2) True by (cases "j = i") auto
    then show ?thesis using n(1,3) by (intro exI [of _ n]) auto
  next
    case False
    with step(2) show ?thesis
      by (intro exI [of _ i]) (auto split: sum.splits option.splits)
  qed
qed

lemma next_file_metadata_polls:
  assumes "\<And>j. i \<le> j \<Longrightarrow> j < n \<Longrightarrow> poll_file_metadata R L (dbs j) = Inr None" "i \<le> n"
  shows "next_file_metadata R L dbs i = next_file_metadata R L dbs n"
  using assms(2,1)
proof (induction n rule: dec_induct)
  case (step n)
  then have "next_file_metadata R L dbs i = next_file_metadata R L dbs n" by simp
  also have "poll_file_metadata R L (dbs n) = Inr None" using step by simp
  then have "next_file_metadata R L dbs n = next_file_metadata R L dbs (Suc n)"
    by (simp add: next_file_metadata.simps [of R L dbs n])
  finally show ?case .
qed simp

lemma next_file_metadata_None:
  "next_file_metadata R L dbs i = None \<longleftrightarrow> (\<forall>j\<ge>i. poll_file_metadata R L (dbs j) = Inr None)"
proof
  assume none: "next_file_metadata R L dbs i = None"
  show "\<forall>j\<ge>i. poll_file_metadata R L (dbs j) = Inr None"
  proof (rule ccontr)
    assume "\<not> ?thesis"
    then obtain j where "i \<le> j \<and> poll_file_metadata R L (dbs j) \<noteq> Inr None" by blast
    then obtain n where n: "i \<le> n \<and> poll_file_metadata R L (dbs n) \<noteq> Inr None"
      "\<forall>k<n. \<not> (i \<le> k \<and> poll_file_metadata R L (dbs k) \<noteq> Inr None)"
      using exists_least_iff [of "\<lambda>j. i \<le> j \<and> poll_file_metadata R L (dbs j) \<noteq> Inr None"] by blast
    then have "next_file_metadata R L dbs n = None"
      using none next_file_metadata_polls [of i n R L dbs] by auto
    with n(1) show False
      by (subst (asm) next_file_metadata.simps) (auto split: sum.splits option.splits)
  qed
next
  assume all: "\<forall>j\<ge>i. poll_file_metadata R L (dbs j) = Inr None"
  show "next_file_metadata R L dbs i = None"
  proof (rule ccontr)
    assume "\<not> ?thesis"
    then obtain x where "next_file_metadata R L dbs i = Some x" by blast
    from next_file_metadata_Some [OF this] all show False by force
  qed
qed

text \<open>The invariant and the three columns of the store.\<close>

definition rocks_inv :: "libs \<Rightarrow> 'd DB \<Rightarrow> ('d \<Rightarrow> string \<Rightarrow> bytes \<rightharpoonup> bytes) \<Rightarrow> 'd \<Rightarrow> bool" where
  "rocks_inv L R c db \<longleftrightarrow>
     libs_ok L \<and> db_ok R c \<and>
     decodes (dec_published L) pub_key (c db PUBLISHED_FILES_COLUMN_FAMILY_NAME) \<and>
     decodes (dec_pending L) pend_key (c db PENDING_DOWNLOADS_COLUMN_FAMILY_NAME) \<and>
     decodes (dec_metadata L) (\<lambda>m. PublishedFileKey (metadata_key L m))
       (c db FILE_METADATA_COLUMN_FAMILY_NAME)"

definition rocks_published :: "libs \<Rightarrow> ('d \<Rightarrow> string \<Rightarrow> bytes \<rightharpoonup> bytes) \<Rightarrow> 'd
    \<Rightarrow> PublishedFileKey \<rightharpoonup> PublishedFileRecord" where
  "rocks_published L c db =
     column_lookup (dec_published L) (c db PUBLISHED_FILES_COLUMN_FAMILY_NAME)"

definition rocks_pending :: "libs \<Rightarrow> ('d \<Rightarrow> string \<Rightarrow> bytes \<rightharpoonup> bytes) \<Rightarrow> 'd
    \<Rightarrow> PublishedFileKey \<rightharpoonup> PendingDownloadRecord" where
  "rocks_pending L c db =
     column_lookup (dec_pending L) (c db PENDING_DOWNLOADS_COLUMN_FAMILY_NAME)"

definition rocks_jobs :: "libs \<Rightarrow> ('d \<Rightarrow> string \<Rightarrow> bytes \<rightharpoonup> bytes) \<Rightarrow> 'd
    \<Rightarrow> PublishedFileKey \<rightharpoonup> FileMetadata" where
  "rocks_jobs L c db =
     column_lookup (dec_metadata L) (c db FILE_METADATA_COLUMN_FAMILY_NAME)"

definition rocks_ready :: "'d DB \<Rightarrow> 'd \<Rightarrow> bool" where
  "rocks_ready R db \<longleftrightarrow> rt_join R db = None"

lemma family_names_distinct [simp]:
  "PUBLISHED_FILES_COLUMN_FAMILY_NAME \<noteq> PENDING_DOWNLOADS_COLUMN_FAMILY_NAME"
  "PUBLISHED_FILES_COLUMN_FAMILY_NAME \<noteq> FILE_METADATA_COLUMN_FAMILY_NAME"
  "PENDING_DOWNLOADS_COLUMN_FAMILY_NAME \<noteq> FILE_METADATA_COLUMN_FAMILY_NAME"
  "PENDING_DOWNLOADS_COLUMN_FAMILY_NAME \<noteq> PUBLISHED_FILES_COLUMN_FAMILY_NAME"
  "FILE_METADATA_COLUMN_FAMILY_NAME \<noteq> PUBLISHED_FILES_COLUMN_FAMILY_NAME"
  "FILE_METADATA_COLUMN_FAMILY_NAME \<noteq> PENDING_DOWNLOADS_COLUMN_FAMILY_NAME"
  by (simp_all add: PUBLISHED_FILES_COLUMN_FAMILY_NAME_def PENDING_DOWNLOADS_COLUMN_FAMILY_NAME_def
      FILE_METADATA_COLUMN_FAMILY_NAME_def)

lemma codecs_ok:
  assumes "libs_ok L"
  shows "codec_ok (dec_published L) (published_entry L) pub_key"
    and "codec_ok (dec_pending L) (pending_entry L) pend_key"
    and "codec_ok (dec_metadata L) (metadata_entry L) (\<lambda>m. PublishedFileKey (metadata_key L m))"
  using libs_okD [OF assms]
  by (auto simp: codec_ok_def published_entry_def pending_entry_def metadata_entry_def
      split: sum.splits)

lemmas rocks_views = rocks_published_def rocks_pending_def rocks_jobs_def

lemma rocks_invD:
  assumes "rocks_inv L R c db"
  shows "libs_ok L" "db_ok R c"
    and "decodes (dec_published L) pub_key (c db PUBLISHED_FILES_COLUMN_FAMILY_NAME)"
    and "decodes (dec_pending L) pend_key (c db PENDING_DOWNLOADS_COLUMN_FAMILY_NAME)"
    and "decodes (dec_metadata L) (\<lambda>m. PublishedFileKey (metadata_key L m))
       (c db FILE_METADATA_COLUMN_FAMILY_NAME)"
  using assms unfolding rocks_inv_def by blast+

lemma rocks_inv_same: "c db' = c db \<Longrightarrow> rocks_inv L R c db \<Longrightarrow> rocks_inv L R c db'"
  by (simp add: rocks_inv_def)

text \<open>A call of \<open>put\<close> on each column.\<close>

lemma rocks_put_published:
  assumes "rocks_inv L R c db"
    "rocks_put R db (published_entry L r) PUBLISHED_FILES_COLUMN_FAMILY_NAME = (x, db')"
  shows "rocks_inv L R c db'"
    and "rocks_published L c db' = (rocks_published L c db)(pub_key r \<mapsto> r) \<or>
      (\<exists>e. x = Inl e) \<and> rocks_published L c db' = rocks_published L c db"
    and "rocks_pending L c db' = rocks_pending L c db" "rocks_jobs L c db' = rocks_jobs L c db"
proof -
  note inv = rocks_invD [OF assms(1)]
  show "rocks_inv L R c db'" "rocks_published L c db' = (rocks_published L c db)(pub_key r \<mapsto> r) \<or>
      (\<exists>e. x = Inl e) \<and> rocks_published L c db' = rocks_published L c db"
    "rocks_pending L c db' = rocks_pending L c db" "rocks_jobs L c db' = rocks_jobs L c db"
    by (cases rule: rocks_put_cases [OF inv(2) codecs_ok(1) [OF inv(1)] assms(2)];
        use assms(1) in \<open>simp add: rocks_inv_def rocks_views column_lookup_put decodes_put\<close>)+
qed

lemma rocks_put_pending:
  assumes "rocks_inv L R c db"
    "rocks_put R db (pending_entry L r) PENDING_DOWNLOADS_COLUMN_FAMILY_NAME = (x, db')"
  shows "rocks_inv L R c db'"
    and "rocks_pending L c db' = (rocks_pending L c db)(pend_key r \<mapsto> r) \<or>
      (\<exists>e. x = Inl e) \<and> rocks_pending L c db' = rocks_pending L c db"
    and "rocks_published L c db' = rocks_published L c db" "rocks_jobs L c db' = rocks_jobs L c db"
proof -
  note inv = rocks_invD [OF assms(1)]
  show "rocks_inv L R c db'" "rocks_pending L c db' = (rocks_pending L c db)(pend_key r \<mapsto> r) \<or>
      (\<exists>e. x = Inl e) \<and> rocks_pending L c db' = rocks_pending L c db"
    "rocks_published L c db' = rocks_published L c db" "rocks_jobs L c db' = rocks_jobs L c db"
    by (cases rule: rocks_put_cases [OF inv(2) codecs_ok(2) [OF inv(1)] assms(2)];
        use assms(1) in \<open>simp add: rocks_inv_def rocks_views column_lookup_put decodes_put\<close>)+
qed

lemma rocks_put_job:
  assumes "rocks_inv L R c db"
    "rocks_put R db (metadata_entry L r) FILE_METADATA_COLUMN_FAMILY_NAME = (x, db')"
  shows "rocks_inv L R c db'"
    and "rocks_jobs L c db' = (rocks_jobs L c db)(PublishedFileKey (metadata_key L r) \<mapsto> r) \<or>
      (\<exists>e. x = Inl e) \<and> rocks_jobs L c db' = rocks_jobs L c db"
    and "rocks_published L c db' = rocks_published L c db" "rocks_pending L c db' = rocks_pending L c db"
proof -
  note inv = rocks_invD [OF assms(1)]
  note lookup = column_lookup_put [where k = "PublishedFileKey (metadata_key L r)", simplified]
  show "rocks_inv L R c db'" "rocks_jobs L c db' = (rocks_jobs L c db)(PublishedFileKey (metadata_key L r) \<mapsto> r) \<or>
      (\<exists>e. x = Inl e) \<and> rocks_jobs L c db' = rocks_jobs L c db"
    "rocks_published L c db' = rocks_published L c db" "rocks_pending L c db' = rocks_pending L c db"
    by (cases rule: rocks_put_cases [OF inv(2) codecs_ok(3) [OF inv(1)] assms(2)];
        use assms(1) in \<open>simp add: rocks_inv_def rocks_views lookup decodes_put\<close>)+
qed

text \<open>A call of \<open>delete\<close>.\<close>

lemma rocks_delete_pending:
  assumes "rocks_inv L R c db"
    "rocks_delete R db (key_bytes k) PENDING_DOWNLOADS_COLUMN_FAMILY_NAME = (x, db')"
  shows "rocks_inv L R c db'"
    and "rocks_pending L c db' = (rocks_pending L c db)(k := None) \<or>
      (\<exists>e. x = Inl e) \<and> rocks_pending L c db' = rocks_pending L c db"
    and "rocks_published L c db' = rocks_published L c db" "rocks_jobs L c db' = rocks_jobs L c db"
proof -
  note inv = rocks_invD [OF assms(1)]
  show "rocks_inv L R c db'" "rocks_pending L c db' = (rocks_pending L c db)(k := None) \<or>
      (\<exists>e. x = Inl e) \<and> rocks_pending L c db' = rocks_pending L c db"
    "rocks_published L c db' = rocks_published L c db" "rocks_jobs L c db' = rocks_jobs L c db"
    by (rule disjE [OF rocks_delete_cases [OF inv(2) assms(2)]];
        use assms(1) in \<open>simp add: rocks_inv_def rocks_views column_lookup_del decodes_del\<close>)+
qed

lemma rocks_delete_job:
  assumes "rocks_inv L R c db" "rocks_delete R db k FILE_METADATA_COLUMN_FAMILY_NAME = (x, db')"
  shows "rocks_inv L R c db'"
    and "rocks_jobs L c db' = (rocks_jobs L c db)(PublishedFileKey k := None) \<or>
      (\<exists>e. x = Inl e) \<and> rocks_jobs L c db' = rocks_jobs L c db"
    and "rocks_published L c db' = rocks_published L c db" "rocks_pending L c db' = rocks_pending L c db"
proof -
  note inv = rocks_invD [OF assms(1)]
  note lookup = column_lookup_del [where k = "PublishedFileKey k", simplified]
  show "rocks_inv L R c db'" "rocks_jobs L c db' = (rocks_jobs L c db)(PublishedFileKey k := None) \<or>
      (\<exists>e. x = Inl e) \<and> rocks_jobs L c db' = rocks_jobs L c db"
    "rocks_published L c db' = rocks_published L c db" "rocks_pending L c db' = rocks_pending L c db"
    by (rule disjE [OF rocks_delete_cases [OF inv(2) assms(2)]];
        use assms(1) in \<open>simp add: rocks_inv_def rocks_views lookup decodes_del\<close>)+
qed

text \<open>Polling through the invariant.\<close>

lemma rocks_poll_None:
  assumes "rocks_inv L R c db" "poll_file_metadata R L db = Inr None"
  shows "rocks_jobs L c db = Map.empty"
  using poll_Inr_None [OF rocks_invD(2) [OF assms(1)] assms(2)] by (simp add: rocks_jobs_def)

lemma rocks_poll_Some:
  assumes "rocks_inv L R c db" "poll_file_metadata R L db = Inr (Some m)"
  shows "rocks_jobs L c db (PublishedFileKey (metadata_key L m)) = Some m"
    and "k \<in> dom (rocks_jobs L c db) \<Longrightarrow> metadata_key L m \<le> key_bytes k"
proof -
  note inv = rocks_invD [OF assms(1)]
  obtain k' v where v: "c db FILE_METADATA_COLUMN_FAMILY_NAME k' = Some v" "dec_metadata L v = Inr m"
    and least: "\<And>j. j \<in> dom (c db FILE_METADATA_COLUMN_FAMILY_NAME) \<Longrightarrow> k' \<le> j"
    using poll_Inr_Some [OF inv(2) assms(2)] by blast
  have k': "k' = metadata_key L m"
    using inv(5) v unfolding decodes_def by fastforce
  show "rocks_jobs L c db (PublishedFileKey (metadata_key L m)) = Some m"
    using v k' by (simp add: rocks_jobs_def column_lookup_def)
  show "metadata_key L m \<le> key_bytes k" if "k \<in> dom (rocks_jobs L c db)"
  proof -
    from that have "key_bytes k \<in> dom (c db FILE_METADATA_COLUMN_FAMILY_NAME)"
      by (auto simp: rocks_jobs_def column_lookup_def dom_def split: option.splits)
    then show ?thesis using least k' by blast
  qed
qed

lemma next_job_ok:
  assumes "\<And>i. rocks_inv L R c (dbs i)" "next_file_metadata R L dbs 0 = Some (Inr m)"
  shows "\<exists>i. rocks_jobs L c (dbs i) (PublishedFileKey (metadata_key L m)) = Some m \<and>
    (\<forall>k\<in>dom (rocks_jobs L c (dbs i)). metadata_key L m \<le> key_bytes k) \<and>
    (\<forall>j<i. rocks_jobs L c (dbs j) = Map.empty)"
proof -
  from next_file_metadata_Some [OF assms(2)] obtain n
    where n: "\<And>j. j < n \<Longrightarrow> poll_file_metadata R L (dbs j) = Inr None"
      and c: "case poll_file_metadata R L (dbs n) of
       Inl e \<Rightarrow> Inr m = Inl e | Inr None \<Rightarrow> False | Inr (Some m') \<Rightarrow> Inr m = (Inr m' :: FileStoreError + _)"
    by auto
  from c have m: "poll_file_metadata R L (dbs n) = Inr (Some m)"
    by (auto split: sum.splits option.splits)
  show ?thesis
    using rocks_poll_Some [OF assms(1) m] rocks_poll_None [OF assms(1) n]
    by (intro exI [of _ n]) blast
qed

interpretation rocks: store_contract "rocks_store L R" L "rocks_inv L R c" "rocks_published L c"
  "rocks_pending L c" "rocks_jobs L c" "rocks_ready R" for L R c
proof (unfold_locales, goal_cases)
  case (1 s r x s')
  then show ?case using rocks_put_published(1) by (simp add: rocks_store_def)
next
  case (2 s r u s')
  then show ?case using rocks_put_published(2) by (fastforce simp: rocks_store_def)
next
  case (3 s r e s')
  then show ?case using rocks_put_published(2) by (fastforce simp: rocks_store_def)
next
  case (4 s k v)
  then show ?case
    using rocks_get_Inr [OF rocks_invD(2)] by (simp add: rocks_store_def rocks_published_def)
next
  case (5 s k b)
  then show ?case
    using rocks_exists_Inr [OF rocks_invD(2) [OF 5(1)]]
      column_lookup_None [OF rocks_invD(3) [OF 5(1)], of k]
    by (simp add: rocks_store_def rocks_published_def)
next
  case (6 s k r)
  then show ?case
    using column_lookup_key [OF rocks_invD(3)] by (simp add: rocks_published_def)
next
  case (7 s r)
  then show ?case
    using rocks_stream_sound [OF rocks_invD(2) [OF 7(1)] rocks_invD(3) [OF 7(1)]]
    by (simp add: rocks_store_def rocks_published_def)
next
  case (8 s k r)
  then show ?case
    using rocks_stream_complete [OF rocks_invD(2)]
    by (simp add: rocks_store_def rocks_published_def rocks_ready_def)
next
  case (9 s)
  then show ?case
    using rocks_stream_sorted [OF rocks_invD(2) [OF 9(1)] rocks_invD(3) [OF 9(1)]] by (simp add: rocks_store_def)
next
  case (10 s r x s')
  then show ?case using rocks_put_pending(1) by (simp add: rocks_store_def)
next
  case (11 s r u s')
  then show ?case using rocks_put_pending(2) by (fastforce simp: rocks_store_def)
next
  case (12 s r e s')
  then show ?case using rocks_put_pending(2) by (fastforce simp: rocks_store_def)
next
  case (13 s k v)
  then show ?case
    using rocks_get_Inr [OF rocks_invD(2)] by (simp add: rocks_store_def rocks_pending_def)
next
  case (14 s k b)
  then show ?case
    using rocks_exists_Inr [OF rocks_invD(2) [OF 14(1)]]
      column_lookup_None [OF rocks_invD(4) [OF 14(1)], of k]
    by (simp add: rocks_store_def rocks_pending_def)
next
  case (15 s k r)
  then show ?case
    using column_lookup_key [OF rocks_invD(4)] by (simp add: rocks_pending_def)
next
  case (16 s r)
  then show ?case
    using rocks_stream_sound [OF rocks_invD(2) [OF 16(1)] rocks_invD(4) [OF 16(1)]]
    by (simp add: rocks_store_def rocks_pending_def)
next
  case (17 s k r)
  then show ?case
    using rocks_stream_complete [OF rocks_invD(2)]
    by (simp add: rocks_store_def rocks_pending_def rocks_ready_def)
next
  case (18 s)
  then show ?case
    using rocks_stream_sorted [OF rocks_invD(2) [OF 18(1)] rocks_invD(4) [OF 18(1)]] by (simp add: rocks_store_def)
next
  case (19 s k x s')
  then show ?case using rocks_delete_pending(1) by (simp add: rocks_store_def)
next
  case (20 s k u s')
  then show ?case using rocks_delete_pending(2) by (fastforce simp: rocks_store_def)
next
  case (21 s k e s')
  then show ?case using rocks_delete_pending(2) by (fastforce simp: rocks_store_def)
next
  case (22 s k x s')
  then show ?case using rocks_delete_job(1) by (simp add: rocks_store_def)
next
  case (23 s k u s')
  then show ?case using rocks_delete_job(2) by (fastforce simp: rocks_store_def)
next
  case (24 s k e s')
  then show ?case using rocks_delete_job(2) by (fastforce simp: rocks_store_def)
next
  case (25 s r x s')
  then show ?case using rocks_put_job(1) by (simp add: rocks_store_def)
next
  case (26 s r u s')
  then show ?case using rocks_put_job(2) by (fastforce simp: rocks_store_def)
next
  case (27 s r e s')
  then show ?case using rocks_put_job(2) by (fastforce simp: rocks_store_def)
next
  case (28 ss r)
  then have "next_file_metadata R L ss 0 = Some (Inr r)" by (simp add: rocks_store_def)
  from next_job_ok [OF 28(1) this] show ?case by simp
next
  case (29 ss i)
  then have "poll_file_metadata R L (ss i) = Inr None"
    using next_file_metadata_None [of R L ss 0] by (simp add: rocks_store_def)
  then show ?case by (rule rocks_poll_None [OF 29(1)])
next
  case (30 s r x s')
  then show ?case by (simp add: rocks_store_def rocks_put_published(3,4) [of L R c s r x s'])
next
  case (31 s p x s')
  then show ?case by (simp add: rocks_store_def rocks_put_pending(3,4) [of L R c s p x s'])
next
  case (32 s k x s')
  then show ?case by (simp add: rocks_store_def rocks_delete_pending(3,4) [of L R c s k x s'])
next
  case (33 s m x s')
  then show ?case by (simp add: rocks_store_def rocks_put_job(3,4) [of L R c s m x s'])
next
  case (34 s b x s')
  then show ?case by (simp add: rocks_store_def rocks_delete_job(3,4) [of L R c s b x s'])
qed

end
