(* ===== verification/Sample_Store.thy ===== *)
theory Sample_Store
  imports File_Store_Correct Sample_World "HOL-Library.RBT"
begin

text \<open>
  A concrete database, used only to evaluate the theorems at an input: one red-black tree for each
  column family, ordered by the bytes of the keys, in which no call fails.
\<close>

type_synonym trees = "string \<Rightarrow> (bytes, bytes) RBT.rbt"

definition sample_db :: "trees DB" where
  "sample_db =
     \<lparr>db_open_cf_descriptors = (\<lambda>p fs. Inr (\<lambda>_. RBT.empty)),
      db_cf_handle = (\<lambda>d cf. True),
      db_put_cf = (\<lambda>d cf k v. (Inr (), d(cf := RBT.insert k v (d cf)))),
      db_get_cf = (\<lambda>d cf k. Inr (RBT.lookup (d cf) k)),
      db_delete_cf = (\<lambda>d cf k. (Inr (), d(cf := RBT.delete k (d cf)))),
      db_key_may_exist_cf = (\<lambda>d cf k. RBT.lookup (d cf) k \<noteq> None),
      db_get_pinned_cf_opt = (\<lambda>d cf k. Inr (RBT.lookup (d cf) k)),
      db_iterator_cf = (\<lambda>d cf. map Inr (RBT.entries (d cf))),
      rt_join = (\<lambda>d. None)\<rparr>"

definition sample_contents :: "trees \<Rightarrow> string \<Rightarrow> bytes \<rightharpoonup> bytes" where
  "sample_contents d cf = RBT.lookup (d cf)"

lemma sample_contents_upd [simp]:
  "sample_contents (d(cf := t)) = (sample_contents d)(cf := RBT.lookup t)"
  by (rule ext) (simp add: sample_contents_def)

lemma entries_single [simp]: "RBT.entries (RBT.insert k v RBT.empty) = [(k, v)]"
  by (simp add: RBT.entries.rep_eq RBT.insert.rep_eq RBT.empty.rep_eq RBT_Impl.rbt_insert_def
      rbt_insert_with_key_def)

lemma sample_db_ok [simp]: "db_ok sample_db sample_contents"
proof -
  have "iter_ok (RBT.lookup t) (map Inr (RBT.entries t))" for t :: "(bytes, bytes) RBT.rbt"
    unfolding iter_ok_def
    by (rule exI [of _ "RBT.entries t"], rule exI [of _ "[]"])
       (use RBT.sorted_entries [of t] RBT.distinct_entries [of t] in
        \<open>auto simp: lookup_in_tree strict_sorted_iff\<close>)
  then show ?thesis
    by (auto simp: db_ok_def sample_db_def wrote_def) (auto simp: sample_contents_def)
qed

lemma sample_db_simps [simp]:
  "db_cf_handle sample_db d cf" "rt_join sample_db d = None"
  "db_get_cf sample_db d cf k = Inr (RBT.lookup (d cf) k)"
  "db_put_cf sample_db d cf k v = (Inr (), d(cf := RBT.insert k v (d cf)))"
  "db_delete_cf sample_db d cf k = (Inr (), d(cf := RBT.delete k (d cf)))"
  "db_get_pinned_cf_opt sample_db d cf k = Inr (RBT.lookup (d cf) k)"
  "db_key_may_exist_cf sample_db d cf k \<longleftrightarrow> RBT.lookup (d cf) k \<noteq> None"
  "db_iterator_cf sample_db d cf = map Inr (RBT.entries (d cf))"
  by (simp_all add: sample_db_def)

definition sample_trees :: trees where
  "sample_trees = (\<lambda>_. RBT.empty)"

definition stored_metadata :: FileMetadata where
  "stored_metadata =
     \<lparr>md_original_file_name = ''f'', md_total_chunks = 1, md_chunks_dir = Path True [''f_chunks''],
      md_merkle_root = replicate 32 0, md_merkle_proofs = [[0]], md_chunk_file_extension = ''chunk'',
      md_public = True\<rparr>"

definition stored_published :: PublishedFileRecord where
  "stored_published =
     \<lparr>pub_key = PublishedFileKey (to_be_bytes (word_of_nat (length (metadata_hash_input stored_metadata)))),
      pub_original_file_name = ''f'', pub_chunks_dir = Path True [''f_chunks''], pub_public = True\<rparr>"

definition sample_pending :: PendingDownloadRecord where
  "sample_pending = sample_record (Path True [''f_chunks''])"

definition sample_codec :: libs where
  "sample_codec = sample_libs stored_metadata stored_published sample_pending sample_search"

lemma sample_codec_ok [simp]: "libs_ok sample_codec"
  by (simp add: sample_codec_def)

lemma sample_codec_simps [simp]:
  "enc_metadata sample_codec stored_metadata = Inr [1]"
  "enc_published sample_codec stored_published = Inr [2]"
  "enc_pending sample_codec sample_pending = Inr [3]"
  "dec_metadata sample_codec [1] = Inr stored_metadata"
  "dec_published sample_codec [2] = Inr stored_published"
  "dec_pending sample_codec [3] = Inr sample_pending"
  by (simp_all add: sample_codec_def) (simp_all add: sample_libs_def)

lemma published_of_stored [simp]:
  "published_of_metadata sample_codec stored_metadata = stored_published"
  by (simp add: published_of_metadata_def metadata_key_def stored_published_def sample_codec_def
      sample_libs_def stored_metadata_def)

lemma sample_store_inv [simp]: "rocks_inv sample_codec sample_db sample_contents sample_trees"
  by (simp add: rocks_inv_def decodes_def sample_contents_def sample_trees_def)

text \<open>The store after one put on each column.\<close>

lemma sample_put_published:
  "put_published_file (rocks_store sample_codec sample_db) sample_trees stored_published =
     (Inr (), sample_trees(PUBLISHED_FILES_COLUMN_FAMILY_NAME :=
        RBT.insert (key_bytes (pub_key stored_published)) [2] RBT.empty))"
  by (simp add: rocks_store_def rocks_put_def published_entry_def get_cf_def sample_trees_def)

lemma sample_put_pending:
  "put_pending_download (rocks_store sample_codec sample_db) sample_trees sample_pending =
     (Inr (), sample_trees(PENDING_DOWNLOADS_COLUMN_FAMILY_NAME :=
        RBT.insert (key_bytes (pend_key sample_pending)) [3] RBT.empty))"
  by (simp add: rocks_store_def rocks_put_def pending_entry_def get_cf_def sample_trees_def)

lemma sample_put_job:
  "put_file_metadata (rocks_store sample_codec sample_db) sample_trees stored_metadata =
     (Inr (), sample_trees(FILE_METADATA_COLUMN_FAMILY_NAME :=
        RBT.insert (metadata_key sample_codec stored_metadata) [1] RBT.empty))"
  by (simp add: rocks_store_def rocks_put_def metadata_entry_def get_cf_def sample_trees_def)

definition sample_queue :: trees where
  "sample_queue = snd (put_file_metadata (rocks_store sample_codec sample_db) sample_trees stored_metadata)"

end
