(* ===== verification/File_Store_Props.thy ===== *)
theory File_Store_Props
  imports Sample_Store
begin

text \<open>The properties of the file store.\<close>

text \<open>
  Claim C17. A record that \<open>put_published_file\<close> has stored is what every reader sees: lookups and
  existence checks of any key, and the stream of all records, agree on one and the same map from
  keys to records, in which exactly the key of the new record has changed; the pending downloads
  and the jobs are untouched.
\<close>

theorem published_put_read:
  assumes "rocks_inv L R c db"
    and "put_published_file (rocks_store L R) db r = (Inr u, db')"
  shows "rocks_inv L R c db' \<and>
    (\<forall>k v. get_published_file (rocks_store L R) db' k = Inr v \<longrightarrow>
       v = ((rocks_published L c db)(pub_key r \<mapsto> r)) k) \<and>
    (\<forall>k b. published_file_exists (rocks_store L R) db' k = Inr b \<longrightarrow>
       b = (((rocks_published L c db)(pub_key r \<mapsto> r)) k \<noteq> None)) \<and>
    ((\<forall>e. Inl e \<notin> set (stream_published_files (rocks_store L R) db')) \<and> rt_join R db' = None \<longrightarrow>
       set (stream_published_files (rocks_store L R) db') =
         Inr ` ran ((rocks_published L c db)(pub_key r \<mapsto> r))) \<and>
    rocks_pending L c db' = rocks_pending L c db \<and> rocks_jobs L c db' = rocks_jobs L c db"
proof -
  note inv = rocks.published.put_inv [OF assms]
  note map = rocks.published.put_ok [OF assms]
  have "set (stream_published_files (rocks_store L R) db') = Inr ` ran (rocks_published L c db')"
    if "\<forall>e. Inl e \<notin> set (stream_published_files (rocks_store L R) db')" "rt_join R db' = None"
    using rocks.published.stream_range [OF inv] that by (simp add: rocks_ready_def)
  with inv show ?thesis
    using rocks.published.get_lookup [OF inv] rocks.published.has_lookup [OF inv]
      rocks.published_frame [OF assms] unfolding map by blast
qed

theorem published_put_read_witness:
  "\<exists>db'. rocks_inv sample_codec sample_db sample_contents db' \<and>
     stream_published_files (rocks_store sample_codec sample_db) db' = [Inr stored_published]"
proof -
  let ?db' = "sample_trees(PUBLISHED_FILES_COLUMN_FAMILY_NAME :=
        RBT.insert (key_bytes (pub_key stored_published)) [2] RBT.empty)"
  have "stream_published_files (rocks_store sample_codec sample_db) ?db' = [Inr stored_published]"
    by (simp add: rocks_store_def rocks_stream_all_def get_cf_def stream_item_def)
  then show ?thesis
    using published_put_read [OF sample_store_inv sample_put_published] by blast
qed

text \<open>
  The stream of the published files yields the records in strictly ascending order of
  their keys, each exactly once, and, when it reports no error, all of them.
\<close>

lemma published_stream_sorted:
  assumes "rocks_inv L R c db" "rt_join R db = None"
    and "\<forall>e. Inl e \<notin> set (stream_published_files (rocks_store L R) db)"
  shows "sorted_wrt (\<lambda>a b. key_bytes (pub_key (projr a)) < key_bytes (pub_key (projr b)))
      (stream_published_files (rocks_store L R) db) \<and>
    distinct (stream_published_files (rocks_store L R) db) \<and>
    set (stream_published_files (rocks_store L R) db) = Inr ` ran (rocks_published L c db)"
proof -
  have "sorted_wrt (\<lambda>a b. key_bytes (pub_key (projr a)) < key_bytes (pub_key (projr b)))
      (stream_published_files (rocks_store L R) db)"
    using rocks.published.stream_sorted [OF assms(1)] assms(3) by blast
  moreover from this have "distinct (stream_published_files (rocks_store L R) db)"
    unfolding distinct_conv_nth sorted_wrt_iff_nth_less
    by (metis less_irrefl linorder_neqE_nat)
  ultimately show ?thesis
    using rocks.published.stream_range [OF assms(1)] assms(2,3) by (simp add: rocks_ready_def)
qed

lemma published_stream_sorted_witness:
  "distinct (stream_published_files (rocks_store sample_codec sample_db)
     (snd (put_published_file (rocks_store sample_codec sample_db) sample_trees stored_published)))"
proof -
  let ?db = "snd (put_published_file (rocks_store sample_codec sample_db) sample_trees stored_published)"
  have "rocks_inv sample_codec sample_db sample_contents ?db"
    using rocks.published.put_inv [OF sample_store_inv sample_put_published]
    by (simp add: sample_put_published)
  moreover have "stream_published_files (rocks_store sample_codec sample_db) ?db = [Inr stored_published]"
    unfolding sample_put_published
    by (simp add: rocks_store_def rocks_stream_all_def get_cf_def stream_item_def)
  ultimately show ?thesis
    using published_stream_sorted [of sample_codec sample_db sample_contents ?db] by simp
qed

text \<open>
  Claim C19. \<open>get_next_file_metadata\<close> waits exactly as long as the job queue is empty at each of
  its polls. When it returns a job, that job is in the queue at the poll that found it, no job in
  the queue at that time has a smaller key, and all earlier polls found no job.
\<close>

theorem next_job_is_smallest:
  assumes "\<And>i. rocks_inv L R c (dbs i)"
  shows "case get_next_file_metadata (rocks_store L R) dbs of
      None \<Rightarrow> (\<forall>i. rocks_jobs L c (dbs i) = Map.empty)
    | Some (Inr m) \<Rightarrow> (\<exists>i. rocks_jobs L c (dbs i) (PublishedFileKey (metadata_key L m)) = Some m \<and>
        (\<forall>k\<in>dom (rocks_jobs L c (dbs i)). metadata_key L m \<le> key_bytes k) \<and>
        (\<forall>j<i. rocks_jobs L c (dbs j) = Map.empty))
    | Some (Inl e) \<Rightarrow> (\<exists>i. poll_file_metadata R L (dbs i) = Inl e \<and>
        (\<forall>j<i. rocks_jobs L c (dbs j) = Map.empty))"
proof (cases "get_next_file_metadata (rocks_store L R) dbs")
  case None
  then show ?thesis using rocks.jobs.next_none [where ss = dbs, OF assms] by simp
next
  case (Some x)
  show ?thesis
  proof (cases x)
    case (Inr m)
    with Some rocks.jobs.next_ok [OF assms] show ?thesis by simp
  next
    case (Inl e)
    with Some have "next_file_metadata R L dbs 0 = Some (Inl e)" by (simp add: rocks_store_def)
    from next_file_metadata_Some [OF this] obtain n
      where n: "\<forall>j. 0 \<le> j \<and> j < n \<longrightarrow> poll_file_metadata R L (dbs j) = Inr None"
        "case poll_file_metadata R L (dbs n) of
           Inl e' \<Rightarrow> Inl e = (Inl e' :: _ + FileMetadata) | Inr None \<Rightarrow> False | Inr (Some m) \<Rightarrow> Inl e = Inr m"
      by blast
    from n(2) have "poll_file_metadata R L (dbs n) = Inl e"
      by (auto split: sum.splits option.splits)
    moreover have "\<forall>j<n. rocks_jobs L c (dbs j) = Map.empty"
      using n(1) rocks_poll_None [OF assms] by blast
    ultimately show ?thesis using Some Inl by auto
  qed
qed

theorem next_job_is_smallest_witness:
  "get_next_file_metadata (rocks_store sample_codec sample_db) (\<lambda>_. sample_queue) =
     Some (Inr stored_metadata) \<and>
   rocks_jobs sample_codec sample_contents sample_queue
     (PublishedFileKey (metadata_key sample_codec stored_metadata)) = Some stored_metadata"
proof -
  have inv: "rocks_inv sample_codec sample_db sample_contents sample_queue"
    using rocks.jobs.put_inv [OF sample_store_inv sample_put_job]
    by (simp add: sample_queue_def sample_put_job)
  have "poll_file_metadata sample_db sample_codec sample_queue = Inr (Some stored_metadata)"
    by (simp add: poll_file_metadata_def get_cf_def sample_queue_def sample_put_job)
  then have get: "get_next_file_metadata (rocks_store sample_codec sample_db) (\<lambda>_. sample_queue) =
     Some (Inr stored_metadata)"
    by (simp add: rocks_store_def next_file_metadata.simps [of sample_db sample_codec "\<lambda>_. sample_queue" 0])
  with next_job_is_smallest [where dbs = "\<lambda>_. sample_queue" and R = sample_db and c = sample_contents
      and L = sample_codec, OF inv]
  show ?thesis by simp
qed

end
