(* ===== verification/P2p_Swarm.thy ===== *)
theory P2p_Swarm
  imports Domain
begin

text \<open>
  What \<open>p2p/events.rs\<close> uses of \<open>libp2p\<close>: the calls on the swarm (the record \<open>SwarmOps\<close>, over
  an unknown type \<open>'sw\<close> of swarms), the addresses, and the events that the swarm delivers, with
  one constructor for each pattern the code matches and one for the arms it only logs. The
  configuration of the service (\<open>p2p/config.rs\<close>) is here too.
\<close>

section \<open>Addresses\<close>

datatype protocol =
  Ip4 "32 word" | Ip6 "128 word" | P2p PeerId | P2pCircuit | OtherProtocol string

type_synonym multiaddr = "protocol list"

text \<open>\<open>Ipv4Addr\<close>: \<open>127.0.0.0/8\<close> is the loopback network; \<open>Ipv6Addr\<close>: \<open>::1\<close> is.\<close>

fun is_loopback4 :: "32 word \<Rightarrow> bool" where
  "is_loopback4 ip = (drop_bit 24 ip = 127)"

fun is_loopback6 :: "128 word \<Rightarrow> bool" where
  "is_loopback6 ip = (ip = 1)"

text \<open>The loop of \<open>is_dialable\<close>.\<close>

fun is_dialable :: "multiaddr \<Rightarrow> bool" where
  "is_dialable [] = True"
| "is_dialable (proto # protos) =
     (case proto of
        Ip4 ip \<Rightarrow> if is_loopback4 ip \<or> ip = 0 then False else is_dialable protos
      | Ip6 ip \<Rightarrow> if is_loopback6 ip \<or> ip = 0 then False else is_dialable protos
      | _ \<Rightarrow> is_dialable protos)"

section \<open>Configuration\<close>

record P2pServiceConfig =
  cfg_keypair_file :: path
  cfg_file_search_topic :: "string option"
  cfg_bootstrap_peers :: "string list"

definition P2pServiceConfig_default :: P2pServiceConfig where
  "P2pServiceConfig_default =
     \<lparr>cfg_keypair_file = Path False [], cfg_file_search_topic = None, cfg_bootstrap_peers = []\<rparr>"

record P2pServiceConfigBuilder =
  cb_config :: P2pServiceConfig

definition P2pServiceConfigBuilder_new :: P2pServiceConfigBuilder where
  "P2pServiceConfigBuilder_new = \<lparr>cb_config = P2pServiceConfig_default\<rparr>"

definition P2pServiceConfig_builder :: P2pServiceConfigBuilder where
  "P2pServiceConfig_builder = P2pServiceConfigBuilder_new"

definition with_keypair_file :: "P2pServiceConfigBuilder \<Rightarrow> path \<Rightarrow> P2pServiceConfigBuilder" where
  "with_keypair_file b f = b\<lparr>cb_config := (cb_config b)\<lparr>cfg_keypair_file := f\<rparr>\<rparr>"

definition with_file_search_topic :: "P2pServiceConfigBuilder \<Rightarrow> string \<Rightarrow> P2pServiceConfigBuilder" where
  "with_file_search_topic b t = b\<lparr>cb_config := (cb_config b)\<lparr>cfg_file_search_topic := Some t\<rparr>\<rparr>"

definition with_bootstrap_peers :: "P2pServiceConfigBuilder \<Rightarrow> string list \<Rightarrow> P2pServiceConfigBuilder" where
  "with_bootstrap_peers b ps = b\<lparr>cb_config := (cb_config b)\<lparr>cfg_bootstrap_peers := ps\<rparr>\<rparr>"

definition build_config :: "P2pServiceConfigBuilder \<Rightarrow> P2pServiceConfig" where
  "build_config b = cb_config b"

section \<open>Calls\<close>

type_synonym QueryId = nat
type_synonym OutboundRequestId = nat
type_synonym ResponseChannel = nat

record 'sw SwarmOps =
  kad_get_providers :: "'sw \<Rightarrow> bytes \<Rightarrow> QueryId \<times> 'sw"
  kad_put_record :: "'sw \<Rightarrow> bytes \<Rightarrow> bytes \<Rightarrow> (string + unit) \<times> 'sw"
  kad_start_providing :: "'sw \<Rightarrow> bytes \<Rightarrow> (string + unit) \<times> 'sw"
  kad_add_address :: "'sw \<Rightarrow> PeerId \<Rightarrow> multiaddr \<Rightarrow> 'sw"
  gossip_publish :: "'sw \<Rightarrow> string \<Rightarrow> bytes \<Rightarrow> (string + unit) \<times> 'sw"
  gossip_add_explicit_peer :: "'sw \<Rightarrow> PeerId \<Rightarrow> 'sw"
  topic_hash :: "string \<Rightarrow> string"
  send_metadata_request :: "'sw \<Rightarrow> PeerId \<Rightarrow> MetadataFileRequest \<Rightarrow> OutboundRequestId \<times> 'sw"
  send_chunk_request :: "'sw \<Rightarrow> PeerId \<Rightarrow> FileChunkRequest \<Rightarrow> OutboundRequestId \<times> 'sw"
  send_search_result :: "'sw \<Rightarrow> PeerId \<Rightarrow> FileSearchResult \<Rightarrow> OutboundRequestId \<times> 'sw"
  send_response :: "'sw \<Rightarrow> ResponseChannel \<Rightarrow> FileResponse \<Rightarrow> (FileResponse + unit) \<times> 'sw"
  send_unit_response :: "'sw \<Rightarrow> ResponseChannel \<Rightarrow> (unit + unit) \<times> 'sw"
  add_peer_address :: "'sw \<Rightarrow> PeerId \<Rightarrow> multiaddr \<Rightarrow> 'sw"
  with_p2p :: "multiaddr \<Rightarrow> PeerId \<Rightarrow> multiaddr option"
  listen_on :: "'sw \<Rightarrow> multiaddr \<Rightarrow> (string + unit) \<times> 'sw"
  hop_protocol_name :: string

text \<open>
  The random choices: the order in which the iterator of a \<open>HashSet\<close> yields its elements, and
  the numbers \<open>random_range\<close> draws.
\<close>

record random =
  rn_order :: "PeerId fset \<Rightarrow> PeerId list"
  rn_range :: "nat \<Rightarrow> nat"

definition random_ok :: "random \<Rightarrow> bool" where
  "random_ok N \<longleftrightarrow> (\<forall>s. set (rn_order N s) = fset s \<and> distinct (rn_order N s)) \<and>
     (\<forall>n > 0. rn_range N n < n)"

section \<open>Events\<close>

datatype kad_event =
  FoundProviders QueryId "PeerId fset"
| FinishedWithNoAdditionalRecord QueryId
| GetProvidersErr QueryId string
| OtherQueryResult QueryId
| OtherKad

datatype ('req, 'resp) rr_event =
  Request 'req ResponseChannel
| Response OutboundRequestId 'resp
| OtherRr

datatype gossip_event = GossipMessage PeerId string bytes | OtherGossip
datatype mdns_event = Discovered "(PeerId \<times> multiaddr) list" | OtherMdns
datatype identify_event = Received PeerId "string list" "multiaddr list" | OtherIdentify

datatype swarm_event =
  Identify identify_event
| Mdns mdns_event
| Kademlia kad_event
| Gossipsub gossip_event
| RelayServer | RelayClient | Dcutr
| FileDownload "(FileChunkRequest, FileResponse) rr_event"
| MetadataDownload "(MetadataFileRequest, FileResponse) rr_event"
| FileSearchResults "(FileSearchResult, unit) rr_event"
| OtherBehaviour
| NewListenAddr multiaddr
| OtherSwarmEvent

section \<open>What a swarm does\<close>

text \<open>
  \<open>queries\<close>, \<open>meta_requests\<close> and \<open>chunk_requests\<close> are the identifiers that the behaviours
  \<open>kademlia\<close>, \<open>metadata_download\<close> and \<open>file_download\<close> have given out, \<open>provided\<close> the keys the
  node provides. A behaviour gives out an identifier once, and no call makes it stop providing.
\<close>

record 'sw swarm_view =
  queries :: "'sw \<Rightarrow> QueryId set"
  meta_requests :: "'sw \<Rightarrow> OutboundRequestId set"
  chunk_requests :: "'sw \<Rightarrow> OutboundRequestId set"
  provided :: "'sw \<Rightarrow> bytes set"

definition swarm_grows :: "'sw swarm_view \<Rightarrow> 'sw \<Rightarrow> 'sw \<Rightarrow> bool" where
  "swarm_grows V w w' \<longleftrightarrow>
     queries V w \<subseteq> queries V w' \<and> meta_requests V w \<subseteq> meta_requests V w' \<and>
     chunk_requests V w \<subseteq> chunk_requests V w' \<and> provided V w \<subseteq> provided V w'"

lemma swarm_grows_refl [simp, intro]: "swarm_grows V w w"
  by (simp add: swarm_grows_def)

lemma swarm_grows_trans [trans]: "swarm_grows V a b \<Longrightarrow> swarm_grows V b c \<Longrightarrow> swarm_grows V a c"
  unfolding swarm_grows_def by blast

definition swarm_ok :: "'sw SwarmOps \<Rightarrow> 'sw swarm_view \<Rightarrow> bool" where
  "swarm_ok W V \<longleftrightarrow>
     (\<forall>w k i w'. kad_get_providers W w k = (i, w') \<longrightarrow>
        swarm_grows V w w' \<and> i \<notin> queries V w \<and> i \<in> queries V w') \<and>
     (\<forall>w p q i w'. send_metadata_request W w p q = (i, w') \<longrightarrow>
        swarm_grows V w w' \<and> i \<notin> meta_requests V w \<and> i \<in> meta_requests V w') \<and>
     (\<forall>w p q i w'. send_chunk_request W w p q = (i, w') \<longrightarrow>
        swarm_grows V w w' \<and> i \<notin> chunk_requests V w \<and> i \<in> chunk_requests V w') \<and>
     (\<forall>w k x w'. kad_start_providing W w k = (x, w') \<longrightarrow>
        swarm_grows V w w' \<and> (x = Inr () \<longrightarrow> k \<in> provided V w')) \<and>
     (\<forall>w k b. swarm_grows V w (snd (kad_put_record W w k b))) \<and>
     (\<forall>w p a. swarm_grows V w (kad_add_address W w p a)) \<and>
     (\<forall>w t b. swarm_grows V w (snd (gossip_publish W w t b))) \<and>
     (\<forall>w p. swarm_grows V w (gossip_add_explicit_peer W w p)) \<and>
     (\<forall>w p r. swarm_grows V w (snd (send_search_result W w p r))) \<and>
     (\<forall>w c r. swarm_grows V w (snd (send_response W w c r))) \<and>
     (\<forall>w c. swarm_grows V w (snd (send_unit_response W w c))) \<and>
     (\<forall>w p a. swarm_grows V w (add_peer_address W w p a)) \<and>
     (\<forall>w a. swarm_grows V w (snd (listen_on W w a)))"

lemma swarm_okD:
  assumes "swarm_ok W V"
  shows "kad_get_providers W w k = (i, w') \<Longrightarrow>
      swarm_grows V w w' \<and> i \<notin> queries V w \<and> i \<in> queries V w'"
    and "send_metadata_request W w p mq = (i, w') \<Longrightarrow>
      swarm_grows V w w' \<and> i \<notin> meta_requests V w \<and> i \<in> meta_requests V w'"
    and "send_chunk_request W w p cq = (i, w') \<Longrightarrow>
      swarm_grows V w w' \<and> i \<notin> chunk_requests V w \<and> i \<in> chunk_requests V w'"
    and "kad_start_providing W w k = (x, w') \<Longrightarrow>
      swarm_grows V w w' \<and> (x = Inr () \<longrightarrow> k \<in> provided V w')"
    and "swarm_grows V w (snd (kad_put_record W w k b))"
    and "swarm_grows V w (kad_add_address W w p a)"
    and "swarm_grows V w (snd (gossip_publish W w t b))"
    and "swarm_grows V w (gossip_add_explicit_peer W w p)"
    and "swarm_grows V w (snd (send_search_result W w p sr))"
    and "swarm_grows V w (snd (send_response W w c fr))"
    and "swarm_grows V w (snd (send_unit_response W w c))"
    and "swarm_grows V w (add_peer_address W w p a)"
    and "swarm_grows V w (snd (listen_on W w a))"
  using assms by (simp_all add: swarm_ok_def)

section \<open>Addresses that are dialled\<close>

lemma is_dialable_iff:
  "is_dialable a \<longleftrightarrow>
     (\<forall>ip. Ip4 ip \<in> set a \<longrightarrow> \<not> is_loopback4 ip \<and> ip \<noteq> 0) \<and>
     (\<forall>ip. Ip6 ip \<in> set a \<longrightarrow> \<not> is_loopback6 ip \<and> ip \<noteq> 0)"
  by (induction a) (auto split: protocol.splits)

end
