(* ===== verification/P2p_Events.thy ===== *)
theory P2p_Events
  imports P2p_Swarm Chunking File_Store "HOL-Library.Sublist"
begin

text \<open>
  \<open>p2p/events.rs\<close>: \<open>EventService\<close>, which handles the commands of the other services and the
  events of the swarm. A handler takes the node and returns it changed: the swarm, the store, the
  tables of the service, and what has been sent: the answers on the oneshot channels, the results
  of searches and the search tasks that were spawned. Messages that are only logged are left out.
\<close>

section \<open>The state\<close>

record 'req ProvidersRequestData =
  prd_found_providers :: "PeerId fset"
  prd_request :: 'req
  prd_result :: oneshot

record EventService =
  es_config :: P2pServiceConfig
  metadata_providers_requests :: "QueryId \<rightharpoonup> MetadataFileRequest ProvidersRequestData"
  file_chunk_providers_requests :: "QueryId \<rightharpoonup> FileChunkRequest ProvidersRequestData"
  metadata_download_requests :: "OutboundRequestId \<rightharpoonup> oneshot"
  file_download_requests :: "OutboundRequestId \<rightharpoonup> oneshot"
  file_search_sessions :: "string \<rightharpoonup> mpsc_tx"

definition EventService_new :: "P2pServiceConfig \<Rightarrow> EventService" where
  "EventService_new config =
     \<lparr>es_config = config, metadata_providers_requests = Map.empty,
      file_chunk_providers_requests = Map.empty, metadata_download_requests = Map.empty,
      file_download_requests = Map.empty, file_search_sessions = Map.empty\<rparr>"

text \<open>What is sent on a oneshot channel: \<open>None\<close> or a result.\<close>

datatype reply = MetadataReply "FileMetadata option" | ChunkReply "FileResponse option"

record ('sw, 's) node =
  nd_swarm :: 'sw
  nd_store :: 's
  nd_fs :: filesys
  nd_svc :: EventService
  nd_replies :: "(oneshot \<times> reply) list"
  nd_found :: "(mpsc_tx \<times> FileFound) list"
  nd_tasks :: "(PeerId \<times> FileSearchRequest) list"

text \<open>
  The surroundings: the libraries, the store, the random choices, and which receivers of search
  results are gone. \<open>lower\<close> is \<open>str::to_lowercase\<close>, a table of the Unicode standard.
\<close>

record ('sw, 's) env =
  ev_swarm :: "'sw SwarmOps"
  ev_store :: "'s Store"
  ev_libs :: libs
  ev_random :: random
  tx_closed :: "mpsc_tx \<Rightarrow> bool"
  lower :: "string \<Rightarrow> string"

definition send_oneshot :: "oneshot \<Rightarrow> reply \<Rightarrow> ('sw, 's) node \<Rightarrow> ('sw, 's) node" where
  "send_oneshot ch r n = n\<lparr>nd_replies := nd_replies n @ [(ch, r)]\<rparr>"

section \<open>Providing files\<close>

definition provide_metadata :: "('sw, 's) env \<Rightarrow> 'sw \<Rightarrow> FileMetadata \<Rightarrow> (P2pNetworkError + unit) \<times> 'sw" where
  "provide_metadata E w m =
     (let raw_key = metadata_key (ev_libs E) m in
      case enc_published_file (ev_libs E)
          \<lparr>pf_total_chunks = md_total_chunks m, pf_merkle_root = md_merkle_root m\<rparr> of
        Inl e \<Rightarrow> (Inl (Pne_CBor e), w)
      | Inr value \<Rightarrow>
      (case kad_put_record (ev_swarm E) w raw_key value of
        (Inl e, w1) \<Rightarrow> (Inl (Pne_Kademlia e), w1)
      | (Inr _, w1) \<Rightarrow>
      (case kad_start_providing (ev_swarm E) w1 raw_key of
        (Inl e, w2) \<Rightarrow> (Inl (Pne_Kademlia e), w2)
      | (Inr _, w2) \<Rightarrow> (Inr (), w2))))"

definition provide_file_chunk :: "('sw, 's) env \<Rightarrow> 'sw \<Rightarrow> FileChunkRequest \<Rightarrow> (P2pNetworkError + unit) \<times> 'sw" where
  "provide_file_chunk E w file_chunk =
     (case enc_chunk_request (ev_libs E) file_chunk of
        Inl e \<Rightarrow> (Inl (Pne_CBor e), w)
      | Inr value \<Rightarrow>
      (case kad_put_record (ev_swarm E) w value value of
        (Inl e, w1) \<Rightarrow> (Inl (Pne_Kademlia e), w1)
      | (Inr _, w1) \<Rightarrow>
      (case kad_start_providing (ev_swarm E) w1 value of
        (Inl e, w2) \<Rightarrow> (Inl (Pne_Kademlia e), w2)
      | (Inr _, w2) \<Rightarrow> (Inr (), w2))))"

fun provide_chunks :: "('sw, 's) env \<Rightarrow> 'sw \<Rightarrow> u64 \<Rightarrow> usize list \<Rightarrow> (P2pNetworkError + unit) \<times> 'sw" where
  "provide_chunks E w file_id [] = (Inr (), w)"
| "provide_chunks E w file_id (chunk_id # ids) =
     (case provide_file_chunk E w \<lparr>creq_file_id = file_id, creq_chunk_id = chunk_id\<rparr> of
        (Inl e, w1) \<Rightarrow> (Inl e, w1)
      | (Inr _, w1) \<Rightarrow> provide_chunks E w1 file_id ids)"

definition provide_all :: "('sw, 's) env \<Rightarrow> 'sw \<Rightarrow> FileMetadata \<Rightarrow> (P2pNetworkError + unit) \<times> 'sw" where
  "provide_all E w m =
     (case provide_metadata E w m of
        (Inl e, w1) \<Rightarrow> (Inl e, w1)
      | (Inr _, w1) \<Rightarrow>
          (let file_id = u64_of_key (PublishedFileKey (metadata_key (ev_libs E) m)) in
           provide_chunks E w1 file_id [0..<md_total_chunks m]))"

fun provide_stream :: "('sw, 's) env \<Rightarrow> filesys \<Rightarrow> 'sw \<Rightarrow> (FileStoreError + PublishedFileRecord) list
    \<Rightarrow> (P2pNetworkError + unit) \<times> 'sw" where
  "provide_stream E fs w [] = (Inr (), w)"
| "provide_stream E fs w (result # rest) =
     (case result of
        Inl e \<Rightarrow> (Inl (Pne_FileStorage e), w)
      | Inr published_file \<Rightarrow>
      (case fs_read fs (path_join_str (pub_chunks_dir published_file) METADATA_FILE_NAME) of
        Inl e \<Rightarrow> provide_stream E fs w rest
      | Inr data \<Rightarrow>
      (case dec_metadata (ev_libs E) data of
        Inl e \<Rightarrow> (Inl (Pne_CBor e), w)
      | Inr metadata \<Rightarrow>
      (case provide_all E w metadata of
        (Inl e, w1) \<Rightarrow> (Inl e, w1)
      | (Inr _, w1) \<Rightarrow> provide_stream E fs w1 rest))))"

definition provide_all_published_files ::
  "('sw, 's) env \<Rightarrow> ('sw, 's) node \<Rightarrow> (P2pNetworkError + unit) \<times> ('sw, 's) node" where
  "provide_all_published_files E n =
     (case provide_stream E (nd_fs n) (nd_swarm n) (stream_published_files (ev_store E) (nd_store n)) of
        (r, w) \<Rightarrow> (r, n\<lparr>nd_swarm := w\<rparr>))"

text \<open>
  The loops \<open>while let Err(_) = attempt { sleep }\<close>: the attempt is repeated until it succeeds,
  with nothing else done on the node in between. \<open>None\<close> is a loop that never ends.
\<close>

partial_function (option) retry :: "('a \<Rightarrow> ('e + 'b) \<times> 'a) \<Rightarrow> 'a \<Rightarrow> 'a option" where
  "retry attempt a =
     (case attempt a of
        (Inl e, a') \<Rightarrow> retry attempt a'
      | (Inr _, a') \<Rightarrow> Some a')"

definition add_published_file :: "('sw, 's) env \<Rightarrow> 's \<Rightarrow> FileMetadata \<Rightarrow> 's option" where
  "add_published_file E s m =
     retry (\<lambda>s. put_published_file (ev_store E) s (published_of_metadata (ev_libs E) m)) s"

definition delete_published_job :: "('sw, 's) env \<Rightarrow> 's \<Rightarrow> bytes \<Rightarrow> 's option" where
  "delete_published_job E s key = retry (\<lambda>s. delete_file_metadata (ev_store E) s key) s"

definition file_publish :: "('sw, 's) env \<Rightarrow> ('sw, 's) node \<Rightarrow> FileStoreError + FileMetadata
    \<Rightarrow> ('sw, 's) node option" where
  "file_publish E n result =
     (case result of
        Inl e \<Rightarrow> Some n
      | Inr metadata \<Rightarrow>
      (case retry (\<lambda>w. provide_all E w metadata) (nd_swarm n) of
        None \<Rightarrow> None
      | Some w \<Rightarrow>
      (case add_published_file E (nd_store n) metadata of
        None \<Rightarrow> None
      | Some s1 \<Rightarrow>
      (case delete_published_job E s1 (metadata_key (ev_libs E) metadata) of
        None \<Rightarrow> None
      | Some s2 \<Rightarrow> Some (n\<lparr>nd_swarm := w, nd_store := s2\<rparr>)))))"

section \<open>Commands\<close>

definition handle_command :: "('sw, 's) env \<Rightarrow> ('sw, 's) node \<Rightarrow> P2pCommand \<Rightarrow> ('sw, 's) node" where
  "handle_command E n command =
     (case command of
        RequestMetadata request result \<Rightarrow>
          (case kad_get_providers (ev_swarm E) (nd_swarm n) (key_bytes (key_of_u64 (mreq_file_id request))) of
             (query_id, w) \<Rightarrow>
               n\<lparr>nd_swarm := w,
                 nd_svc := (nd_svc n)\<lparr>metadata_providers_requests :=
                   (metadata_providers_requests (nd_svc n))(query_id \<mapsto>
                     \<lparr>prd_found_providers = {||}, prd_request = request, prd_result = result\<rparr>)\<rparr>\<rparr>)
      | RequestFileChunk request result \<Rightarrow>
          (case enc_chunk_request (ev_libs E) request of
             Inl e \<Rightarrow> send_oneshot result (ChunkReply None) n
           | Inr key \<Rightarrow>
               (case kad_get_providers (ev_swarm E) (nd_swarm n) key of
                  (query_id, w) \<Rightarrow>
                    n\<lparr>nd_swarm := w,
                      nd_svc := (nd_svc n)\<lparr>file_chunk_providers_requests :=
                        (file_chunk_providers_requests (nd_svc n))(query_id \<mapsto>
                          \<lparr>prd_found_providers = {||}, prd_request = request, prd_result = result\<rparr>)\<rparr>\<rparr>))
      | ProvideMetadata metadata \<Rightarrow> n\<lparr>nd_swarm := snd (provide_metadata E (nd_swarm n) metadata)\<rparr>
      | ProvideFileChunk request \<Rightarrow> n\<lparr>nd_swarm := snd (provide_file_chunk E (nd_swarm n) request)\<rparr>
      | FileSearch original_request tx \<Rightarrow>
          (case cfg_file_search_topic (es_config (nd_svc n)) of
             None \<Rightarrow> n
           | Some topic \<Rightarrow>
               (case enc_search (ev_libs E) original_request of
                  Inl e \<Rightarrow> n
                | Inr bytes \<Rightarrow>
                    (case gossip_publish (ev_swarm E) (nd_swarm n) topic bytes of
                       (Inl e, w) \<Rightarrow> n\<lparr>nd_swarm := w\<rparr>
                     | (Inr _, w) \<Rightarrow>
                         n\<lparr>nd_swarm := w,
                           nd_svc := (nd_svc n)\<lparr>file_search_sessions :=
                             (file_search_sessions (nd_svc n))
                               (sreq_session_id original_request \<mapsto> tx)\<rparr>\<rparr>)))
      | FileSearchAbort session_id \<Rightarrow>
          n\<lparr>nd_svc := (nd_svc n)\<lparr>file_search_sessions :=
            (file_search_sessions (nd_svc n))(session_id := None)\<rparr>\<rparr>
      | FileSearchResultCmd peer_id file_search_result \<Rightarrow>
          n\<lparr>nd_swarm := snd (send_search_result (ev_swarm E) (nd_swarm n) peer_id file_search_result)\<rparr>)"

section \<open>Answers of the distributed hash table\<close>

definition handle_all_possible_providers_found ::
  "('sw, 's) env \<Rightarrow> ('sw, 's) node \<Rightarrow> QueryId \<Rightarrow> ('sw, 's) node" where
  "handle_all_possible_providers_found E n qid =
     (let svc = nd_svc n; pick = (\<lambda>s. choose_random (rn_range (ev_random E)) (rn_order (ev_random E) s)) in
      case metadata_providers_requests svc qid of
        Some data \<Rightarrow>
          (let svc1 = svc\<lparr>metadata_providers_requests := (metadata_providers_requests svc)(qid := None)\<rparr> in
           case pick (prd_found_providers data) of
             Some peer \<Rightarrow>
               (case send_metadata_request (ev_swarm E) (nd_swarm n) peer (prd_request data) of
                  (request_id, w) \<Rightarrow>
                    n\<lparr>nd_swarm := w,
                      nd_svc := svc1\<lparr>metadata_download_requests :=
                        (metadata_download_requests svc1)(request_id \<mapsto> prd_result data)\<rparr>\<rparr>)
           | None \<Rightarrow> send_oneshot (prd_result data) (MetadataReply None) (n\<lparr>nd_svc := svc1\<rparr>))
      | None \<Rightarrow>
      (case file_chunk_providers_requests svc qid of
        Some data \<Rightarrow>
          (let svc1 = svc\<lparr>file_chunk_providers_requests := (file_chunk_providers_requests svc)(qid := None)\<rparr> in
           case pick (prd_found_providers data) of
             Some peer \<Rightarrow>
               (case send_chunk_request (ev_swarm E) (nd_swarm n) peer (prd_request data) of
                  (request_id, w) \<Rightarrow>
                    n\<lparr>nd_swarm := w,
                      nd_svc := svc1\<lparr>file_download_requests :=
                        (file_download_requests svc1)(request_id \<mapsto> prd_result data)\<rparr>\<rparr>)
           | None \<Rightarrow> send_oneshot (prd_result data) (ChunkReply None) (n\<lparr>nd_svc := svc1\<rparr>))
      | None \<Rightarrow> n))"

definition extend_providers :: "PeerId fset \<Rightarrow> 'req ProvidersRequestData \<Rightarrow> 'req ProvidersRequestData" where
  "extend_providers ps d = d\<lparr>prd_found_providers := prd_found_providers d |\<union>| ps\<rparr>"

definition handle_get_metadata_providers_result ::
  "('sw, 's) env \<Rightarrow> ('sw, 's) node \<Rightarrow> kad_event \<Rightarrow> ('sw, 's) node" where
  "handle_get_metadata_providers_result E n result =
     (case result of
        FoundProviders qid providers \<Rightarrow>
          (let svc = nd_svc n in
           case metadata_providers_requests svc qid of
             Some data \<Rightarrow>
               n\<lparr>nd_svc := svc\<lparr>metadata_providers_requests :=
                 (metadata_providers_requests svc)(qid \<mapsto> extend_providers providers data)\<rparr>\<rparr>
           | None \<Rightarrow>
           (case file_chunk_providers_requests svc qid of
             Some data \<Rightarrow>
               n\<lparr>nd_svc := svc\<lparr>file_chunk_providers_requests :=
                 (file_chunk_providers_requests svc)(qid \<mapsto> extend_providers providers data)\<rparr>\<rparr>
           | None \<Rightarrow> n))
      | FinishedWithNoAdditionalRecord qid \<Rightarrow> handle_all_possible_providers_found E n qid
      | GetProvidersErr qid e \<Rightarrow> handle_all_possible_providers_found E n qid
      | _ \<Rightarrow> n)"

text \<open>
  \<open>kademlia\<close> and \<open>handle_metadata_providers_query_progressed\<close> pass on the results of provider
  queries and drop everything else.
\<close>

definition kademlia :: "('sw, 's) env \<Rightarrow> ('sw, 's) node \<Rightarrow> kad_event \<Rightarrow> ('sw, 's) node" where
  "kademlia E n event =
     (case event of
        OtherKad \<Rightarrow> n
      | OtherQueryResult qid \<Rightarrow> n
      | _ \<Rightarrow> handle_get_metadata_providers_result E n event)"

section \<open>Requests and responses\<close>

text \<open>\<open>send_file_response\<close> uses the behaviour \<open>metadata_download\<close> for both protocols.\<close>

definition send_file_response :: "('sw, 's) env \<Rightarrow> ResponseChannel \<Rightarrow> FileResponse
    \<Rightarrow> ('sw, 's) node \<Rightarrow> ('sw, 's) node" where
  "send_file_response E channel r n =
     n\<lparr>nd_swarm := snd (send_response (ev_swarm E) (nd_swarm n) channel r)\<rparr>"

definition handle_file_download_response :: "FileResponse \<Rightarrow> oneshot \<Rightarrow> ('sw, 's) node \<Rightarrow> ('sw, 's) node" where
  "handle_file_download_response response channel n =
     send_oneshot channel (ChunkReply (Some response)) n"

definition handle_metadata_download_response ::
  "libs \<Rightarrow> FileResponse \<Rightarrow> oneshot \<Rightarrow> ('sw, 's) node \<Rightarrow> ('sw, 's) node" where
  "handle_metadata_download_response L response channel n =
     (case response of
        Success data \<Rightarrow>
          (case dec_metadata L data of
             Inr metadata \<Rightarrow> send_oneshot channel (MetadataReply (Some metadata)) n
           | Inl e \<Rightarrow> send_oneshot channel (MetadataReply None) n)
      | NotFound \<Rightarrow> send_oneshot channel (MetadataReply None) n
      | Error e \<Rightarrow> send_oneshot channel (MetadataReply None) n)"

text \<open>The answer to a request for the metadata of a file.\<close>

definition metadata_response :: "('sw, 's) env \<Rightarrow> filesys \<Rightarrow> 's \<Rightarrow> u64 \<Rightarrow> FileResponse" where
  "metadata_response E fs s file_id =
     (case get_published_file (ev_store E) s (key_of_u64 file_id) of
        Inr (Some rec) \<Rightarrow>
          (case fs_read fs (path_join_str (pub_chunks_dir rec) METADATA_FILE_NAME) of
             Inr data \<Rightarrow> Success data
           | Inl e \<Rightarrow> Error (io_error_display e))
      | Inr None \<Rightarrow> NotFound
      | Inl e \<Rightarrow> Error (FileStoreError_display e))"

definition metadata_download :: "('sw, 's) env \<Rightarrow> ('sw, 's) node
    \<Rightarrow> (MetadataFileRequest, FileResponse) rr_event \<Rightarrow> ('sw, 's) node" where
  "metadata_download E n event =
     (case event of
        Request request channel \<Rightarrow>
          send_file_response E channel
            (metadata_response E (nd_fs n) (nd_store n) (mreq_file_id request)) n
      | Response request_id response \<Rightarrow>
          (case metadata_download_requests (nd_svc n) request_id of
             Some channel \<Rightarrow>
               handle_metadata_download_response (ev_libs E) response channel
                 (n\<lparr>nd_svc := (nd_svc n)\<lparr>metadata_download_requests :=
                   (metadata_download_requests (nd_svc n))(request_id := None)\<rparr>\<rparr>)
           | None \<Rightarrow> n)
      | OtherRr \<Rightarrow> n)"

text \<open>The answer to a request for a chunk: \<open>read_chunk\<close>, \<open>get_from_chunks\<close> and the search for the file.\<close>

definition read_chunk :: "filesys \<Rightarrow> usize \<Rightarrow> path \<Rightarrow> string \<Rightarrow> FileResponse" where
  "read_chunk fs chunk_id target_dir ext =
     (case fs_read fs (chunk_path target_dir chunk_id ext) of
        Inr bytes \<Rightarrow> Success bytes
      | Inl e \<Rightarrow> Error (io_error_display e))"

definition get_from_chunks :: "libs \<Rightarrow> filesys \<Rightarrow> usize \<Rightarrow> path \<Rightarrow> FileResponse" where
  "get_from_chunks L fs chunk_id target_dir =
     (case fs_read fs (path_join_str target_dir METADATA_FILE_NAME) of
        Inl e \<Rightarrow> Error (io_error_display e)
      | Inr bytes \<Rightarrow>
      (case dec_metadata L bytes of
        Inl e \<Rightarrow> Error e
      | Inr m \<Rightarrow>
          if md_total_chunks m \<le> chunk_id
          then Error (''incorrect chunk number: '' @ show_nat chunk_id)
          else read_chunk fs chunk_id (md_chunks_dir m) (md_chunk_file_extension m)))"

definition try_from_pending_downloads ::
  "('sw, 's) env \<Rightarrow> filesys \<Rightarrow> 's \<Rightarrow> u64 \<Rightarrow> usize \<Rightarrow> FileResponse" where
  "try_from_pending_downloads E fs s file_id chunk_id =
     (case get_pending_download (ev_store E) s (key_of_u64 file_id) of
        Inr None \<Rightarrow> NotFound
      | Inr (Some rec) \<Rightarrow>
          if chunk_id |\<in>| pend_downloaded_chunks rec
          then get_from_chunks (ev_libs E) fs chunk_id (pend_chunks_dir rec)
          else NotFound
      | Inl e \<Rightarrow> Error (FileStoreError_display e))"

definition chunk_response :: "('sw, 's) env \<Rightarrow> filesys \<Rightarrow> 's \<Rightarrow> FileChunkRequest \<Rightarrow> FileResponse" where
  "chunk_response E fs s request =
     (case get_published_file (ev_store E) s (key_of_u64 (creq_file_id request)) of
        Inr None \<Rightarrow> try_from_pending_downloads E fs s (creq_file_id request) (creq_chunk_id request)
      | Inr (Some rec) \<Rightarrow>
          get_from_chunks (ev_libs E) fs (creq_chunk_id request) (pub_chunks_dir rec)
      | Inl e \<Rightarrow> Error (FileStoreError_display e))"

definition file_download :: "('sw, 's) env \<Rightarrow> ('sw, 's) node
    \<Rightarrow> (FileChunkRequest, FileResponse) rr_event \<Rightarrow> ('sw, 's) node" where
  "file_download E n event =
     (case event of
        Request request channel \<Rightarrow>
          send_file_response E channel (chunk_response E (nd_fs n) (nd_store n) request) n
      | Response request_id response \<Rightarrow>
          (case file_download_requests (nd_svc n) request_id of
             Some channel \<Rightarrow>
               handle_file_download_response response channel
                 (n\<lparr>nd_svc := (nd_svc n)\<lparr>file_download_requests :=
                   (file_download_requests (nd_svc n))(request_id := None)\<rparr>\<rparr>)
           | None \<Rightarrow> n)
      | OtherRr \<Rightarrow> n)"

section \<open>Searching\<close>

text \<open>The search session is the key of its sender; a sender whose receiver is gone is removed.\<close>

definition file_search_results :: "('sw, 's) env \<Rightarrow> ('sw, 's) node
    \<Rightarrow> (FileSearchResult, unit) rr_event \<Rightarrow> ('sw, 's) node" where
  "file_search_results E n event =
     (case event of
        Request request channel \<Rightarrow>
          (let n1 = n\<lparr>nd_swarm := snd (send_unit_response (ev_swarm E) (nd_swarm n) channel)\<rparr> in
           case file_search_sessions (nd_svc n1) (res_session_id request) of
             None \<Rightarrow> n1
           | Some tx \<Rightarrow>
               if tx_closed E tx
               then n1\<lparr>nd_svc := (nd_svc n1)\<lparr>file_search_sessions :=
                 (file_search_sessions (nd_svc n1))(res_session_id request := None)\<rparr>\<rparr>
               else n1\<lparr>nd_found := nd_found n1 @
                 [(tx, \<lparr>found_file_id = found_file_id (res_file_found request),
                        found_file_name = found_file_name (res_file_found request)\<rparr>)]\<rparr>)
      | Response request_id response \<Rightarrow> n
      | OtherRr \<Rightarrow> n)"

definition gossipsub :: "('sw, 's) env \<Rightarrow> ('sw, 's) node \<Rightarrow> gossip_event \<Rightarrow> ('sw, 's) node" where
  "gossipsub E n event =
     (case event of
        GossipMessage propagation_source message_topic message_data \<Rightarrow>
          (case cfg_file_search_topic (es_config (nd_svc n)) of
             None \<Rightarrow> n
           | Some topic \<Rightarrow>
               if message_topic = topic_hash (ev_swarm E) topic
               then (case dec_search (ev_libs E) message_data of
                       Inr request \<Rightarrow> n\<lparr>nd_tasks := nd_tasks n @ [(propagation_source, request)]\<rparr>
                     | Inl e \<Rightarrow> n)
               else n)
      | OtherGossip \<Rightarrow> n)"

text \<open>
  The task \<open>file_search\<close> over the items of its stream; \<open>room\<close> is the number of commands the
  channel still takes before its receiver is gone, \<open>None\<close> when it never goes. The result is the
  list of the commands sent.
\<close>

fun file_search_loop :: "(string \<Rightarrow> string) \<Rightarrow> PeerId \<Rightarrow> FileSearchRequest \<Rightarrow> nat option
    \<Rightarrow> (FileStoreError + PublishedFileRecord) list \<Rightarrow> P2pCommand list" where
  "file_search_loop low src request room [] = []"
| "file_search_loop low src request room (result # rest) =
     (case result of
        Inl e \<Rightarrow> []
      | Inr rec \<Rightarrow>
          if pub_public rec
            \<and> sublist (low (sreq_search_value request)) (low (pub_original_file_name rec))
          then (if room = Some 0 then []
                else FileSearchResultCmd src
                  \<lparr>res_session_id = sreq_session_id request,
                   res_file_found = \<lparr>found_file_id = u64_of_key (pub_key rec),
                                     found_file_name = pub_original_file_name rec\<rparr>\<rparr>
                  # file_search_loop low src request (map_option (\<lambda>k. k - 1) room) rest)
          else file_search_loop low src request room rest)"

definition file_search :: "('sw, 's) env \<Rightarrow> PeerId \<Rightarrow> FileSearchRequest \<Rightarrow> nat option \<Rightarrow> 's \<Rightarrow> P2pCommand list" where
  "file_search E src request room s =
     file_search_loop (lower E) src request room (stream_published_files (ev_store E) s)"

section \<open>Peers\<close>

fun mdns_peers :: "'sw SwarmOps \<Rightarrow> 'sw \<Rightarrow> (PeerId \<times> multiaddr) list \<Rightarrow> 'sw" where
  "mdns_peers W w [] = w"
| "mdns_peers W w ((peer_id, addr) # peers) =
     (let w1 = (if is_dialable addr then add_peer_address W w peer_id addr else w);
          w2 = kad_add_address W w1 peer_id addr;
          w3 = gossip_add_explicit_peer W w2 peer_id
      in mdns_peers W w3 peers)"

definition mdns :: "('sw, 's) env \<Rightarrow> ('sw, 's) node \<Rightarrow> mdns_event \<Rightarrow> ('sw, 's) node" where
  "mdns E n event =
     (case event of
        Discovered peers \<Rightarrow> n\<lparr>nd_swarm := mdns_peers (ev_swarm E) (nd_swarm n) peers\<rparr>
      | OtherMdns \<Rightarrow> n)"

fun identify_addrs :: "'sw SwarmOps \<Rightarrow> PeerId \<Rightarrow> bool \<Rightarrow> 'sw \<Rightarrow> multiaddr list \<Rightarrow> 'sw" where
  "identify_addrs W peer_id is_relay w [] = w"
| "identify_addrs W peer_id is_relay w (addr # addrs) =
     (let w1 = kad_add_address W w peer_id addr;
          w2 = (if is_dialable addr then add_peer_address W w1 peer_id addr else w1);
          w3 = gossip_add_explicit_peer W w2 peer_id;
          w4 = (if is_relay
                then (case with_p2p W addr peer_id of
                        Some a \<Rightarrow> snd (listen_on W w3 (a @ [P2pCircuit]))
                      | None \<Rightarrow> w3)
                else w3)
      in identify_addrs W peer_id is_relay w4 addrs)"

definition identify :: "('sw, 's) env \<Rightarrow> ('sw, 's) node \<Rightarrow> identify_event \<Rightarrow> ('sw, 's) node" where
  "identify E n event =
     (case event of
        Received peer_id protocols listen_addrs \<Rightarrow>
          n\<lparr>nd_swarm := identify_addrs (ev_swarm E) peer_id
              (hop_protocol_name (ev_swarm E) \<in> set protocols) (nd_swarm n) listen_addrs\<rparr>
      | OtherIdentify \<Rightarrow> n)"

section \<open>The dispatcher\<close>

definition handle_swarm_event :: "('sw, 's) env \<Rightarrow> ('sw, 's) node \<Rightarrow> swarm_event \<Rightarrow> ('sw, 's) node" where
  "handle_swarm_event E n event =
     (case event of
        Identify e \<Rightarrow> identify E n e
      | Mdns e \<Rightarrow> mdns E n e
      | Kademlia e \<Rightarrow> kademlia E n e
      | Gossipsub e \<Rightarrow> gossipsub E n e
      | FileDownload e \<Rightarrow> file_download E n e
      | MetadataDownload e \<Rightarrow> metadata_download E n e
      | FileSearchResults e \<Rightarrow> file_search_results E n e
      | RelayServer \<Rightarrow> n
      | RelayClient \<Rightarrow> n
      | Dcutr \<Rightarrow> n
      | OtherBehaviour \<Rightarrow> n
      | NewListenAddr addr \<Rightarrow> n
      | OtherSwarmEvent \<Rightarrow> n)"

end
