(* ===== verification/Reply_Ledger.thy ===== *)
theory Reply_Ledger
  imports P2p_Events
begin

text \<open>
  Who answers whom. The abstract specification is a ledger of the oneshot channels that came with
  the requests: each waits at one place of the event service or has been answered, once and with an
  answer of its kind. Every handler of \<open>p2p/events.rs\<close> refines one step of the ledger.
\<close>

section \<open>The ledger\<close>

datatype kind = MetadataKind | ChunkKind

datatype place =
  MetadataQuery QueryId | ChunkQuery QueryId
| MetadataSent OutboundRequestId | ChunkSent OutboundRequestId

fun kind_of_place :: "place \<Rightarrow> kind" where
  "kind_of_place (MetadataQuery _) = MetadataKind"
| "kind_of_place (ChunkQuery _) = ChunkKind"
| "kind_of_place (MetadataSent _) = MetadataKind"
| "kind_of_place (ChunkSent _) = ChunkKind"

fun kind_of_reply :: "reply \<Rightarrow> kind" where
  "kind_of_reply (MetadataReply _) = MetadataKind"
| "kind_of_reply (ChunkReply _) = ChunkKind"

record ledger =
  lg_issued :: "oneshot \<rightharpoonup> kind"
  lg_waiting :: "place \<rightharpoonup> oneshot"
  lg_replies :: "(oneshot \<times> reply) list"

inductive ledger_step :: "ledger \<Rightarrow> ledger \<Rightarrow> bool" where
  stay: "ledger_step l l"
| issue: "ledger_step l (l\<lparr>lg_issued := (lg_issued l)(ch \<mapsto> kind_of_place p),
      lg_waiting := (lg_waiting l)(p \<mapsto> ch)\<rparr>)"
    if "lg_issued l ch = None" "lg_waiting l p = None"
| refuse: "ledger_step l (l\<lparr>lg_issued := (lg_issued l)(ch \<mapsto> kind_of_reply r),
      lg_replies := lg_replies l @ [(ch, r)]\<rparr>)"
    if "lg_issued l ch = None"
| move: "ledger_step l (l\<lparr>lg_waiting := (lg_waiting l)(p := None, q \<mapsto> ch)\<rparr>)"
    if "lg_waiting l p = Some ch" "lg_waiting l q = None" "kind_of_place q = kind_of_place p"
| answer: "ledger_step l (l\<lparr>lg_waiting := (lg_waiting l)(p := None),
      lg_replies := lg_replies l @ [(ch, r)]\<rparr>)"
    if "lg_waiting l p = Some ch" "kind_of_reply r = kind_of_place p"

inductive_cases ledger_stepE: "ledger_step l l'"

definition ledger_inv :: "ledger \<Rightarrow> bool" where
  "ledger_inv l \<longleftrightarrow>
     (\<forall>p q ch. lg_waiting l p = Some ch \<and> lg_waiting l q = Some ch \<longrightarrow> p = q) \<and>
     distinct (map fst (lg_replies l)) \<and>
     ran (lg_waiting l) \<inter> fst ` set (lg_replies l) = {} \<and>
     dom (lg_issued l) = ran (lg_waiting l) \<union> fst ` set (lg_replies l) \<and>
     (\<forall>p ch. lg_waiting l p = Some ch \<longrightarrow> lg_issued l ch = Some (kind_of_place p)) \<and>
     (\<forall>(ch, r)\<in>set (lg_replies l). lg_issued l ch = Some (kind_of_reply r))"

lemma ledger_invD:
  assumes "ledger_inv l"
  shows "lg_waiting l p = Some ch \<Longrightarrow> lg_waiting l q = Some ch \<Longrightarrow> p = q"
    and "distinct (map fst (lg_replies l))"
    and "lg_waiting l p = Some ch \<Longrightarrow> (ch, r) \<notin> set (lg_replies l)"
    and "lg_issued l ch \<noteq> None \<longleftrightarrow> (\<exists>p. lg_waiting l p = Some ch) \<or> (\<exists>r. (ch, r) \<in> set (lg_replies l))"
    and "lg_waiting l p = Some ch \<Longrightarrow> lg_issued l ch = Some (kind_of_place p)"
    and "(ch, r) \<in> set (lg_replies l) \<Longrightarrow> lg_issued l ch = Some (kind_of_reply r)"
proof -
  note inv = assms [unfolded ledger_inv_def]
  show "lg_waiting l p = Some ch \<Longrightarrow> lg_waiting l q = Some ch \<Longrightarrow> p = q" using inv by blast
  show "distinct (map fst (lg_replies l))" using inv by blast
  show "(ch, r) \<notin> set (lg_replies l)" if "lg_waiting l p = Some ch"
    using conjunct1 [OF conjunct2 [OF conjunct2 [OF inv]]] that by (force simp: ran_def)
  have "dom (lg_issued l) = ran (lg_waiting l) \<union> fst ` set (lg_replies l)" using inv by blast
  from arg_cong [OF this, of "\<lambda>s. ch \<in> s"]
  show "lg_issued l ch \<noteq> None \<longleftrightarrow> (\<exists>p. lg_waiting l p = Some ch) \<or> (\<exists>r. (ch, r) \<in> set (lg_replies l))"
    by (force simp: dom_def ran_def image_iff)
  show "lg_waiting l p = Some ch \<Longrightarrow> lg_issued l ch = Some (kind_of_place p)" using inv by blast
  show "(ch, r) \<in> set (lg_replies l) \<Longrightarrow> lg_issued l ch = Some (kind_of_reply r)" using inv by blast
qed

lemma ledger_invI:
  assumes "\<And>p q ch. lg_waiting l p = Some ch \<Longrightarrow> lg_waiting l q = Some ch \<Longrightarrow> p = q"
    and "distinct (map fst (lg_replies l))"
    and "\<And>p ch r. lg_waiting l p = Some ch \<Longrightarrow> (ch, r) \<notin> set (lg_replies l)"
    and "\<And>ch. lg_issued l ch \<noteq> None \<Longrightarrow>
      (\<exists>p. lg_waiting l p = Some ch) \<or> (\<exists>r. (ch, r) \<in> set (lg_replies l))"
    and "\<And>p ch. lg_waiting l p = Some ch \<Longrightarrow> lg_issued l ch = Some (kind_of_place p)"
    and "\<And>ch r. (ch, r) \<in> set (lg_replies l) \<Longrightarrow> lg_issued l ch = Some (kind_of_reply r)"
  shows "ledger_inv l"
  unfolding ledger_inv_def
proof (intro conjI)
  show "ran (lg_waiting l) \<inter> fst ` set (lg_replies l) = {}"
    using assms(3) by (force simp: ran_def)
  show "dom (lg_issued l) = ran (lg_waiting l) \<union> fst ` set (lg_replies l)"
    using assms(4,5,6) by (force simp: dom_def ran_def image_iff)
qed (use assms in blast)+

lemma ledger_step_inv:
  assumes "ledger_step l l'" "ledger_inv l"
  shows "ledger_inv l'"
  using assms(1)
proof cases
  case stay
  with assms(2) show ?thesis by simp
next
  case (issue ch p)
  note inv = ledger_invD [OF assms(2)]
  have new: "lg_waiting l q \<noteq> Some ch" "(ch, r) \<notin> set (lg_replies l)" for q r
    using issue(2) inv(5,6) by fastforce+
  show ?thesis
  proof (rule ledger_invI)
    fix x assume "lg_issued l' x \<noteq> None"
    then show "(\<exists>q. lg_waiting l' q = Some x) \<or> (\<exists>r. (x, r) \<in> set (lg_replies l'))"
      using inv(4) [of x] issue by (auto split: if_splits) (metis option.distinct(1) option.inject)?
  qed (use inv new issue in \<open>auto split: if_splits\<close>)
next
  case (refuse ch r)
  note inv = ledger_invD [OF assms(2)]
  have new: "lg_waiting l q \<noteq> Some ch" "(ch, r) \<notin> set (lg_replies l)" for q r
    using refuse(2) inv(5,6) by fastforce+
  show ?thesis
  proof (rule ledger_invI)
    fix x assume "lg_issued l' x \<noteq> None"
    then show "(\<exists>q. lg_waiting l' q = Some x) \<or> (\<exists>r. (x, r) \<in> set (lg_replies l'))"
      using inv(4) [of x] refuse by (auto split: if_splits) (metis option.distinct(1) option.inject)?
  qed (use inv new refuse in \<open>auto split: if_splits\<close>)
next
  case (move p ch q)
  note inv = ledger_invD [OF assms(2)]
  show ?thesis
  proof (rule ledger_invI)
    fix x assume "lg_issued l' x \<noteq> None"
    then show "(\<exists>q. lg_waiting l' q = Some x) \<or> (\<exists>r. (x, r) \<in> set (lg_replies l'))"
      using inv(4) [of x] move by (auto split: if_splits) (metis option.distinct(1) option.inject)?
  qed (use inv move in \<open>auto split: if_splits\<close>)
next
  case (answer p ch r)
  note inv = ledger_invD [OF assms(2)]
  show ?thesis
  proof (rule ledger_invI)
    fix x assume "lg_issued l' x \<noteq> None"
    then show "(\<exists>q. lg_waiting l' q = Some x) \<or> (\<exists>r. (x, r) \<in> set (lg_replies l'))"
      using inv(4) [of x] answer by (auto split: if_splits) (metis option.distinct(1) option.inject)?
  qed (use inv answer in \<open>auto split: if_splits\<close>)
qed

section \<open>The ledger of a node\<close>

fun waiting :: "EventService \<Rightarrow> place \<rightharpoonup> oneshot" where
  "waiting svc (MetadataQuery q) = map_option prd_result (metadata_providers_requests svc q)"
| "waiting svc (ChunkQuery q) = map_option prd_result (file_chunk_providers_requests svc q)"
| "waiting svc (MetadataSent i) = metadata_download_requests svc i"
| "waiting svc (ChunkSent i) = file_download_requests svc i"

definition ledger_of :: "(oneshot \<rightharpoonup> kind) \<times> ('sw, 's) node \<Rightarrow> ledger" where
  "ledger_of s = \<lparr>lg_issued = fst s, lg_waiting = waiting (nd_svc (snd s)),
     lg_replies = nd_replies (snd s)\<rparr>"

text \<open>The identifiers in the tables were given out by the swarm, and no query is in two tables.\<close>

definition ids_ok :: "'sw swarm_view \<Rightarrow> ('sw, 's) node \<Rightarrow> bool" where
  "ids_ok V n \<longleftrightarrow>
     dom (metadata_providers_requests (nd_svc n)) \<subseteq> queries V (nd_swarm n) \<and>
     dom (file_chunk_providers_requests (nd_svc n)) \<subseteq> queries V (nd_swarm n) \<and>
     dom (metadata_providers_requests (nd_svc n)) \<inter> dom (file_chunk_providers_requests (nd_svc n)) = {} \<and>
     dom (metadata_download_requests (nd_svc n)) \<subseteq> meta_requests V (nd_swarm n) \<and>
     dom (file_download_requests (nd_svc n)) \<subseteq> chunk_requests V (nd_swarm n)"

fun command_oneshot :: "P2pCommand \<Rightarrow> (oneshot \<times> kind) option" where
  "command_oneshot (RequestMetadata request ch) = Some (ch, MetadataKind)"
| "command_oneshot (RequestFileChunk request ch) = Some (ch, ChunkKind)"
| "command_oneshot _ = None"

definition issue_command :: "(oneshot \<rightharpoonup> kind) \<Rightarrow> P2pCommand \<Rightarrow> oneshot \<rightharpoonup> kind" where
  "issue_command issued c =
     (case command_oneshot c of None \<Rightarrow> issued | Some (ch, k) \<Rightarrow> issued(ch \<mapsto> k))"

text \<open>
  The steps of a node: the arms of the loop in \<open>p2p/service.rs\<close> that reach the event service,
  the work of the swarm in between, and the changes the other tasks make to the store and the
  disk. A oneshot channel is new when it comes with a command.
\<close>

inductive node_step :: "('sw, 's) env \<Rightarrow> 'sw swarm_view \<Rightarrow> (oneshot \<rightharpoonup> kind) \<times> ('sw, 's) node
    \<Rightarrow> (oneshot \<rightharpoonup> kind) \<times> ('sw, 's) node \<Rightarrow> bool" for E V where
  command: "node_step E V (issued, n) (issue_command issued c, handle_command E n c)"
    if "\<And>ch k. command_oneshot c = Some (ch, k) \<Longrightarrow> issued ch = None"
| event: "node_step E V (issued, n) (issued, handle_swarm_event E n ev)"
| publish: "node_step E V (issued, n) (issued, n')" if "file_publish E n r = Some n'"
| poll: "node_step E V (issued, n) (issued, n\<lparr>nd_swarm := w\<rparr>)" if "swarm_grows V (nd_swarm n) w"
| outside: "node_step E V (issued, n) (issued, n\<lparr>nd_store := s, nd_fs := fs\<rparr>)"

inductive reachable :: "('sw, 's) env \<Rightarrow> 'sw swarm_view \<Rightarrow> (oneshot \<rightharpoonup> kind) \<times> ('sw, 's) node \<Rightarrow> bool"
  for E V where
  start: "reachable E V (Map.empty, n)"
    if "nd_svc n = EventService_new config" "nd_replies n = []"
| step: "reachable E V s'" if "reachable E V s" "node_step E V s s'"

section \<open>Calls that only make the swarm grow\<close>

lemma provide_metadata_grows:
  assumes "swarm_ok (ev_swarm E) V" "provide_metadata E w m = (r, w')"
  shows "swarm_grows V w w'" and "r = Inr () \<Longrightarrow> metadata_key (ev_libs E) m \<in> provided V w'"
proof -
  show "swarm_grows V w w'"
    using assms(2) swarm_okD(5) [OF assms(1), of w] swarm_okD(4) [OF assms(1)]
    by (auto simp: provide_metadata_def Let_def split: sum.splits prod.splits
        intro: swarm_grows_trans) (metis snd_conv swarm_grows_trans)+
  show "metadata_key (ev_libs E) m \<in> provided V w'" if "r = Inr ()"
    using assms(2) that swarm_okD(4) [OF assms(1)]
    by (auto simp: provide_metadata_def Let_def split: sum.splits prod.splits)
qed

lemma provide_file_chunk_grows:
  assumes "swarm_ok (ev_swarm E) V" "provide_file_chunk E w c = (r, w')"
  shows "swarm_grows V w w'"
    and "r = Inr () \<Longrightarrow> \<exists>k. enc_chunk_request (ev_libs E) c = Inr k \<and> k \<in> provided V w'"
proof -
  show "swarm_grows V w w'"
    using assms(2) swarm_okD(5) [OF assms(1), of w] swarm_okD(4) [OF assms(1)]
    by (auto simp: provide_file_chunk_def Let_def split: sum.splits prod.splits
        intro: swarm_grows_trans) (metis snd_conv swarm_grows_trans)+
  show "\<exists>k. enc_chunk_request (ev_libs E) c = Inr k \<and> k \<in> provided V w'" if "r = Inr ()"
    using assms(2) that swarm_okD(4) [OF assms(1)]
    by (auto simp: provide_file_chunk_def Let_def split: sum.splits prod.splits)
qed

lemma provide_chunks_grows:
  assumes "swarm_ok (ev_swarm E) V"
  shows "provide_chunks E w f ids = (r, w') \<Longrightarrow> swarm_grows V w w'"
    and "provide_chunks E w f ids = (r, w') \<Longrightarrow> r = Inr () \<Longrightarrow> i \<in> set ids \<Longrightarrow>
      \<exists>k. enc_chunk_request (ev_libs E) \<lparr>creq_file_id = f, creq_chunk_id = i\<rparr> = Inr k \<and> k \<in> provided V w'"
proof -
  have *: "provide_chunks E w f ids = (r, w') \<Longrightarrow> swarm_grows V w w' \<and> (r = Inr () \<longrightarrow> (\<forall>i\<in>set ids.
      \<exists>k. enc_chunk_request (ev_libs E) \<lparr>creq_file_id = f, creq_chunk_id = i\<rparr> = Inr k \<and> k \<in> provided V w'))"
  proof (induction ids arbitrary: w)
    case (Cons i ids)
    obtain x w1 where p: "provide_file_chunk E w \<lparr>creq_file_id = f, creq_chunk_id = i\<rparr> = (x, w1)"
      by (cases "provide_file_chunk E w \<lparr>creq_file_id = f, creq_chunk_id = i\<rparr>")
    note g = provide_file_chunk_grows [OF assms p]
    show ?case
    proof (cases x)
      case (Inl e)
      with Cons.prems p g show ?thesis by auto
    next
      case (Inr u)
      with Cons.prems p have "provide_chunks E w1 f ids = (r, w')" by simp
      from Cons.IH [OF this] g Inr show ?thesis
        by (auto simp: swarm_grows_def)
    qed
  qed simp
  show "provide_chunks E w f ids = (r, w') \<Longrightarrow> swarm_grows V w w'" using * by blast
  show "provide_chunks E w f ids = (r, w') \<Longrightarrow> r = Inr () \<Longrightarrow> i \<in> set ids \<Longrightarrow>
      \<exists>k. enc_chunk_request (ev_libs E) \<lparr>creq_file_id = f, creq_chunk_id = i\<rparr> = Inr k \<and> k \<in> provided V w'"
    using * by blast
qed

lemma provide_all_grows:
  assumes "swarm_ok (ev_swarm E) V" "provide_all E w m = (r, w')"
  shows "swarm_grows V w w'"
    and "r = Inr () \<Longrightarrow> metadata_key (ev_libs E) m \<in> provided V w' \<and>
      (\<forall>i < md_total_chunks m. \<exists>k. enc_chunk_request (ev_libs E)
         \<lparr>creq_file_id = u64_of_key (PublishedFileKey (metadata_key (ev_libs E) m)), creq_chunk_id = i\<rparr> = Inr k \<and>
         k \<in> provided V w')"
proof -
  obtain x w1 where p: "provide_metadata E w m = (x, w1)" by (cases "provide_metadata E w m")
  note g = provide_metadata_grows [OF assms(1) p]
  have "swarm_grows V w w' \<and> (r = Inr () \<longrightarrow> metadata_key (ev_libs E) m \<in> provided V w' \<and>
      (\<forall>i < md_total_chunks m. \<exists>k. enc_chunk_request (ev_libs E)
         \<lparr>creq_file_id = u64_of_key (PublishedFileKey (metadata_key (ev_libs E) m)), creq_chunk_id = i\<rparr> = Inr k \<and>
         k \<in> provided V w'))"
  proof (cases x)
    case (Inl e)
    with assms(2) p g show ?thesis by (auto simp: provide_all_def)
  next
    case (Inr u)
    with assms(2) p have c: "provide_chunks E w1 (u64_of_key (PublishedFileKey (metadata_key (ev_libs E) m)))
        [0..<md_total_chunks m] = (r, w')"
      by (simp add: provide_all_def Let_def)
    note gc = provide_chunks_grows [OF assms(1)]
    have "swarm_grows V w1 w'" by (rule gc(1) [OF c])
    moreover have "r = Inr () \<Longrightarrow> i < md_total_chunks m \<Longrightarrow> \<exists>k. enc_chunk_request (ev_libs E)
         \<lparr>creq_file_id = u64_of_key (PublishedFileKey (metadata_key (ev_libs E) m)), creq_chunk_id = i\<rparr> = Inr k \<and>
         k \<in> provided V w'" for i
      by (rule gc(2) [OF c]) simp_all
    ultimately show ?thesis using g Inr by (auto simp: swarm_grows_def)
  qed
  then show "swarm_grows V w w'" and "r = Inr () \<Longrightarrow> metadata_key (ev_libs E) m \<in> provided V w' \<and>
      (\<forall>i < md_total_chunks m. \<exists>k. enc_chunk_request (ev_libs E)
         \<lparr>creq_file_id = u64_of_key (PublishedFileKey (metadata_key (ev_libs E) m)), creq_chunk_id = i\<rparr> = Inr k \<and>
         k \<in> provided V w')" by blast+
qed

lemma mdns_peers_grows: "swarm_ok W V \<Longrightarrow> swarm_grows V w (mdns_peers W w peers)"
proof (induction W w peers rule: mdns_peers.induct)
  case (2 W w p a peers)
  note ok = swarm_okD [OF 2(2)]
  let ?w1 = "if is_dialable a then add_peer_address W w p a else w"
  let ?w2 = "kad_add_address W ?w1 p a"
  let ?w3 = "gossip_add_explicit_peer W ?w2 p"
  have "swarm_grows V w ?w1" by (simp add: ok)
  also have "swarm_grows V ?w1 ?w2" by (rule ok)
  also have "swarm_grows V ?w2 ?w3" by (rule ok)
  also have "swarm_grows V ?w3 (mdns_peers W ?w3 peers)"
    using 2(1) [OF refl refl refl 2(2)] by simp
  finally show ?case by (simp add: Let_def)
qed simp

lemma identify_addrs_grows: "swarm_ok W V \<Longrightarrow> swarm_grows V w (identify_addrs W p b w addrs)"
proof (induction W p b w addrs rule: identify_addrs.induct)
  case (2 W p b w a as)
  note ok = swarm_okD [OF 2(2)]
  let ?w1 = "kad_add_address W w p a"
  let ?w2 = "if is_dialable a then add_peer_address W ?w1 p a else ?w1"
  let ?w3 = "gossip_add_explicit_peer W ?w2 p"
  let ?w4 = "if b then (case with_p2p W a p of
                        Some a \<Rightarrow> snd (listen_on W ?w3 (a @ [P2pCircuit])) | None \<Rightarrow> ?w3) else ?w3"
  have "swarm_grows V w ?w1" by (rule ok)
  also have "swarm_grows V ?w1 ?w2" by (simp add: ok)
  also have "swarm_grows V ?w2 ?w3" by (rule ok)
  also have "swarm_grows V ?w3 ?w4" by (simp add: ok split: option.split)
  also have "swarm_grows V ?w4 (identify_addrs W p b ?w4 as)"
    using 2(1) [OF refl refl refl refl 2(2)] by simp
  finally show ?case by (simp add: Let_def)
qed simp

text \<open>The retried attempts.\<close>

lemma retry_Some:
  assumes "retry attempt a = Some b"
  shows "\<exists>c u. attempt c = (Inr u, b) \<and> (\<lambda>x y. \<exists>e. attempt x = (Inl e, y))\<^sup>*\<^sup>* a c"
  using assms
proof (induction rule: retry.raw_induct [rotated, consumes 1, case_names step])
  case (step f attempt a b)
  obtain r a' where at: "attempt a = (r, a')" by (cases "attempt a")
  show ?case
  proof (cases r)
    case (Inl e)
    with step(2) at have "f attempt a' = Some b" by simp
    from step(1) [OF this] obtain c u where
      "attempt c = (Inr u, b)" "(\<lambda>x y. \<exists>e. attempt x = (Inl e, y))\<^sup>*\<^sup>* a' c"
      by blast
    then show ?thesis
      using at Inl by (blast intro: converse_rtranclp_into_rtranclp)
  next
    case (Inr u)
    with step(2) at show ?thesis by auto
  qed
qed

lemma retry_inv:
  assumes "retry attempt a = Some b" "P a"
    and "\<And>x e y. P x \<Longrightarrow> attempt x = (Inl e, y) \<Longrightarrow> P y"
    and "\<And>x u y. P x \<Longrightarrow> attempt x = (Inr u, y) \<Longrightarrow> Q y"
  shows "Q b"
proof -
  obtain c u where c: "attempt c = (Inr u, b)" "(\<lambda>x y. \<exists>e. attempt x = (Inl e, y))\<^sup>*\<^sup>* a c"
    using retry_Some [OF assms(1)] by blast
  from c(2) have "P c" by induction (use assms(2,3) in blast)+
  with c(1) assms(4) show ?thesis by blast
qed

lemma retry_provide_grows:
  assumes "swarm_ok (ev_swarm E) V" "retry (\<lambda>w. provide_all E w m) w = Some w'"
  shows "swarm_grows V w w' \<and> metadata_key (ev_libs E) m \<in> provided V w' \<and>
    (\<forall>i < md_total_chunks m. \<exists>k. enc_chunk_request (ev_libs E)
         \<lparr>creq_file_id = u64_of_key (PublishedFileKey (metadata_key (ev_libs E) m)), creq_chunk_id = i\<rparr> = Inr k \<and>
         k \<in> provided V w')"
proof (rule retry_inv [OF assms(2), where P = "swarm_grows V w"])
  show "swarm_grows V w y" if "swarm_grows V w x" "provide_all E x m = (Inl e, y)" for x e y
    by (rule swarm_grows_trans [OF that(1) provide_all_grows(1) [OF assms(1) that(2)]])
  show "swarm_grows V w y \<and> metadata_key (ev_libs E) m \<in> provided V y \<and>
    (\<forall>i < md_total_chunks m. \<exists>k. enc_chunk_request (ev_libs E)
         \<lparr>creq_file_id = u64_of_key (PublishedFileKey (metadata_key (ev_libs E) m)), creq_chunk_id = i\<rparr> = Inr k \<and>
         k \<in> provided V y)"
    if "swarm_grows V w x" "provide_all E x m = (Inr u, y)" for x u y
    using provide_all_grows(2) [OF assms(1) that(2)]
      swarm_grows_trans [OF that(1) provide_all_grows(1) [OF assms(1) that(2)]] by (cases u) blast
qed simp

lemma file_publish_grows:
  assumes "swarm_ok (ev_swarm E) V" "file_publish E n r = Some n'"
  shows "swarm_grows V (nd_swarm n) (nd_swarm n') \<and> nd_svc n' = nd_svc n \<and> nd_replies n' = nd_replies n"
  using assms(2) retry_provide_grows [OF assms(1)]
  by (auto simp: file_publish_def split: sum.splits option.splits)

section \<open>Every step of a node is a step of the ledger\<close>

lemma ids_ok_mono:
  assumes "ids_ok V n" "swarm_grows V (nd_swarm n) (nd_swarm n')"
    "metadata_providers_requests (nd_svc n') = metadata_providers_requests (nd_svc n)"
    "file_chunk_providers_requests (nd_svc n') = file_chunk_providers_requests (nd_svc n)"
    "metadata_download_requests (nd_svc n') = metadata_download_requests (nd_svc n)"
    "file_download_requests (nd_svc n') = file_download_requests (nd_svc n)"
  shows "ids_ok V n'"
proof -
  have g: "queries V (nd_swarm n) \<subseteq> queries V (nd_swarm n')"
    "meta_requests V (nd_swarm n) \<subseteq> meta_requests V (nd_swarm n')"
    "chunk_requests V (nd_swarm n) \<subseteq> chunk_requests V (nd_swarm n')"
    using assms(2) by (simp_all add: swarm_grows_def)
  from assms(1) show ?thesis
    unfolding ids_ok_def assms(3-6)
    by (elim conjE, intro conjI) (assumption | erule subset_trans, rule g)+
qed

text \<open>A handler that leaves the four tables and the replies alone.\<close>

definition quiet :: "'sw swarm_view \<Rightarrow> ('sw, 's) node \<Rightarrow> ('sw, 's) node \<Rightarrow> bool" where
  "quiet V n n' \<longleftrightarrow>
     swarm_grows V (nd_swarm n) (nd_swarm n') \<and> nd_replies n' = nd_replies n \<and>
     metadata_providers_requests (nd_svc n') = metadata_providers_requests (nd_svc n) \<and>
     file_chunk_providers_requests (nd_svc n') = file_chunk_providers_requests (nd_svc n) \<and>
     metadata_download_requests (nd_svc n') = metadata_download_requests (nd_svc n) \<and>
     file_download_requests (nd_svc n') = file_download_requests (nd_svc n)"

lemma waiting_cong:
  assumes "metadata_providers_requests svc' = metadata_providers_requests svc"
     "file_chunk_providers_requests svc' = file_chunk_providers_requests svc"
     "metadata_download_requests svc' = metadata_download_requests svc"
     "file_download_requests svc' = file_download_requests svc"
  shows "waiting svc' = waiting svc"
proof
  fix p show "waiting svc' p = waiting svc p" by (cases p) (simp_all add: assms)
qed

definition refines :: "'sw swarm_view \<Rightarrow> (oneshot \<rightharpoonup> kind) \<times> ('sw, 's) node
    \<Rightarrow> (oneshot \<rightharpoonup> kind) \<times> ('sw, 's) node \<Rightarrow> bool" where
  "refines V s s' \<longleftrightarrow> ids_ok V (snd s') \<and> ledger_step (ledger_of s) (ledger_of s')"

lemma quiet_refines:
  assumes "ids_ok V n" "quiet V n n'"
  shows "refines V (issued, n) (issued, n')"
proof -
  have "ledger_of (issued, n') = ledger_of (issued, n)"
    using assms(2) waiting_cong [of "nd_svc n'" "nd_svc n"] by (simp add: ledger_of_def quiet_def)
  moreover have "ids_ok V n'"
    using assms(2) by (intro ids_ok_mono [OF assms(1)]) (simp_all add: quiet_def)
  ultimately show ?thesis by (simp add: refines_def ledger_step.stay)
qed

lemma quiet_swarm [simp]:
  "quiet V n (n\<lparr>nd_swarm := w\<rparr>) \<longleftrightarrow> swarm_grows V (nd_swarm n) w"
  by (simp add: quiet_def)

lemma quiet_refl [simp]: "quiet V n n"
  by (simp add: quiet_def)

lemma quiet_events:
  assumes "swarm_ok (ev_swarm E) V"
  shows "quiet V n (identify E n ie)" and "quiet V n (mdns E n me)"
    and "quiet V n (gossipsub E n ge)" and "quiet V n (file_search_results E n se)"
    and "quiet V n (send_file_response E ch fr n)"
proof -
  note ok = swarm_okD [OF assms]
  show "quiet V n (identify E n ie)"
    by (cases ie) (simp_all add: identify_def identify_addrs_grows [OF assms])
  show "quiet V n (mdns E n me)"
    by (cases me) (simp_all add: mdns_def mdns_peers_grows [OF assms])
  show "quiet V n (gossipsub E n ge)"
    by (cases ge) (simp_all add: gossipsub_def quiet_def split: option.split sum.split)
  show "quiet V n (file_search_results E n se)"
    by (cases se) (simp_all add: file_search_results_def Let_def quiet_def ok split: option.split)
  show "quiet V n (send_file_response E ch fr n)"
    by (simp add: send_file_response_def ok)
qed

text \<open>The tables as places of the ledger.\<close>

lemma waiting_upd:
  "waiting (svc\<lparr>metadata_providers_requests := (metadata_providers_requests svc)(i \<mapsto> d)\<rparr>) =
     (waiting svc)(MetadataQuery i \<mapsto> prd_result d)"
  "waiting (svc\<lparr>file_chunk_providers_requests := (file_chunk_providers_requests svc)(i \<mapsto> c)\<rparr>) =
     (waiting svc)(ChunkQuery i \<mapsto> prd_result c)"
  "waiting (svc\<lparr>metadata_download_requests := (metadata_download_requests svc)(i := x)\<rparr>) =
     (waiting svc)(MetadataSent i := x)"
  "waiting (svc\<lparr>file_download_requests := (file_download_requests svc)(i := x)\<rparr>) =
     (waiting svc)(ChunkSent i := x)"
  "waiting (svc\<lparr>metadata_providers_requests := (metadata_providers_requests svc)(i := None)\<rparr>) =
     (waiting svc)(MetadataQuery i := None)"
  "waiting (svc\<lparr>file_chunk_providers_requests := (file_chunk_providers_requests svc)(i := None)\<rparr>) =
     (waiting svc)(ChunkQuery i := None)"
  by (rule ext, rename_tac p, case_tac p; simp)+

lemma waiting_place:
  "waiting svc p = (case p of
     MetadataQuery q \<Rightarrow> map_option prd_result (metadata_providers_requests svc q)
   | ChunkQuery q \<Rightarrow> map_option prd_result (file_chunk_providers_requests svc q)
   | MetadataSent i \<Rightarrow> metadata_download_requests svc i
   | ChunkSent i \<Rightarrow> file_download_requests svc i)"
  by (cases p) simp_all

lemma waiting_new:
  assumes "ids_ok V n"
  shows "i \<notin> queries V (nd_swarm n) \<Longrightarrow> waiting (nd_svc n) (MetadataQuery i) = None"
    and "i \<notin> queries V (nd_swarm n) \<Longrightarrow> waiting (nd_svc n) (ChunkQuery i) = None"
    and "j \<notin> meta_requests V (nd_swarm n) \<Longrightarrow> waiting (nd_svc n) (MetadataSent j) = None"
    and "k \<notin> chunk_requests V (nd_swarm n) \<Longrightarrow> waiting (nd_svc n) (ChunkSent k) = None"
  using assms by (auto simp: ids_ok_def)

lemma ledger_of_simps [simp]:
  "lg_issued (ledger_of (issued, n)) = issued"
  "lg_waiting (ledger_of (issued, n)) = waiting (nd_svc n)"
  "lg_replies (ledger_of (issued, n)) = nd_replies n"
  by (simp_all add: ledger_of_def)

text \<open>The four ways a handler changes the ledger, over the parts of a node.\<close>

lemma refines_issue:
  assumes "ids_ok V n'" "issued ch = None" "waiting (nd_svc n) p = None" "kind_of_place p = k"
    and "waiting (nd_svc n') = (waiting (nd_svc n))(p \<mapsto> ch)" "nd_replies n' = nd_replies n"
  shows "refines V (issued, n) (issued(ch \<mapsto> k), n')"
proof -
  have eq: "ledger_of (issued(ch \<mapsto> k), n') = (ledger_of (issued, n))
      \<lparr>lg_issued := (lg_issued (ledger_of (issued, n)))(ch \<mapsto> kind_of_place p),
       lg_waiting := (lg_waiting (ledger_of (issued, n)))(p \<mapsto> ch)\<rparr>"
    using assms by (simp add: ledger_of_def)
  have "ledger_step (ledger_of (issued, n)) (ledger_of (issued(ch \<mapsto> k), n'))"
    unfolding eq by (rule ledger_step.issue) (simp_all add: assms)
  then show ?thesis
    using assms(1) by (simp add: refines_def)
qed

lemma refines_refuse:
  assumes "ids_ok V n" "issued ch = None" "kind_of_reply r = k"
  shows "refines V (issued, n) (issued(ch \<mapsto> k), send_oneshot ch r n)"
proof -
  have eq: "ledger_of (issued(ch \<mapsto> k), send_oneshot ch r n) = (ledger_of (issued, n))
      \<lparr>lg_issued := (lg_issued (ledger_of (issued, n)))(ch \<mapsto> kind_of_reply r),
       lg_replies := lg_replies (ledger_of (issued, n)) @ [(ch, r)]\<rparr>"
    using assms by (simp add: ledger_of_def send_oneshot_def)
  have ids: "ids_ok V (send_oneshot ch r n)"
    using assms(1) by (simp add: ids_ok_def send_oneshot_def)
  have "ledger_step (ledger_of (issued, n)) (ledger_of (issued(ch \<mapsto> k), send_oneshot ch r n))"
    unfolding eq by (rule ledger_step.refuse) (simp_all add: assms)
  then show ?thesis
    using ids by (simp add: refines_def)
qed

lemma refines_move:
  assumes "ids_ok V n'" "waiting (nd_svc n) p = Some ch" "waiting (nd_svc n) q = None"
    "kind_of_place q = kind_of_place p"
    and "waiting (nd_svc n') = (waiting (nd_svc n))(p := None, q \<mapsto> ch)" "nd_replies n' = nd_replies n"
  shows "refines V (issued, n) (issued, n')"
proof -
  have eq: "ledger_of (issued, n') = (ledger_of (issued, n))
      \<lparr>lg_waiting := (lg_waiting (ledger_of (issued, n)))(p := None, q \<mapsto> ch)\<rparr>"
    using assms by (simp add: ledger_of_def)
  have "ledger_step (ledger_of (issued, n)) (ledger_of (issued, n'))"
    unfolding eq by (rule ledger_step.move) (simp_all add: assms)
  then show ?thesis
    using assms(1) by (simp add: refines_def)
qed

lemma refines_answer:
  assumes "ids_ok V n'" "waiting (nd_svc n) p = Some ch" "kind_of_reply r = kind_of_place p"
    and "waiting (nd_svc n') = (waiting (nd_svc n))(p := None)"
    "nd_replies n' = nd_replies n @ [(ch, r)]"
  shows "refines V (issued, n) (issued, n')"
proof -
  have eq: "ledger_of (issued, n') = (ledger_of (issued, n))
      \<lparr>lg_waiting := (lg_waiting (ledger_of (issued, n)))(p := None),
       lg_replies := lg_replies (ledger_of (issued, n)) @ [(ch, r)]\<rparr>"
    using assms by (simp add: ledger_of_def)
  have "ledger_step (ledger_of (issued, n)) (ledger_of (issued, n'))"
    unfolding eq by (rule ledger_step.answer) (simp_all add: assms)
  then show ?thesis
    using assms(1) by (simp add: refines_def)
qed

text \<open>Commands.\<close>

lemma handle_command_refines:
  assumes ok: "swarm_ok (ev_swarm E) V" and ids: "ids_ok V n"
    and new: "\<And>ch k. command_oneshot c = Some (ch, k) \<Longrightarrow> issued ch = None"
  shows "refines V (issued, n) (issue_command issued c, handle_command E n c)"
proof (cases c)
  case (RequestMetadata req ch)
  obtain q w where q: "kad_get_providers (ev_swarm E) (nd_swarm n) (key_bytes (key_of_u64 (mreq_file_id req))) = (q, w)"
    by (cases "kad_get_providers (ev_swarm E) (nd_swarm n) (key_bytes (key_of_u64 (mreq_file_id req)))")
  note g = swarm_okD(1) [OF ok q]
  show ?thesis
    unfolding RequestMetadata issue_command_def command_oneshot.simps option.case prod.case
  proof (rule refines_issue [where p = "MetadataQuery q"])
    show "ids_ok V (handle_command E n (RequestMetadata req ch))"
      using ids g by (auto simp: handle_command_def q ids_ok_def swarm_grows_def)
    show "issued ch = None" using new [of ch MetadataKind] by (simp add: RequestMetadata)
    show "waiting (nd_svc n) (MetadataQuery q) = None" using waiting_new(1) [OF ids] g by blast
  qed (simp_all add: handle_command_def q waiting_upd)
next
  case (RequestFileChunk req ch)
  have fresh: "issued ch = None" using new [of ch ChunkKind] by (simp add: RequestFileChunk)
  show ?thesis
  proof (cases "enc_chunk_request (ev_libs E) req")
    case (Inl e)
    then show ?thesis
      using refines_refuse [of V n issued ch "ChunkReply None", OF ids fresh]
      by (simp add: RequestFileChunk handle_command_def issue_command_def)
  next
    case (Inr key)
    obtain q w where q: "kad_get_providers (ev_swarm E) (nd_swarm n) key = (q, w)"
      by (cases "kad_get_providers (ev_swarm E) (nd_swarm n) key")
    note g = swarm_okD(1) [OF ok q]
    show ?thesis
      unfolding RequestFileChunk issue_command_def command_oneshot.simps option.case prod.case
    proof (rule refines_issue [where p = "ChunkQuery q"])
      show "ids_ok V (handle_command E n (RequestFileChunk req ch))"
        using ids g by (auto simp: handle_command_def Inr q ids_ok_def swarm_grows_def)
      show "waiting (nd_svc n) (ChunkQuery q) = None" using waiting_new(2) [OF ids] g by blast
    qed (simp_all add: fresh handle_command_def Inr q waiting_upd)
  qed
next
  case (ProvideMetadata m)
  have "quiet V n (handle_command E n c)"
    using provide_metadata_grows(1) [OF ok prod.collapse [symmetric]]
    by (simp add: ProvideMetadata handle_command_def)
  with ids show ?thesis by (simp add: ProvideMetadata issue_command_def quiet_refines)
next
  case (ProvideFileChunk r)
  have "quiet V n (handle_command E n c)"
    using provide_file_chunk_grows(1) [OF ok prod.collapse [symmetric]]
    by (simp add: ProvideFileChunk handle_command_def)
  with ids show ?thesis by (simp add: ProvideFileChunk issue_command_def quiet_refines)
next
  case (FileSearch r tx)
  have "quiet V n (handle_command E n c)"
    using swarm_okD(7) [OF ok, of "nd_swarm n"]
    by (auto simp: FileSearch handle_command_def quiet_def split: option.split sum.split prod.split)
       (metis snd_conv)+
  with ids show ?thesis by (simp add: FileSearch issue_command_def quiet_refines)
next
  case (FileSearchResultCmd p r)
  have "quiet V n (handle_command E n c)"
    by (simp add: FileSearchResultCmd handle_command_def swarm_okD(9) [OF ok])
  with ids show ?thesis by (simp add: FileSearchResultCmd issue_command_def quiet_refines)
next
  case (FileSearchAbort i)
  have "quiet V n (handle_command E n c)"
    by (simp add: FileSearchAbort handle_command_def quiet_def)
  with ids show ?thesis by (simp add: FileSearchAbort issue_command_def quiet_refines)
qed

text \<open>Results of provider queries.\<close>

lemma all_providers_found_refines:
  assumes ok: "swarm_ok (ev_swarm E) V" and ids: "ids_ok V n"
  shows "refines V (issued, n) (issued, handle_all_possible_providers_found E n i)"
proof -
  let ?n' = "handle_all_possible_providers_found E n i"
  let ?pick = "\<lambda>s. choose_random (rn_range (ev_random E)) (rn_order (ev_random E) s)"
  consider (m) d where "metadata_providers_requests (nd_svc n) i = Some d"
    | (c) d where "metadata_providers_requests (nd_svc n) i = None"
        "file_chunk_providers_requests (nd_svc n) i = Some d"
    | (none) "metadata_providers_requests (nd_svc n) i = None"
        "file_chunk_providers_requests (nd_svc n) i = None"
    by (meson not_None_eq)
  then show ?thesis
  proof cases
    case m
    show ?thesis
    proof (cases "?pick (prd_found_providers d)")
      case None
      have n': "?n' = send_oneshot (prd_result d) (MetadataReply None) (n\<lparr>nd_svc := (nd_svc n)
          \<lparr>metadata_providers_requests := (metadata_providers_requests (nd_svc n))(i := None)\<rparr>\<rparr>)"
        by (simp add: handle_all_possible_providers_found_def Let_def m None)
      show ?thesis
        unfolding n'
        by (rule refines_answer [where p = "MetadataQuery i"])
           (use ids in \<open>auto simp: m waiting_upd send_oneshot_def ids_ok_def\<close>)
    next
      case (Some peer)
      obtain j w where j: "send_metadata_request (ev_swarm E) (nd_swarm n) peer (prd_request d) = (j, w)"
        by (cases "send_metadata_request (ev_swarm E) (nd_swarm n) peer (prd_request d)")
      note g = swarm_okD(2) [OF ok j]
      have n': "?n' = n\<lparr>nd_swarm := w, nd_svc := (nd_svc n)
          \<lparr>metadata_providers_requests := (metadata_providers_requests (nd_svc n))(i := None),
           metadata_download_requests := (metadata_download_requests (nd_svc n))(j \<mapsto> prd_result d)\<rparr>\<rparr>"
        by (simp add: handle_all_possible_providers_found_def Let_def m Some j)
      show ?thesis
        unfolding n'
      proof (rule refines_move [where p = "MetadataQuery i" and q = "MetadataSent j" and ch = "prd_result d"])
        show "waiting (nd_svc n) (MetadataSent j) = None" using waiting_new(3) [OF ids] g by blast
        show "ids_ok V (n\<lparr>nd_swarm := w, nd_svc := (nd_svc n)
          \<lparr>metadata_providers_requests := (metadata_providers_requests (nd_svc n))(i := None),
           metadata_download_requests := (metadata_download_requests (nd_svc n))(j \<mapsto> prd_result d)\<rparr>\<rparr>)"
          using ids g by (auto simp: ids_ok_def swarm_grows_def)
      qed (simp_all add: m fun_eq_iff waiting_place split: place.split)
    qed
  next
    case c
    show ?thesis
    proof (cases "?pick (prd_found_providers d)")
      case None
      have n': "?n' = send_oneshot (prd_result d) (ChunkReply None) (n\<lparr>nd_svc := (nd_svc n)
          \<lparr>file_chunk_providers_requests := (file_chunk_providers_requests (nd_svc n))(i := None)\<rparr>\<rparr>)"
        by (simp add: handle_all_possible_providers_found_def Let_def c None)
      show ?thesis
        unfolding n'
        by (rule refines_answer [where p = "ChunkQuery i"])
           (use ids in \<open>auto simp: c waiting_upd send_oneshot_def ids_ok_def\<close>)
    next
      case (Some peer)
      obtain j w where j: "send_chunk_request (ev_swarm E) (nd_swarm n) peer (prd_request d) = (j, w)"
        by (cases "send_chunk_request (ev_swarm E) (nd_swarm n) peer (prd_request d)")
      note g = swarm_okD(3) [OF ok j]
      have n': "?n' = n\<lparr>nd_swarm := w, nd_svc := (nd_svc n)
          \<lparr>file_chunk_providers_requests := (file_chunk_providers_requests (nd_svc n))(i := None),
           file_download_requests := (file_download_requests (nd_svc n))(j \<mapsto> prd_result d)\<rparr>\<rparr>"
        by (simp add: handle_all_possible_providers_found_def Let_def c Some j)
      show ?thesis
        unfolding n'
      proof (rule refines_move [where p = "ChunkQuery i" and q = "ChunkSent j" and ch = "prd_result d"])
        show "waiting (nd_svc n) (ChunkSent j) = None" using waiting_new(4) [OF ids] g by blast
        show "ids_ok V (n\<lparr>nd_swarm := w, nd_svc := (nd_svc n)
          \<lparr>file_chunk_providers_requests := (file_chunk_providers_requests (nd_svc n))(i := None),
           file_download_requests := (file_download_requests (nd_svc n))(j \<mapsto> prd_result d)\<rparr>\<rparr>)"
          using ids g by (auto simp: ids_ok_def swarm_grows_def)
      qed (simp_all add: c fun_eq_iff waiting_place split: place.split)
    qed
  next
    case none
    then show ?thesis
      by (simp add: handle_all_possible_providers_found_def Let_def quiet_refines [OF ids])
  qed
qed

text \<open>New providers change no place.\<close>

lemma found_providers_refines:
  assumes ids: "ids_ok V n"
  shows "refines V (issued, n) (issued, handle_get_metadata_providers_result E n (FoundProviders i ps))"
proof -
  let ?n' = "handle_get_metadata_providers_result E n (FoundProviders i ps)"
  have "waiting (nd_svc ?n') = waiting (nd_svc n)"
  proof
    fix p show "waiting (nd_svc ?n') p = waiting (nd_svc n) p"
      by (cases p)
        (auto simp: handle_get_metadata_providers_result_def Let_def extend_providers_def split: option.split)
  qed
  moreover have "nd_replies ?n' = nd_replies n"
    by (simp add: handle_get_metadata_providers_result_def Let_def split: option.split)
  moreover have "ids_ok V ?n'"
    using ids by (auto simp: handle_get_metadata_providers_result_def Let_def ids_ok_def split: option.split)
  ultimately show ?thesis
    by (simp add: refines_def ledger_of_def ledger_step.stay)
qed

lemma kademlia_refines:
  assumes "swarm_ok (ev_swarm E) V" "ids_ok V n"
  shows "refines V (issued, n) (issued, kademlia E n e)"
  using found_providers_refines [OF assms(2)] all_providers_found_refines [OF assms]
  by (cases e) (simp_all add: kademlia_def handle_get_metadata_providers_result_def quiet_refines assms)

text \<open>Responses to the requests that were sent.\<close>

lemma metadata_download_refines:
  assumes ok: "swarm_ok (ev_swarm E) V" and ids: "ids_ok V n"
  shows "refines V (issued, n) (issued, metadata_download E n e)"
proof (cases e)
  case (Request req ch)
  then show ?thesis
    by (simp add: metadata_download_def quiet_refines [OF ids] quiet_events(5) [OF ok])
next
  case (Response i resp)
  show ?thesis
  proof (cases "metadata_download_requests (nd_svc n) i")
    case None
    then show ?thesis by (simp add: Response metadata_download_def quiet_refines [OF ids])
  next
    case (Some ch)
    let ?svc = "(nd_svc n)\<lparr>metadata_download_requests := (metadata_download_requests (nd_svc n))(i := None)\<rparr>"
    have "\<exists>x. metadata_download E n e = send_oneshot ch (MetadataReply x) (n\<lparr>nd_svc := ?svc\<rparr>)"
      by (auto simp: Response Some metadata_download_def handle_metadata_download_response_def
        split: sum.split FileResponse.split)
    then obtain x where "metadata_download E n e = send_oneshot ch (MetadataReply x) (n\<lparr>nd_svc := ?svc\<rparr>)"
      by blast
    then show ?thesis
      by (intro refines_answer [where p = "MetadataSent i" and r = "MetadataReply x" and ch = ch])
         (use ids Some in \<open>auto simp: waiting_upd send_oneshot_def ids_ok_def\<close>)
  qed
next
  case OtherRr
  then show ?thesis by (simp add: metadata_download_def quiet_refines [OF ids])
qed

lemma file_download_refines:
  assumes ok: "swarm_ok (ev_swarm E) V" and ids: "ids_ok V n"
  shows "refines V (issued, n) (issued, file_download E n e)"
proof (cases e)
  case (Request req ch)
  then show ?thesis
    by (simp add: file_download_def quiet_refines [OF ids] quiet_events(5) [OF ok])
next
  case (Response i resp)
  show ?thesis
  proof (cases "file_download_requests (nd_svc n) i")
    case None
    then show ?thesis by (simp add: Response file_download_def quiet_refines [OF ids])
  next
    case (Some ch)
    let ?svc = "(nd_svc n)\<lparr>file_download_requests := (file_download_requests (nd_svc n))(i := None)\<rparr>"
    have "file_download E n e = send_oneshot ch (ChunkReply (Some resp)) (n\<lparr>nd_svc := ?svc\<rparr>)"
      by (simp add: Response Some file_download_def handle_file_download_response_def)
    then show ?thesis
      by (intro refines_answer [where p = "ChunkSent i" and r = "ChunkReply (Some resp)" and ch = ch])
         (use ids Some in \<open>auto simp: waiting_upd send_oneshot_def ids_ok_def\<close>)
  qed
next
  case OtherRr
  then show ?thesis by (simp add: file_download_def quiet_refines [OF ids])
qed

lemma swarm_event_refines:
  assumes "swarm_ok (ev_swarm E) V" "ids_ok V n"
  shows "refines V (issued, n) (issued, handle_swarm_event E n e)"
  by (cases e) (simp_all add: handle_swarm_event_def quiet_refines [OF assms(2)]
      quiet_events [OF assms(1)] kademlia_refines [OF assms] file_download_refines [OF assms]
      metadata_download_refines [OF assms])

lemma node_step_refines:
  assumes "node_step E V s s'" "swarm_ok (ev_swarm E) V" "ids_ok V (snd s)"
  shows "refines V s s'"
  using assms(1)
proof cases
  case (command c issued n)
  then show ?thesis using handle_command_refines [OF assms(2)] assms(3) by simp
next
  case (event issued n ev)
  then show ?thesis using swarm_event_refines [OF assms(2)] assms(3) by simp
next
  case (publish n r n' issued)
  then have "quiet V n n'"
    using file_publish_grows [OF assms(2) publish(3)] by (simp add: quiet_def)
  then show ?thesis using publish assms(3) by (simp add: quiet_refines)
next
  case (poll n w issued)
  then show ?thesis using assms(3) by (simp add: quiet_refines)
next
  case (outside issued n t fs)
  then show ?thesis using assms(3) by (simp add: quiet_refines quiet_def)
qed

lemma reachable_inv:
  assumes "reachable E V s" "swarm_ok (ev_swarm E) V"
  shows "ids_ok V (snd s) \<and> ledger_inv (ledger_of s)"
  using assms(1)
proof induction
  case (start n config)
  have "waiting (EventService_new config) = Map.empty"
    by (rule ext, rename_tac p, case_tac p) (simp_all add: EventService_new_def)
  then show ?case
    using start by (simp add: ids_ok_def EventService_new_def ledger_of_def ledger_inv_def)
next
  case (step s s')
  then show ?case
    using node_step_refines [OF step(2) assms(2)] ledger_step_inv unfolding refines_def by blast
qed

end
