(* ===== verification/P2p_Events_Correct.thy ===== *)
theory P2p_Events_Correct
  imports Reply_Ledger File_Store_Correct Chunking_Correct
begin

text \<open>
  Lemmas on the parts of the event service: what is served from the disk, which files a search
  finds, which provider is asked, and the two loops of \<open>file_publish\<close> on the file store.
\<close>

section \<open>Serving\<close>

lemma published_metadata_on_disk:
  assumes "process_file M L fs rsize rfault file_path public = (Inr m, fs')" "healthy fs"
  obtains b where "enc_metadata L m = Inr b"
    "fs_nodes fs' (metadata_path (md_chunks_dir m)) = Some (FileNode b)"
proof -
  from assms(1) obtain fs1 content where 1: "fs_create_dir_all fs (md_chunks_dir m) = (Inr (), fs1)"
    and 2: "save_metadata L (fs1\<lparr>fs_nodes := put_chunks (fs_nodes fs1) (md_chunks_dir m) 0
        (chunks_of CHUNK_SIZE content)\<rparr>) m = (Inr m, fs')"
    by (auto elim!: process_file_Inr)
  have "healthy fs1"
    using assms(2) fs_create_dir_all_frame [OF 1] by (simp add: healthy_def)
  with save_metadata_Inr(1) [OF 2] that show ?thesis by auto
qed

text \<open>The bytes of a chunk are served only as the metadata on the disk describes them.\<close>

lemma read_chunk_Success:
  "read_chunk fs i dir ext = Success b \<longleftrightarrow> fs_read fs (chunk_path dir i ext) = Inr b"
  by (auto simp: read_chunk_def split: sum.splits)

lemma get_from_chunks_Success:
  assumes "get_from_chunks L fs i dir = Success b"
  obtains c m where "fs_read fs (metadata_path dir) = Inr c" "dec_metadata L c = Inr m"
    "i < md_total_chunks m"
    "fs_read fs (chunk_path (md_chunks_dir m) i (md_chunk_file_extension m)) = Inr b"
proof (cases "fs_read fs (metadata_path dir)")
  case (Inl e)
  with assms show ?thesis by (simp add: get_from_chunks_def)
next
  case c: (Inr c)
  show ?thesis
  proof (cases "dec_metadata L c")
    case (Inl e)
    with c assms show ?thesis by (simp add: get_from_chunks_def)
  next
    case (Inr m)
    with c assms have "i < md_total_chunks m"
      "read_chunk fs i (md_chunks_dir m) (md_chunk_file_extension m) = Success b"
      by (simp_all add: get_from_chunks_def split: if_splits)
    then show ?thesis using that [OF c Inr] by (simp add: read_chunk_Success)
  qed
qed

lemma get_from_chunks_healthy:
  assumes "healthy fs" "fs_nodes fs (metadata_path dir) = Some (FileNode c)" "dec_metadata L c = Inr m"
    and "CHR ''/'' \<notin> set (md_chunk_file_extension m)"
  shows "i < md_total_chunks m \<Longrightarrow>
      fs_nodes fs (chunk_path (md_chunks_dir m) i (md_chunk_file_extension m)) = Some (FileNode b) \<Longrightarrow>
      get_from_chunks L fs i dir = Success b"
    and "md_total_chunks m \<le> i \<Longrightarrow>
      get_from_chunks L fs i dir = Error (''incorrect chunk number: '' @ show_nat i)"
proof -
  have c: "fs_read fs (metadata_path dir) = Inr c"
    using assms(1,2) by (simp add: fs_read_healthy)
  show "get_from_chunks L fs i dir = Success b" if "i < md_total_chunks m"
    "fs_nodes fs (chunk_path (md_chunks_dir m) i (md_chunk_file_extension m)) = Some (FileNode b)"
  proof -
    have "components (chunk_path (md_chunks_dir m) i (md_chunk_file_extension m)) \<noteq> []"
      using assms(4) by (simp add: components_chunk_path)
    then have "fs_read fs (chunk_path (md_chunks_dir m) i (md_chunk_file_extension m)) = Inr b"
      using assms(1) that(2) by (simp add: fs_read_healthy)
    with c assms(3) that(1) show ?thesis by (simp add: get_from_chunks_def read_chunk_def)
  qed
  show "md_total_chunks m \<le> i \<Longrightarrow>
      get_from_chunks L fs i dir = Error (''incorrect chunk number: '' @ show_nat i)"
    using c assms(3) by (simp add: get_from_chunks_def)
qed

lemma published_chunk_response:
  assumes "libs_ok (ev_libs E)" "healthy fs"
    and "process_file M (ev_libs E) fs rsize rfault file_path public = (Inr m, fs1)"
    and "fs_read fs (path_of_string file_path) = Inr content"
    and "get_published_file (ev_store E) s (key_of_u64 file_id) =
      Inr (Some (published_of_metadata (ev_libs E) m))"
  shows "chunk_response E fs1 s \<lparr>creq_file_id = file_id, creq_chunk_id = i\<rparr> =
      (if i < length (chunks_of CHUNK_SIZE content) then Success (chunks_of CHUNK_SIZE content ! i)
       else Error (''incorrect chunk number: '' @ show_nat i))"
proof -
  have h: "healthy fs1" by (rule process_file_stays_healthy [OF assms(3,2)])
  obtain b where b: "enc_metadata (ev_libs E) m = Inr b"
    "fs_nodes fs1 (metadata_path (md_chunks_dir m)) = Some (FileNode b)"
    by (rule published_metadata_on_disk [OF assms(3,2)])
  have dec: "dec_metadata (ev_libs E) b = Inr m" by (rule libs_okD(1) [OF assms(1) b(1)])
  have ext: "md_chunk_file_extension m = FILE_CHUNK_EXTENSION"
    and n: "md_total_chunks m = length (chunks_of CHUNK_SIZE content)"
    using assms(3,4) by (auto elim!: process_file_Inr)
  show ?thesis
  proof (cases "i < md_total_chunks m")
    case True
    have "fs_nodes fs1 (chunk_path (md_chunks_dir m) i (md_chunk_file_extension m)) =
        Some (FileNode (chunks_of CHUNK_SIZE content ! i))"
      unfolding ext by (rule process_file_files(2) [OF assms(3,4) True])
    then show ?thesis
      using assms(5) get_from_chunks_healthy(1) [OF h b(2) dec _ True] True
      by (simp add: chunk_response_def ext n)
  next
    case False
    then show ?thesis
      using assms(5) get_from_chunks_healthy(2) [OF h b(2) dec, of i]
      by (simp add: chunk_response_def ext n)
  qed
qed

section \<open>Searching\<close>

definition matches :: "(string \<Rightarrow> string) \<Rightarrow> FileSearchRequest \<Rightarrow> PublishedFileRecord \<Rightarrow> bool" where
  "matches low request rec \<longleftrightarrow>
     pub_public rec \<and> sublist (low (sreq_search_value request)) (low (pub_original_file_name rec))"

definition found_command :: "PeerId \<Rightarrow> FileSearchRequest \<Rightarrow> PublishedFileRecord \<Rightarrow> P2pCommand" where
  "found_command src request rec =
     FileSearchResultCmd src
       \<lparr>res_session_id = sreq_session_id request,
        res_file_found = \<lparr>found_file_id = u64_of_key (pub_key rec),
                          found_file_name = pub_original_file_name rec\<rparr>\<rparr>"

text \<open>The specification of a search: filter the records before the first error of the stream.\<close>

definition search_spec :: "(string \<Rightarrow> string) \<Rightarrow> PeerId \<Rightarrow> FileSearchRequest
    \<Rightarrow> (FileStoreError + PublishedFileRecord) list \<Rightarrow> P2pCommand list" where
  "search_spec low src request items =
     map (found_command src request)
       (filter (matches low request) (map projr (takeWhile (\<lambda>i. \<not> isl i) items)))"

lemma file_search_loop_spec:
  "file_search_loop low src request room items =
     (case room of None \<Rightarrow> search_spec low src request items
      | Some k \<Rightarrow> take k (search_spec low src request items))"
proof (induction items arbitrary: room)
  case (Cons i items)
  show ?case
  proof (cases i)
    case (Inl e)
    then show ?thesis by (simp add: search_spec_def split: option.split)
  next
    case (Inr rec)
    have split: "search_spec low src request (i # items) =
      (if matches low request rec
       then found_command src request rec # search_spec low src request items
       else search_spec low src request items)"
      by (simp add: search_spec_def Inr)
    show ?thesis
      unfolding split using Cons.IH
      by (cases room; cases "the room")
         (auto simp: Inr matches_def found_command_def split: option.split)
  qed
qed (simp add: search_spec_def split: option.split)

section \<open>Choosing a provider\<close>

lemma choose_random_Some:
  assumes "random_ok N" "s \<noteq> {||}"
  obtains p where "choose_random (rn_range N) (rn_order N s) = Some p" "p |\<in>| s"
proof -
  let ?xs = "rn_order N s"
  have xs: "set ?xs = fset s" "?xs \<noteq> []"
    using assms unfolding random_ok_def by (metis, metis bot_fset.rep_eq fset_inject set_empty)
  show ?thesis
  proof (cases "length ?xs = 1")
    case True
    then have "choose_random (rn_range N) ?xs = Some (?xs ! 0)" "?xs ! 0 \<in> set ?xs"
      by (simp_all add: choose_random_def nth_opt_def)
    then show ?thesis using that xs(1) by simp
  next
    case False
    have "rn_range N (length ?xs) < length ?xs"
      using assms(1) xs(2) unfolding random_ok_def by simp
    then have "choose_random (rn_range N) ?xs = Some (?xs ! rn_range N (length ?xs))"
      "?xs ! rn_range N (length ?xs) \<in> set ?xs"
      using False xs(2) by (simp_all add: choose_random_def nth_opt_def)
    then show ?thesis using that xs(1) by simp
  qed
qed

lemma choose_random_empty:
  assumes "random_ok N"
  shows "choose_random (rn_range N) (rn_order N {||}) = None"
proof -
  have "rn_order N {||} = []"
    using assms unfolding random_ok_def by (metis bot_fset.rep_eq set_empty)
  then show ?thesis by (simp add: choose_random_def)
qed

section \<open>Publishing\<close>

lemma add_published_file_rocks:
  assumes "rocks_inv L R c s" "add_published_file E s m = Some s'"
    and "ev_store E = rocks_store L R" "ev_libs E = L"
  shows "rocks_inv L R c s' \<and>
    rocks_published L c s' = (rocks_published L c s)(PublishedFileKey (metadata_key L m) \<mapsto> published_of_metadata L m) \<and>
    rocks_pending L c s' = rocks_pending L c s \<and> rocks_jobs L c s' = rocks_jobs L c s"
proof -
  let ?r = "published_of_metadata L m" and ?k = "PublishedFileKey (metadata_key L m)"
  let ?P = "\<lambda>t. rocks_inv L R c t \<and>
    (rocks_published L c t = rocks_published L c s \<or> rocks_published L c t = (rocks_published L c s)(?k \<mapsto> ?r)) \<and>
    rocks_pending L c t = rocks_pending L c s \<and> rocks_jobs L c t = rocks_jobs L c s"
  have run: "retry (\<lambda>s. put_published_file (rocks_store L R) s ?r) s = Some s'"
    using assms(2-4) by (simp add: add_published_file_def)
  show ?thesis
  proof (rule retry_inv [OF run, where P = ?P])
    show "?P s" using assms(1) by simp
    show "?P y" if "?P x" "put_published_file (rocks_store L R) x ?r = (Inl e, y)" for x e y
    proof -
      have i: "rocks_inv L R c x" using that(1) by blast
      have "rocks_published L c y = rocks_published L c x \<or>
          rocks_published L c y = (rocks_published L c x)(?k \<mapsto> ?r)"
        using rocks.published.put_err [OF i that(2)] by simp
      then have "rocks_published L c y = rocks_published L c s \<or>
          rocks_published L c y = (rocks_published L c s)(?k \<mapsto> ?r)"
        using that(1) by (elim conjE disjE) simp_all
      then show ?thesis
        using that(1) rocks.published.put_inv [OF i that(2)] rocks.published_frame [OF i that(2)] by simp
    qed
    show "rocks_inv L R c y \<and> rocks_published L c y = (rocks_published L c s)(?k \<mapsto> ?r) \<and>
      rocks_pending L c y = rocks_pending L c s \<and> rocks_jobs L c y = rocks_jobs L c s"
      if "?P x" "put_published_file (rocks_store L R) x ?r = (Inr u, y)" for x u y
    proof -
      have i: "rocks_inv L R c x" using that(1) by blast
      have "rocks_published L c y = (rocks_published L c x)(?k \<mapsto> ?r)"
        using rocks.published.put_ok [OF i that(2)] by simp
      then have "rocks_published L c y = (rocks_published L c s)(?k \<mapsto> ?r)"
        using that(1) by (elim conjE disjE) simp_all
      then show ?thesis
        using that(1) rocks.published.put_inv [OF i that(2)] rocks.published_frame [OF i that(2)] by simp
    qed
  qed
qed

lemma delete_published_job_rocks:
  assumes "rocks_inv L R c s" "delete_published_job E s k = Some s'"
    and "ev_store E = rocks_store L R"
  shows "rocks_inv L R c s' \<and> rocks_jobs L c s' = (rocks_jobs L c s)(PublishedFileKey k := None) \<and>
    rocks_published L c s' = rocks_published L c s \<and> rocks_pending L c s' = rocks_pending L c s"
proof -
  let ?P = "\<lambda>t. rocks_inv L R c t \<and>
    (rocks_jobs L c t = rocks_jobs L c s \<or> rocks_jobs L c t = (rocks_jobs L c s)(PublishedFileKey k := None)) \<and>
    rocks_published L c t = rocks_published L c s \<and> rocks_pending L c t = rocks_pending L c s"
  have run: "retry (\<lambda>s. delete_file_metadata (rocks_store L R) s k) s = Some s'"
    using assms(2,3) by (simp add: delete_published_job_def)
  show ?thesis
  proof (rule retry_inv [OF run, where P = ?P])
    show "?P s" using assms(1) by simp
    show "?P y" if "?P x" "delete_file_metadata (rocks_store L R) x k = (Inl e, y)" for x e y
    proof -
      have i: "rocks_inv L R c x" using that(1) by blast
      have "rocks_jobs L c y = rocks_jobs L c s \<or> rocks_jobs L c y = (rocks_jobs L c s)(PublishedFileKey k := None)"
        using rocks.jobs.del_err [OF i that(2)] that(1) by (elim conjE disjE) simp_all
      then show ?thesis
        using that(1) rocks.jobs.del_inv [OF i that(2)] rocks.jobs_del_frame [OF i that(2)] by simp
    qed
    show "rocks_inv L R c y \<and> rocks_jobs L c y = (rocks_jobs L c s)(PublishedFileKey k := None) \<and>
      rocks_published L c y = rocks_published L c s \<and> rocks_pending L c y = rocks_pending L c s"
      if "?P x" "delete_file_metadata (rocks_store L R) x k = (Inr u, y)" for x u y
    proof -
      have i: "rocks_inv L R c x" using that(1) by blast
      have "rocks_jobs L c y = (rocks_jobs L c s)(PublishedFileKey k := None)"
        using rocks.jobs.del_ok [OF i that(2)] that(1) by (elim conjE disjE) simp_all
      then show ?thesis
        using that(1) rocks.jobs.del_inv [OF i that(2)] rocks.jobs_del_frame [OF i that(2)] by simp
    qed
  qed
qed

lemma file_publish_Some:
  assumes "file_publish E n (Inr m) = Some n'"
  obtains w s1 s2 where "retry (\<lambda>w. provide_all E w m) (nd_swarm n) = Some w"
    "add_published_file E (nd_store n) m = Some s1"
    "delete_published_job E s1 (metadata_key (ev_libs E) m) = Some s2"
    "n' = n\<lparr>nd_swarm := w, nd_store := s2\<rparr>"
  using assms by (auto simp: file_publish_def split: option.splits)

text \<open>After the publication the store finds the record.\<close>

lemma file_publish_published:
  assumes "file_publish E n (Inr m) = Some n'" "ev_store E = rocks_store L R" "ev_libs E = L"
    and "rocks_inv L R c (nd_store n)"
    and "get_published_file (ev_store E) (nd_store n') (PublishedFileKey (metadata_key L m)) = Inr v"
  shows "v = Some (published_of_metadata L m)"
proof (rule file_publish_Some [OF assms(1)])
  fix w s1 s2
  assume a: "add_published_file E (nd_store n) m = Some s1"
    and d: "delete_published_job E s1 (metadata_key (ev_libs E) m) = Some s2"
    and n': "n' = n\<lparr>nd_swarm := w, nd_store := s2\<rparr>"
  note A = add_published_file_rocks [OF assms(4) a assms(2,3)]
  have "rocks_inv L R c s1" using A by blast
  note D = delete_published_job_rocks [OF this d assms(2)]
  have inv: "rocks_inv L R c (nd_store n')"
    and pub: "rocks_published L c (nd_store n') (PublishedFileKey (metadata_key L m)) = Some (published_of_metadata L m)"
    using A D by (simp_all add: n')
  from rocks.published.get_lookup [OF inv] assms(2,5) pub show ?thesis by simp
qed

text \<open>An attempt that can only fail is repeated for ever.\<close>

lemma retry_never:
  assumes "P a" "\<And>x. P x \<Longrightarrow> \<exists>e y. attempt x = (Inl e, y) \<and> P y"
  shows "retry attempt a = None"
proof (rule ccontr)
  assume "retry attempt a \<noteq> None"
  then obtain b where run: "retry attempt a = Some b" by blast
  have "False"
  proof (rule retry_inv [OF run, where P = P and Q = "\<lambda>_. False"])
    show "P a" by (rule assms)
    show "P y" if "P x" "attempt x = (Inl e, y)" for x e y
      using assms(2) [OF that(1)] that(2) by auto
    show False if "P x" "attempt x = (Inr u, y)" for x u y
      using assms(2) [OF that(1)] that(2) by auto
  qed
  then show False .
qed

text \<open>
  The record store of a node is bounded: in a state that is \<open>ok\<close> it holds at most \<open>cap\<close>
  records, and the calls of the event loop keep it so and remove nothing.
\<close>

definition bounded_records :: "'sw SwarmOps \<Rightarrow> ('sw \<Rightarrow> bool) \<Rightarrow> ('sw \<Rightarrow> bytes set) \<Rightarrow> nat \<Rightarrow> bool" where
  "bounded_records W ok recs cap \<longleftrightarrow>
     (\<forall>w. ok w \<longrightarrow> finite (recs w) \<and> card (recs w) \<le> cap) \<and>
     (\<forall>w k b r w'. ok w \<and> kad_put_record W w k b = (r, w') \<longrightarrow>
        ok w' \<and> recs w \<subseteq> recs w' \<and> (r = Inr () \<longrightarrow> k \<in> recs w')) \<and>
     (\<forall>w k r w'. ok w \<and> kad_start_providing W w k = (r, w') \<longrightarrow> ok w' \<and> recs w \<subseteq> recs w')"

lemma bounded_recordsD:
  assumes "bounded_records W ok recs cap" "ok w"
  shows "finite (recs w)" "card (recs w) \<le> cap"
    and "kad_put_record W w k b = (r, w') \<Longrightarrow> ok w' \<and> recs w \<subseteq> recs w' \<and> (r = Inr () \<longrightarrow> k \<in> recs w')"
    and "kad_start_providing W w k = (r, w') \<Longrightarrow> ok w' \<and> recs w \<subseteq> recs w'"
proof -
  note D = assms(1) [unfolded bounded_records_def]
  show "finite (recs w)" "card (recs w) \<le> cap"
    using conjunct1 [OF D] assms(2) by simp_all
  show "kad_put_record W w k b = (r, w') \<Longrightarrow> ok w' \<and> recs w \<subseteq> recs w' \<and> (r = Inr () \<longrightarrow> k \<in> recs w')"
    by (rule conjunct1 [OF conjunct2 [OF D], rule_format]) (simp add: assms(2))
  show "kad_start_providing W w k = (r, w') \<Longrightarrow> ok w' \<and> recs w \<subseteq> recs w'"
    by (rule conjunct2 [OF conjunct2 [OF D], rule_format]) (simp add: assms(2))
qed

lemma provide_file_chunk_records:
  assumes "bounded_records (ev_swarm E) ok recs cap" "ok w" "provide_file_chunk E w q = (r, w')"
  shows "ok w' \<and> recs w \<subseteq> recs w' \<and>
    (r = Inr () \<longrightarrow> (\<exists>k. enc_chunk_request (ev_libs E) q = Inr k \<and> k \<in> recs w'))"
proof (cases "enc_chunk_request (ev_libs E) q")
  case (Inl e)
  with assms show ?thesis by (auto simp: provide_file_chunk_def)
next
  case (Inr k)
  obtain x v where x: "kad_put_record (ev_swarm E) w k k = (x, v)" by fastforce
  obtain y u where y: "kad_start_providing (ev_swarm E) v k = (y, u)" by fastforce
  note put = bounded_recordsD(3) [OF assms(1,2) x]
  note prov = bounded_recordsD(4) [OF assms(1) conjunct1 [OF put] y]
  show ?thesis
    using assms(3) put prov Inr x y by (auto simp: provide_file_chunk_def split: sum.splits)
qed

lemma provide_metadata_records:
  assumes "bounded_records (ev_swarm E) ok recs cap" "ok w" "provide_metadata E w m = (r, w')"
  shows "ok w'"
proof (cases "enc_published_file (ev_libs E)
    \<lparr>pf_total_chunks = md_total_chunks m, pf_merkle_root = md_merkle_root m\<rparr>")
  case (Inl e)
  with assms show ?thesis by (auto simp: provide_metadata_def)
next
  case (Inr b)
  let ?k = "metadata_key (ev_libs E) m"
  obtain x v where x: "kad_put_record (ev_swarm E) w ?k b = (x, v)" by fastforce
  obtain y u where y: "kad_start_providing (ev_swarm E) v ?k = (y, u)" by fastforce
  note put = bounded_recordsD(3) [OF assms(1,2) x]
  note prov = bounded_recordsD(4) [OF assms(1) conjunct1 [OF put] y]
  show ?thesis
    using assms(3) put prov Inr x y by (auto simp: provide_metadata_def Let_def split: sum.splits)
qed

lemma provide_chunks_records:
  assumes "bounded_records (ev_swarm E) ok recs cap" "ok w"
  shows "provide_chunks E w f ids = (r, w') \<Longrightarrow> ok w' \<and> recs w \<subseteq> recs w' \<and>
    (r = Inr () \<longrightarrow> (\<forall>i\<in>set ids.
      \<exists>k. enc_chunk_request (ev_libs E) \<lparr>creq_file_id = f, creq_chunk_id = i\<rparr> = Inr k \<and> k \<in> recs w'))"
  using assms(2)
proof (induction ids arbitrary: w)
  case (Cons i ids)
  obtain x w1 where p: "provide_file_chunk E w \<lparr>creq_file_id = f, creq_chunk_id = i\<rparr> = (x, w1)"
    by fastforce
  note g = provide_file_chunk_records [OF assms(1) Cons.prems(2) p]
  show ?case
  proof (cases x)
    case (Inl e)
    with Cons.prems p g show ?thesis by auto
  next
    case (Inr u)
    with Cons.prems p have "provide_chunks E w1 f ids = (r, w')" by simp
    from Cons.IH [OF this] g Inr show ?thesis by auto
  qed
qed simp

text \<open>So a file with more chunks than records is not provided, whatever the node holds already.\<close>

lemma provide_all_too_large:
  assumes b: "bounded_records (ev_swarm E) ok recs cap" and "ok w" and "cap < md_total_chunks m"
    and keys: "inj_on (\<lambda>i. enc_chunk_request (ev_libs E)
      \<lparr>creq_file_id = u64_of_key (PublishedFileKey (metadata_key (ev_libs E) m)), creq_chunk_id = i\<rparr>)
      {..<md_total_chunks m}"
  shows "\<exists>e w'. provide_all E w m = (Inl e, w') \<and> ok w'"
proof -
  let ?f = "u64_of_key (PublishedFileKey (metadata_key (ev_libs E) m))"
  let ?key = "\<lambda>i. enc_chunk_request (ev_libs E) \<lparr>creq_file_id = ?f, creq_chunk_id = i\<rparr>"
  obtain x w1 where x: "provide_metadata E w m = (x, w1)" by fastforce
  have ok1: "ok w1" by (rule provide_metadata_records [OF b assms(2) x])
  show ?thesis
  proof (cases x)
    case (Inl e)
    with x ok1 show ?thesis by (simp add: provide_all_def)
  next
    case (Inr u)
    obtain r w' where r: "provide_chunks E w1 ?f [0..<md_total_chunks m] = (r, w')" by fastforce
    note recs = provide_chunks_records [OF b ok1 r]
    have "r \<noteq> Inr ()"
    proof
      assume "r = Inr ()"
      with recs have all: "\<exists>k. ?key i = Inr k \<and> k \<in> recs w'" if "i < md_total_chunks m" for i
        using that by simp
      have "?key ` {..<md_total_chunks m} \<subseteq> Inr ` recs w'"
        using all by force
      moreover have "finite (recs w')" "card (recs w') \<le> cap"
        using bounded_recordsD(1,2) [OF b] recs by blast+
      ultimately have "card (?key ` {..<md_total_chunks m}) \<le> cap"
        by (metis card_image_le card_mono finite_imageI order_trans)
      with keys assms(3) show False by (simp add: card_image)
    qed
    then obtain e where "r = Inl e" by (cases r) auto
    with x Inr r recs show ?thesis by (simp add: provide_all_def Let_def)
  qed
qed

end
