(* ===== verification/Sample_Node.thy ===== *)
theory Sample_Node
  imports P2p_Events_Correct Sample_Store
begin

text \<open>
  A concrete swarm and node, used only to evaluate the theorems at an input. The swarm counts its
  identifiers, remembers what it provides and keeps at most \<open>capacity\<close> records, as the memory
  store of \<open>libp2p\<close> does.
\<close>

record toy_swarm =
  toy_next :: nat
  toy_records :: "bytes list"
  toy_provided :: "bytes list"
  toy_sent :: "(ResponseChannel \<times> FileResponse) list"

definition fresh_id :: "toy_swarm \<Rightarrow> nat \<times> toy_swarm" where
  "fresh_id w = (toy_next w, w\<lparr>toy_next := Suc (toy_next w)\<rparr>)"

definition toy_ops :: "nat \<Rightarrow> toy_swarm SwarmOps" where
  "toy_ops capacity =
     \<lparr>kad_get_providers = (\<lambda>w k. fresh_id w),
      kad_put_record = (\<lambda>w k b.
        if k \<in> set (toy_records w) \<or> length (toy_records w) < capacity
        then (Inr (), w\<lparr>toy_records := List.insert k (toy_records w)\<rparr>)
        else (Inl ''MaxRecords'', w)),
      kad_start_providing = (\<lambda>w k. (Inr (), w\<lparr>toy_provided := List.insert k (toy_provided w)\<rparr>)),
      kad_add_address = (\<lambda>w p a. w),
      gossip_publish = (\<lambda>w t b. (Inr (), w)),
      gossip_add_explicit_peer = (\<lambda>w p. w),
      topic_hash = (\<lambda>t. t),
      send_metadata_request = (\<lambda>w p q. fresh_id w),
      send_chunk_request = (\<lambda>w p q. fresh_id w),
      send_search_result = (\<lambda>w p r. fresh_id w),
      send_response = (\<lambda>w c r. (Inr (), w\<lparr>toy_sent := toy_sent w @ [(c, r)]\<rparr>)),
      send_unit_response = (\<lambda>w c. (Inr (), w)),
      add_peer_address = (\<lambda>w p a. w),
      with_p2p = (\<lambda>a p. Some (a @ [P2p p])),
      listen_on = (\<lambda>w a. (Inr (), w)),
      hop_protocol_name = ''/libp2p/circuit/relay/0.2.0/hop''\<rparr>"

definition toy_view :: "toy_swarm swarm_view" where
  "toy_view = \<lparr>queries = (\<lambda>w. {..<toy_next w}), meta_requests = (\<lambda>w. {..<toy_next w}),
     chunk_requests = (\<lambda>w. {..<toy_next w}), provided = (\<lambda>w. set (toy_provided w))\<rparr>"

lemma toy_swarm_ok [simp]: "swarm_ok (toy_ops k) toy_view"
  by (auto simp: swarm_ok_def toy_ops_def toy_view_def fresh_id_def swarm_grows_def)

definition toy_random :: random where
  "toy_random = \<lparr>rn_order = sorted_list_of_fset, rn_range = (\<lambda>n. 0)\<rparr>"

lemma toy_random_ok [simp]: "random_ok toy_random"
  by (simp add: random_ok_def toy_random_def sorted_list_of_fset.rep_eq)

definition toy_env :: "nat \<Rightarrow> (toy_swarm, trees) env" where
  "toy_env k =
     \<lparr>ev_swarm = toy_ops k, ev_store = rocks_store sample_codec sample_db, ev_libs = sample_codec,
      ev_random = toy_random, tx_closed = (\<lambda>_. False), lower = (\<lambda>s. s)\<rparr>"

definition toy_node :: "trees \<Rightarrow> (toy_swarm, trees) node" where
  "toy_node s =
     \<lparr>nd_swarm = \<lparr>toy_next = 0, toy_records = [], toy_provided = [], toy_sent = []\<rparr>,
      nd_store = s, nd_fs = sample_fs Map.empty,
      nd_svc = EventService_new (P2pServiceConfig_default\<lparr>cfg_file_search_topic := Some ''dfs''\<rparr>),
      nd_replies = [], nd_found = [], nd_tasks = []\<rparr>"

lemma toy_env_simps [simp]:
  "ev_swarm (toy_env k) = toy_ops k" "ev_store (toy_env k) = rocks_store sample_codec sample_db"
  "ev_libs (toy_env k) = sample_codec" "ev_random (toy_env k) = toy_random"
  "tx_closed (toy_env k) tx = False" "lower (toy_env k) s = s"
  by (simp_all add: toy_env_def)

lemma toy_node_simps [simp]:
  "nd_store (toy_node s) = s" "nd_replies (toy_node s) = []" "nd_found (toy_node s) = []"
  by (simp_all add: toy_node_def)

end
