(* ===== verification/P2p_Events_Props.thy ===== *)
theory P2p_Events_Props
  imports Sample_Node Chunking_Props
begin

text \<open>The properties of the event service.\<close>

section \<open>Requests and their answers\<close>

text \<open>
  Claim C5. In every reachable state, under every interleaving of commands, swarm events,
  publications and changes by other tasks, each oneshot channel that came with a request either
  waits at exactly one place of the event service and has no answer, or it waits nowhere and has
  been answered exactly once, with an answer of the kind that was asked for. No answer goes to a
  channel that was never handed in.
\<close>

theorem requests_answered_at_most_once:
  assumes "reachable E V (issued, n)" "swarm_ok (ev_swarm E) V"
  shows "(\<forall>ch k. issued ch = Some k \<longrightarrow>
      ((\<exists>!p. waiting (nd_svc n) p = Some ch) \<and> ch \<notin> fst ` set (nd_replies n)) \<or>
      ((\<forall>p. waiting (nd_svc n) p \<noteq> Some ch) \<and>
       (\<exists>!r. (ch, r) \<in> set (nd_replies n)))) \<and>
    distinct (map fst (nd_replies n)) \<and>
    (\<forall>(ch, r)\<in>set (nd_replies n). issued ch = Some (kind_of_reply r)) \<and>
    (\<forall>p ch. waiting (nd_svc n) p = Some ch \<longrightarrow> issued ch = Some (kind_of_place p))"
proof -
  have "ledger_inv (ledger_of (issued, n))" using reachable_inv [OF assms] by simp
  note inv = ledger_invD [OF this, unfolded ledger_of_simps]
  have "((\<exists>!p. waiting (nd_svc n) p = Some ch) \<and> ch \<notin> fst ` set (nd_replies n)) \<or>
      ((\<forall>p. waiting (nd_svc n) p \<noteq> Some ch) \<and>
       (\<exists>!r. (ch, r) \<in> set (nd_replies n)))"
    if "issued ch = Some k" for ch k
  proof (cases "\<exists>p. waiting (nd_svc n) p = Some ch")
    case True
    then show ?thesis using inv(1,3) by (auto simp: image_iff)
  next
    case False
    then obtain r where r: "(ch, r) \<in> set (nd_replies n)" using inv(4) [of ch] \<open>issued ch = Some k\<close> by auto
    have "\<exists>!r. (ch, r) \<in> set (nd_replies n)"
      using r eq_key_imp_eq_value [OF inv(2)] by blast
    then show ?thesis using False by blast
  qed
  with inv(2,5,6) show ?thesis by blast
qed

text \<open>A metadata request without any provider: the query is asked, ends, and is answered once.\<close>

definition asked_node :: "(toy_swarm, trees) node" where
  "asked_node = handle_command (toy_env 9) (toy_node sample_trees) (RequestMetadata \<lparr>mreq_file_id = 1\<rparr> 5)"

definition answered_node :: "(toy_swarm, trees) node" where
  "answered_node = handle_swarm_event (toy_env 9) asked_node
     (Kademlia (FinishedWithNoAdditionalRecord 0))"

lemma answered_node_reachable: "reachable (toy_env 9) toy_view ([5 \<mapsto> MetadataKind], answered_node)"
proof -
  have "reachable (toy_env 9) toy_view (Map.empty, toy_node sample_trees)"
    by (rule reachable.start [where config = "P2pServiceConfig_default\<lparr>cfg_file_search_topic := Some ''dfs''\<rparr>"])
       (simp_all add: toy_node_def)
  moreover have "node_step (toy_env 9) toy_view (Map.empty, toy_node sample_trees) ([5 \<mapsto> MetadataKind], asked_node)"
    using node_step.command [of "RequestMetadata \<lparr>mreq_file_id = 1\<rparr> 5" Map.empty "toy_env 9" toy_view
        "toy_node sample_trees"]
    by (simp add: asked_node_def issue_command_def)
  moreover have "node_step (toy_env 9) toy_view ([5 \<mapsto> MetadataKind], asked_node) ([5 \<mapsto> MetadataKind], answered_node)"
    unfolding answered_node_def by (rule node_step.event)
  ultimately show ?thesis by (blast intro: reachable.step)
qed

theorem requests_answered_at_most_once_witness:
  "nd_replies answered_node = [(5, MetadataReply None)] \<and>
   (\<forall>p. waiting (nd_svc answered_node) p \<noteq> Some 5)"
proof -
  have "choose_random (rn_range toy_random) (rn_order toy_random {||}) = None"
    by (simp add: choose_random_empty)
  then have replies: "nd_replies answered_node = [(5, MetadataReply None)]"
    by (simp add: answered_node_def asked_node_def handle_swarm_event_def kademlia_def
        handle_get_metadata_providers_result_def handle_all_possible_providers_found_def
        handle_command_def toy_node_def toy_ops_def fresh_id_def EventService_new_def send_oneshot_def)
  with conjunct1 [OF requests_answered_at_most_once [OF answered_node_reachable], rule_format, of 5 MetadataKind]
  show ?thesis by simp
qed

definition query_end :: "QueryId \<Rightarrow> kad_event \<Rightarrow> bool" where
  "query_end q ev \<longleftrightarrow> ev = FinishedWithNoAdditionalRecord q \<or> (\<exists>e. ev = GetProvidersErr q e)"

text \<open>
  Claim C28. When a query for the providers of a chunk ends, with its last result or with an error
  such as a timeout, the request leaves the table of
  queries. If a provider was found, one of the providers found is asked for exactly the chunk of
  the request, and the waiting channel moves to the table of sent requests; otherwise the
  channel is answered with \<open>None\<close> at once.
\<close>

theorem chunk_query_finished:
  assumes "random_ok (ev_random E)"
    and "metadata_providers_requests (nd_svc n) q = None"
    and "file_chunk_providers_requests (nd_svc n) q = Some d" "query_end q ev"
  shows "let n' = handle_swarm_event E n (Kademlia ev) in
    file_chunk_providers_requests (nd_svc n') = (file_chunk_providers_requests (nd_svc n))(q := None) \<and>
    (if prd_found_providers d = {||}
     then nd_replies n' = nd_replies n @ [(prd_result d, ChunkReply None)] \<and> nd_swarm n' = nd_swarm n
     else nd_replies n' = nd_replies n \<and>
       (\<exists>peer i. peer |\<in>| prd_found_providers d \<and>
          send_chunk_request (ev_swarm E) (nd_swarm n) peer (prd_request d) = (i, nd_swarm n') \<and>
          file_download_requests (nd_svc n') = (file_download_requests (nd_svc n))(i \<mapsto> prd_result d)))"
proof (cases "prd_found_providers d = {||}")
  case True
  have "choose_random (rn_range (ev_random E)) (rn_order (ev_random E) (prd_found_providers d)) = None"
    using assms(1) True by (simp add: choose_random_empty)
  then show ?thesis
    using assms(2-4) True
    by (auto simp: query_end_def handle_swarm_event_def kademlia_def handle_get_metadata_providers_result_def
        handle_all_possible_providers_found_def send_oneshot_def Let_def)
next
  case False
  obtain p where p: "choose_random (rn_range (ev_random E))
      (rn_order (ev_random E) (prd_found_providers d)) = Some p" "p |\<in>| prd_found_providers d"
    using choose_random_Some [OF assms(1) False] .
  obtain i w where i: "send_chunk_request (ev_swarm E) (nd_swarm n) p (prd_request d) = (i, w)"
    by (cases "send_chunk_request (ev_swarm E) (nd_swarm n) p (prd_request d)")
  show ?thesis
    using assms(2-4) False p i
    by (auto simp: query_end_def handle_swarm_event_def kademlia_def handle_get_metadata_providers_result_def
        handle_all_possible_providers_found_def Let_def)
qed

definition chunk_asked :: "(toy_swarm, trees) node" where
  "chunk_asked = (let n = toy_node sample_trees in n\<lparr>nd_svc := (nd_svc n)
     \<lparr>file_chunk_providers_requests := [4 \<mapsto>
       \<lparr>prd_found_providers = {|[7], [8]|}, prd_request = \<lparr>creq_file_id = 1, creq_chunk_id = 2\<rparr>,
        prd_result = 6\<rparr>]\<rparr>\<rparr>)"

theorem chunk_query_finished_witness:
  "(let n' = handle_swarm_event (toy_env 9) chunk_asked (Kademlia (FinishedWithNoAdditionalRecord 4)) in
     file_chunk_providers_requests (nd_svc n') = Map.empty \<and> nd_replies n' = []) \<and>
   (let n' = handle_swarm_event (toy_env 9) chunk_asked (Kademlia (GetProvidersErr 4 ''timeout'')) in
     file_chunk_providers_requests (nd_svc n') = Map.empty \<and> nd_replies n' = [])"
proof -
  have "query_end 4 (FinishedWithNoAdditionalRecord 4)" "query_end 4 (GetProvidersErr 4 ''timeout'')"
    by (simp_all add: query_end_def)
  from chunk_query_finished [of "toy_env 9" chunk_asked 4, OF _ _ _ this(1)]
    chunk_query_finished [of "toy_env 9" chunk_asked 4, OF _ _ _ this(2)]
  show ?thesis by (simp add: chunk_asked_def Let_def toy_node_def EventService_new_def)
qed

section \<open>Serving chunks\<close>

text \<open>
  Claim C11. A node that has published a file serves it: as long as the store knows the published
  record and the published files are on a healthy disk, the metadata request of a peer is answered with
  bytes that decode to the metadata, the request for chunk \<open>i\<close> with exactly the \<open>i\<close>-th
  mebibyte of the file, and a request beyond the last chunk with the error text.
\<close>

theorem published_file_is_served:
  assumes "libs_ok (ev_libs E)" "healthy fs"
    and "process_file M (ev_libs E) fs rsize rfault file_path public = (Inr m, fs1)"
    and "fs_read fs (path_of_string file_path) = Inr content"
    and "get_published_file (ev_store E) s (key_of_u64 file_id) =
      Inr (Some (published_of_metadata (ev_libs E) m))"
  shows "(\<exists>b. metadata_response E fs1 s file_id = Success b \<and> dec_metadata (ev_libs E) b = Inr m) \<and>
    (\<forall>i. chunk_response E fs1 s \<lparr>creq_file_id = file_id, creq_chunk_id = i\<rparr> =
      (if i < length (chunks_of CHUNK_SIZE content) then Success (chunks_of CHUNK_SIZE content ! i)
       else Error (''incorrect chunk number: '' @ show_nat i)))"
proof -
  have h: "healthy fs1" by (rule process_file_stays_healthy [OF assms(3,2)])
  obtain b where b: "enc_metadata (ev_libs E) m = Inr b"
    "fs_nodes fs1 (metadata_path (md_chunks_dir m)) = Some (FileNode b)"
    by (rule published_metadata_on_disk [OF assms(3,2)])
  have "metadata_response E fs1 s file_id = Success b"
    using assms(5) h b(2) by (simp add: metadata_response_def fs_read_healthy)
  then show ?thesis
    using libs_okD(1) [OF assms(1) b(1)] published_chunk_response [OF assms] by blast
qed

definition serving_env :: "(toy_swarm, trees) env" where
  "serving_env = (toy_env 9)\<lparr>ev_libs := sample_world_libs,
     ev_store := (rocks_store sample_world_libs sample_db)\<lparr>get_published_file :=
       (\<lambda>s k. Inr (Some (published_of_metadata sample_world_libs Chunking_Props.sample_metadata)))\<rparr>\<rparr>"

theorem published_file_is_served_witness:
  "\<exists>fs1. process_file (sample_merkle [[1, 2, 3]]) sample_world_libs sample_disk
      (\<lambda>_ _. 2) (\<lambda>_. None) ''/f'' True = (Inr Chunking_Props.sample_metadata, fs1) \<and>
    chunk_response serving_env fs1 sample_trees \<lparr>creq_file_id = 7, creq_chunk_id = 0\<rparr> = Success [1, 2, 3]"
proof (rule sample_publication)
  fix fs1
  assume pf: "process_file (sample_merkle [[1, 2, 3]]) sample_world_libs sample_disk
      (\<lambda>_ _. 2) (\<lambda>_. None) ''/f'' True = (Inr Chunking_Props.sample_metadata, fs1)"
  have read: "fs_read sample_disk (path_of_string ''/f'') = Inr [1, 2, 3]"
    by (simp add: fs_read_healthy sample_path sample_disk_def)
  have "chunk_response serving_env fs1 sample_trees \<lparr>creq_file_id = 7, creq_chunk_id = 0\<rparr> = Success [1, 2, 3]"
    using published_file_is_served [of serving_env sample_disk "sample_merkle [[1, 2, 3]]" "\<lambda>_ _. 2"
        "\<lambda>_. None" "''/f''" True Chunking_Props.sample_metadata fs1 "[1, 2, 3]" sample_trees 7] pf read
    by (simp add: serving_env_def sample_disk_def sample_chunks)
  with pf show ?thesis by blast
qed

text \<open>
  Claim C10. Chunks are served only as the metadata on the disk describes them: whatever the store
  and the disk hold and whatever faults occur, a \<open>Success\<close> answer to a chunk request is the whole
  content of the chunk file that the stored metadata of the file names for that chunk, the
  chunk number is below the announced total, and a file that is still being downloaded is served
  only for the chunks its record lists as downloaded.
\<close>

theorem served_chunk_is_stored:
  assumes "chunk_response E fs s \<lparr>creq_file_id = file_id, creq_chunk_id = i\<rparr> = Success b"
  shows "\<exists>dir c m. fs_read fs (metadata_path dir) = Inr c \<and> dec_metadata (ev_libs E) c = Inr m \<and>
    i < md_total_chunks m \<and>
    fs_read fs (chunk_path (md_chunks_dir m) i (md_chunk_file_extension m)) = Inr b \<and>
    ((\<exists>rec. get_published_file (ev_store E) s (key_of_u64 file_id) = Inr (Some rec) \<and>
        pub_chunks_dir rec = dir) \<or>
     (get_published_file (ev_store E) s (key_of_u64 file_id) = Inr None \<and>
      (\<exists>rec. get_pending_download (ev_store E) s (key_of_u64 file_id) = Inr (Some rec) \<and>
        pend_chunks_dir rec = dir \<and> i |\<in>| pend_downloaded_chunks rec)))"
proof (cases "get_published_file (ev_store E) s (key_of_u64 file_id)")
  case (Inl e)
  with assms show ?thesis by (simp add: chunk_response_def)
next
  case pub: (Inr r)
  show ?thesis
  proof (cases r)
    case (Some rec)
    with pub assms have "get_from_chunks (ev_libs E) fs i (pub_chunks_dir rec) = Success b"
      by (simp add: chunk_response_def)
    from get_from_chunks_Success [OF this] pub Some show ?thesis by metis
  next
    case None
    with pub assms have t: "try_from_pending_downloads E fs s file_id i = Success b"
      by (simp add: chunk_response_def)
    then obtain rec where rec: "get_pending_download (ev_store E) s (key_of_u64 file_id) = Inr (Some rec)"
      by (auto simp: try_from_pending_downloads_def split: sum.splits option.splits)
    with t have i: "i |\<in>| pend_downloaded_chunks rec"
      and g: "get_from_chunks (ev_libs E) fs i (pend_chunks_dir rec) = Success b"
      by (simp_all add: try_from_pending_downloads_def split: if_splits)
    from get_from_chunks_Success [OF g] pub None rec i show ?thesis by metis
  qed
qed

theorem served_chunk_is_stored_witness:
  "\<exists>fs1 dir m. (\<exists>c. fs_read fs1 (metadata_path dir) = Inr c \<and>
       dec_metadata sample_world_libs c = Inr m) \<and>
     fs_read fs1 (chunk_path (md_chunks_dir m) 0 (md_chunk_file_extension m)) = Inr [1, 2, 3]"
proof (rule sample_publication)
  fix fs1
  assume pf: "process_file (sample_merkle [[1, 2, 3]]) sample_world_libs sample_disk
      (\<lambda>_ _. 2) (\<lambda>_. None) ''/f'' True = (Inr Chunking_Props.sample_metadata, fs1)"
  have "chunk_response serving_env fs1 sample_trees \<lparr>creq_file_id = 7, creq_chunk_id = 0\<rparr> = Success [1, 2, 3]"
    using published_chunk_response [of serving_env sample_disk "sample_merkle [[1, 2, 3]]" "\<lambda>_ _. 2"
        "\<lambda>_. None" "''/f''" True Chunking_Props.sample_metadata fs1 "[1, 2, 3]" sample_trees 7 0] pf
    by (simp add: serving_env_def sample_disk_def sample_chunks fs_read_healthy sample_path)
  from served_chunk_is_stored [OF this] show ?thesis
    by (auto simp: serving_env_def)
qed

section \<open>Searching\<close>

text \<open>
  Claim C27. A search answers with exactly the published files that are public and whose name
  contains the search value, case aside, in the order of the stream up to its first error; when
  the receiver of the commands goes away after \<open>k\<close> of them, with the first \<open>k\<close> of these. No
  private file is ever named.
\<close>

theorem search_finds_public_matches:
  "file_search E src request room s =
     (let found = search_spec (lower E) src request (stream_published_files (ev_store E) s) in
      case room of None \<Rightarrow> found | Some k \<Rightarrow> take k found) \<and>
   (\<forall>c\<in>set (file_search E src request room s). \<exists>rec.
      Inr rec \<in> set (stream_published_files (ev_store E) s) \<and> pub_public rec \<and>
      sublist (lower E (sreq_search_value request)) (lower E (pub_original_file_name rec)) \<and>
      c = found_command src request rec)"
proof -
  let ?items = "stream_published_files (ev_store E) s"
  have eq: "file_search E src request room s =
     (let found = search_spec (lower E) src request ?items in
      case room of None \<Rightarrow> found | Some k \<Rightarrow> take k found)"
    by (simp add: file_search_def file_search_loop_spec Let_def)
  have item: "\<exists>rec. Inr rec \<in> set ?items \<and> matches (lower E) request rec \<and> c = found_command src request rec"
    if "c \<in> set (search_spec (lower E) src request ?items)" for c
  proof -
    from that obtain i where i: "i \<in> set (takeWhile (\<lambda>i. \<not> isl i) ?items)"
      "matches (lower E) request (projr i)" "c = found_command src request (projr i)"
      by (auto simp: search_spec_def)
    then have "i \<in> set ?items" "\<not> isl i" by (auto dest: set_takeWhileD)
    then show ?thesis using i by (metis sum.collapse(2))
  qed
  have "set (file_search E src request room s) \<subseteq> set (search_spec (lower E) src request ?items)"
    unfolding eq by (auto simp: Let_def split: option.split dest: in_set_takeD)
  with item eq show ?thesis unfolding matches_def by blast
qed

definition searched_store :: trees where
  "searched_store = snd (put_published_file (rocks_store sample_codec sample_db) sample_trees stored_published)"

theorem search_finds_public_matches_witness:
  "file_search (toy_env 9) [7] sample_search None searched_store = [found_command [7] sample_search stored_published] \<and>
   pub_public stored_published"
proof -
  have items: "stream_published_files (rocks_store sample_codec sample_db) searched_store = [Inr stored_published]"
    unfolding searched_store_def sample_put_published
    by (simp add: rocks_store_def rocks_stream_all_def get_cf_def stream_item_def)
  have "matches (lower (toy_env 9)) sample_search stored_published"
    by (simp add: matches_def sample_search_def stored_published_def)
  then have "search_spec (lower (toy_env 9)) [7] sample_search [Inr stored_published] =
      [found_command [7] sample_search stored_published]"
    by (simp add: search_spec_def)
  moreover note conjunct1 [OF search_finds_public_matches [of "toy_env 9" "[7]" sample_search None searched_store]]
  ultimately have "file_search (toy_env 9) [7] sample_search None searched_store =
      [found_command [7] sample_search stored_published]"
    by (simp only: items Let_def option.case toy_env_simps)
  moreover have "pub_public stored_published" by (simp add: stored_published_def)
  ultimately show ?thesis ..
qed

text \<open>
  Claim C38. Two searches for the same value share one session: after the second \<open>FileSearch\<close>
  was announced, every result for the session goes to the second caller and none to the first, and
  when the first caller gives up, the session of the second is gone too and later results are dropped.
\<close>

theorem equal_searches_collide:
  assumes "cfg_file_search_topic (es_config (nd_svc n)) = Some topic"
    and "\<And>w b. fst (gossip_publish (ev_swarm E) w topic b) = Inr ()"
    and "enc_search (ev_libs E) request = Inr bytes"
    and "res_session_id result = sreq_session_id request" "\<not> tx_closed E tx2"
  shows "let n2 = handle_command E (handle_command E n (FileSearch request tx1)) (FileSearch request tx2);
      found = (\<lambda>n. nd_found (handle_swarm_event E n (FileSearchResults (Request result ch)))) in
    found n2 = nd_found n @ [(tx2, res_file_found result)] \<and>
    found (handle_command E n2 (FileSearchAbort (sreq_session_id request))) = nd_found n"
proof -
  have pub: "\<exists>w'. gossip_publish (ev_swarm E) w topic bytes = (Inr (), w')" for w
    using assms(2) [of w bytes] by (cases "gossip_publish (ev_swarm E) w topic bytes") simp
  obtain w1 where w1: "gossip_publish (ev_swarm E) (nd_swarm n) topic bytes = (Inr (), w1)"
    using pub by blast
  obtain w2 where w2: "gossip_publish (ev_swarm E) w1 topic bytes = (Inr (), w2)"
    using pub by blast
  show ?thesis
    using assms(1,3-5) w1 w2
    by (simp add: handle_command_def handle_swarm_event_def file_search_results_def Let_def)
qed

theorem equal_searches_collide_witness:
  "nd_found (handle_swarm_event (toy_env 9)
     (handle_command (toy_env 9) (handle_command (toy_env 9) (toy_node sample_trees)
        (FileSearch sample_search 1)) (FileSearch sample_search 2))
     (FileSearchResults (Request \<lparr>res_session_id = ''f'',
        res_file_found = \<lparr>found_file_id = 3, found_file_name = ''f''\<rparr>\<rparr> 0))) =
   [(2, \<lparr>found_file_id = 3, found_file_name = ''f''\<rparr>)]"
  using equal_searches_collide [of "toy_node sample_trees" "''dfs''" "toy_env 9" sample_search "[4]"
      "\<lparr>res_session_id = ''f'', res_file_found = \<lparr>found_file_id = 3, found_file_name = ''f''\<rparr>\<rparr>" 2 1 0]
  by (simp add: Let_def toy_node_def EventService_new_def toy_ops_def sample_codec_def sample_search_def)

section \<open>Publishing\<close>

text \<open>
  Claim C13. When \<open>file_publish\<close> returns for a job, the node provides the key of the file and
  the key of each of its chunks, the record of the file is among the published files, the job is
  no longer in the queue, and nothing else in the store has changed, however often the network and
  the database failed in between.
\<close>

theorem file_publish_moves_job:
  assumes "file_publish E n (Inr m) = Some n'" "swarm_ok (ev_swarm E) V"
    and "ev_store E = rocks_store L R" "ev_libs E = L" "rocks_inv L R c (nd_store n)"
  shows "metadata_key L m \<in> provided V (nd_swarm n') \<and>
    (\<forall>i < md_total_chunks m. \<exists>k\<in>provided V (nd_swarm n'). enc_chunk_request L
       \<lparr>creq_file_id = u64_of_key (PublishedFileKey (metadata_key L m)), creq_chunk_id = i\<rparr> = Inr k) \<and>
    rocks_inv L R c (nd_store n') \<and>
    rocks_published L c (nd_store n') = (rocks_published L c (nd_store n))
      (PublishedFileKey (metadata_key L m) \<mapsto> published_of_metadata L m) \<and>
    rocks_jobs L c (nd_store n') = (rocks_jobs L c (nd_store n))(PublishedFileKey (metadata_key L m) := None) \<and>
    rocks_pending L c (nd_store n') = rocks_pending L c (nd_store n)"
proof (rule file_publish_Some [OF assms(1)])
  fix w s1 s2
  assume p: "retry (\<lambda>w. provide_all E w m) (nd_swarm n) = Some w"
    and a: "add_published_file E (nd_store n) m = Some s1"
    and d: "delete_published_job E s1 (metadata_key (ev_libs E) m) = Some s2"
    and n': "n' = n\<lparr>nd_swarm := w, nd_store := s2\<rparr>"
  note A = add_published_file_rocks [OF assms(5) a assms(3,4)]
  have "rocks_inv L R c s1" using A by blast
  note D = delete_published_job_rocks [OF this d [unfolded assms(4)] assms(3)]
  show ?thesis
    using retry_provide_grows [OF assms(2) p] A D by (auto simp: n' assms(4))
qed

theorem file_publish_moves_job_witness:
  "\<exists>n'. file_publish (toy_env 9) (toy_node sample_queue) (Inr stored_metadata) = Some n' \<and>
     rocks_jobs sample_codec sample_contents (nd_store n') (PublishedFileKey (metadata_key sample_codec stored_metadata)) = None"
proof -
  have "retry (\<lambda>w. provide_all (toy_env 9) w stored_metadata) (nd_swarm (toy_node sample_queue)) \<noteq> None"
    by (subst retry.simps) (simp add: provide_all_def provide_metadata_def provide_file_chunk_def
        toy_ops_def toy_node_def Let_def stored_metadata_def sample_codec_def sample_libs_def)
  moreover have "add_published_file (toy_env 9) s stored_metadata \<noteq> None" for s
    unfolding add_published_file_def
    by (subst retry.simps) (simp add: rocks_store_def rocks_put_def published_entry_def get_cf_def)
  moreover have "delete_published_job (toy_env 9) s k \<noteq> None" for s k
    unfolding delete_published_job_def
    by (subst retry.simps) (simp add: rocks_store_def rocks_delete_def get_cf_def)
  ultimately obtain w s1 s2 where
    "retry (\<lambda>w. provide_all (toy_env 9) w stored_metadata) (nd_swarm (toy_node sample_queue)) = Some w"
    "add_published_file (toy_env 9) sample_queue stored_metadata = Some s1"
    "delete_published_job (toy_env 9) s1 (metadata_key sample_codec stored_metadata) = Some s2"
    by (metis option.exhaust)
  then have "file_publish (toy_env 9) (toy_node sample_queue) (Inr stored_metadata) \<noteq> None"
    by (simp add: file_publish_def)
  then obtain n' where n': "file_publish (toy_env 9) (toy_node sample_queue) (Inr stored_metadata) = Some n'"
    by blast
  have "rocks_inv sample_codec sample_db sample_contents sample_queue"
    using rocks.jobs.put_inv [OF sample_store_inv sample_put_job]
    by (simp add: sample_queue_def sample_put_job)
  with file_publish_moves_job [OF n' _ _ _, of toy_view sample_codec sample_db sample_contents] n'
  show ?thesis by simp
qed

text \<open>
  Claim C37. A file with more chunks than the record store of the node can hold is never
  published: \<open>file_publish\<close> retries for ever, and, as the loop of the service waits for it, the
  node handles no other event or command. (The memory store of \<open>libp2p\<close> holds 1024 records by
  default, one mebibyte of the file each.)
\<close>

theorem file_publish_never_returns:
  assumes "bounded_records (ev_swarm E) ok recs cap" "ok (nd_swarm n)" "cap < md_total_chunks m"
    and "inj_on (\<lambda>i. enc_chunk_request (ev_libs E)
      \<lparr>creq_file_id = u64_of_key (PublishedFileKey (metadata_key (ev_libs E) m)), creq_chunk_id = i\<rparr>)
      {..<md_total_chunks m}"
  shows "file_publish E n (Inr m) = None"
proof -
  have "\<exists>e y. provide_all E x m = (Inl e, y) \<and> ok y" if "ok x" for x
    by (rule provide_all_too_large [OF assms(1) that assms(3,4)])
  then have "retry (\<lambda>w. provide_all E w m) (nd_swarm n) = None"
    by (intro retry_never [of ok "nd_swarm n" "\<lambda>w. provide_all E w m"] assms(2)) simp
  then show ?thesis by (simp add: file_publish_def)
qed

lemma toy_bounded:
  "bounded_records (toy_ops k) (\<lambda>w. length (toy_records w) \<le> k) (\<lambda>w. set (toy_records w)) k"
  by (auto simp: bounded_records_def toy_ops_def List.insert_def card_length
      intro: order_trans [OF card_length] split: if_splits)

theorem file_publish_never_returns_witness:
  "file_publish (toy_env 2) (toy_node sample_trees) (Inr (stored_metadata\<lparr>md_total_chunks := 3\<rparr>)) = None"
proof (rule file_publish_never_returns)
  show "bounded_records (ev_swarm (toy_env 2)) (\<lambda>w. length (toy_records w) \<le> 2) (\<lambda>w. set (toy_records w)) 2"
    using toy_bounded [of 2] by simp
  have "i = j" if "(word_of_nat i :: u64) = word_of_nat j" "i < 3" "j < 3" for i j
    using arg_cong [OF that(1), of unat] that(2,3) by (simp add: unat_u64_small)
  then show "inj_on (\<lambda>i. enc_chunk_request (ev_libs (toy_env 2)) \<lparr>creq_file_id = u64_of_key (PublishedFileKey
      (metadata_key (ev_libs (toy_env 2)) (stored_metadata\<lparr>md_total_chunks := 3\<rparr>))), creq_chunk_id = i\<rparr>)
      {..<md_total_chunks (stored_metadata\<lparr>md_total_chunks := 3\<rparr>)}"
    by (auto simp: inj_on_def sample_codec_def sample_libs_def)
qed (simp_all add: toy_node_def)

end
