(* ===== verification/Downloads.thy ===== *)
theory Downloads
  imports Chunking File_Store
begin

text \<open>
  \<open>file_download_service.rs\<close>: the downloads of a node. A tick of the service starts a task for
  every pending download that has none; the task starts one subtask for every missing chunk, joins
  them in the order in which they finish, records the progress in the store, and at the end puts
  the file together and moves its record to the published files.

  The subtasks run concurrently, as many at a time as there are permits. Their interleaving is a
  list of steps (\<open>dl_step\<close>), executed one after the other by \<open>dl_exec\<close>.
\<close>

section \<open>Errors\<close>

text \<open>The errors that \<open>anyhow\<close> wraps here. A panic of a subtask reaches its task as a \<open>JoinError\<close>.\<close>

datatype dl_error =
  Dle_Io io_error | Dle_Cbor cbor_error | Dle_NoProof usize | Dle_Incorrect | Dle_ChannelClosed
| Dle_NoAnswer | Dle_Join join_error | Dle_Processing FileProcessingError | Dle_Store FileStoreError

section \<open>One chunk\<close>

text \<open>\<open>None\<close> is the panic of \<open>verify_chunk\<close>.\<close>

definition verify_and_save_file_chunk ::
  "'p merkle \<Rightarrow> libs \<Rightarrow> filesys \<Rightarrow> DownloadFileChunk \<Rightarrow> bytes \<Rightarrow> (dl_error + unit) option \<times> filesys" where
  "verify_and_save_file_chunk M L fs dfc bytes =
     (case fs_read fs (path_join_str (dfc_target_dir dfc) METADATA_FILE_NAME) of
        Inl e \<Rightarrow> (Some (Inl (Dle_Io e)), fs)
      | Inr data \<Rightarrow>
      (case dec_metadata L data of
        Inl e \<Rightarrow> (Some (Inl (Dle_Cbor e)), fs)
      | Inr metadata \<Rightarrow>
      (case nth_opt (md_merkle_proofs metadata) (dfc_chunk_id dfc) of
        None \<Rightarrow> (Some (Inl (Dle_NoProof (dfc_chunk_id dfc))), fs)
      | Some proof \<Rightarrow>
      (case verify_chunk M bytes (dfc_chunk_id dfc) proof (md_merkle_root metadata)
          (md_total_chunks metadata) of
        None \<Rightarrow> (None, fs)
      | Some False \<Rightarrow> (Some (Inl Dle_Incorrect), fs)
      | Some True \<Rightarrow>
          (case fs_write fs (chunk_path (dfc_target_dir dfc) (dfc_chunk_id dfc)
              (md_chunk_file_extension metadata)) bytes of
             (Inl e, fs') \<Rightarrow> (Some (Inl (Dle_Io e)), fs')
           | (Inr _, fs') \<Rightarrow> (Some (Inr ()), fs'))))))"

text \<open>
  \<open>download_file_chunk\<close> up to its \<open>rx.await\<close>: it sends the request, with the sender of a new
  oneshot channel; \<open>sent\<close> is whether the command channel takes it.
\<close>

definition chunk_request :: "DownloadFileChunk \<Rightarrow> FileChunkRequest" where
  "chunk_request dfc = \<lparr>creq_file_id = dfc_file_id dfc, creq_chunk_id = dfc_chunk_id dfc\<rparr>"

definition ask_file_chunk :: "DownloadFileChunk \<Rightarrow> oneshot \<Rightarrow> bool \<Rightarrow> dl_error + P2pCommand" where
  "ask_file_chunk dfc tx sent =
     (if sent then Inr (RequestFileChunk (chunk_request dfc) tx) else Inl Dle_ChannelClosed)"

text \<open>
  And from there on: \<open>reply\<close> is what came on the oneshot, \<open>None\<close> when its sender was dropped.
  The result of the subtask is \<open>None\<close> when it panics.
\<close>

definition receive_file_chunk :: "'p merkle \<Rightarrow> libs \<Rightarrow> filesys \<Rightarrow> DownloadFileChunk
    \<Rightarrow> FileResponse option option \<Rightarrow> bool
    \<Rightarrow> (dl_error + usize option) option \<times> filesys \<times> P2pCommand list" where
  "receive_file_chunk M L fs dfc reply sent =
     (case reply of
        None \<Rightarrow> (Some (Inl Dle_NoAnswer), fs, [])
      | Some (Some (Success bytes)) \<Rightarrow>
          (case verify_and_save_file_chunk M L fs dfc bytes of
             (None, fs') \<Rightarrow> (None, fs', [])
           | (Some (Inl e), fs') \<Rightarrow> (Some (Inl e), fs', [])
           | (Some (Inr _), fs') \<Rightarrow>
               if sent then (Some (Inr (Some (dfc_chunk_id dfc))), fs', [ProvideFileChunk (chunk_request dfc)])
               else (Some (Inr None), fs', []))
      | Some (Some (Error err)) \<Rightarrow> (Some (Inr None), fs, [])
      | Some (Some NotFound) \<Rightarrow> (Some (Inr None), fs, [])
      | Some None \<Rightarrow> (Some (Inr None), fs, []))"

section \<open>One download\<close>

text \<open>
  The state of a download task: its copy of the record, the first error, the subtasks that wait
  for a permit, those that hold one and wait for their answer, and the results of those that have
  finished and are not joined, in that order; and the world it works on.
\<close>

record 's download =
  dl_record :: PendingDownloadRecord
  dl_first_error :: "dl_error option"
  dl_waiting :: "usize list"
  dl_asked :: "usize list"
  dl_finished :: "(dl_error + usize option) list"
  dl_store :: 's
  dl_fs :: filesys
  dl_sent :: "P2pCommand list"

text \<open>
  A step: a subtask gets a permit and asks; a subtask gets its answer and runs to its end; a
  subtask is lost to the end of the runtime; the task joins the subtask that finished first.
\<close>

datatype dl_step =
  Ask usize oneshot bool
| Answer usize "FileResponse option option" bool
| Lost usize join_error
| Join

definition missing_chunks :: "FileMetadata \<Rightarrow> PendingDownloadRecord \<Rightarrow> usize list" where
  "missing_chunks metadata rec =
     filter (\<lambda>i. i |\<notin>| pend_downloaded_chunks rec) [0..<length (md_merkle_proofs metadata)]"

definition chunk_of_record :: "PendingDownloadRecord \<Rightarrow> usize \<Rightarrow> DownloadFileChunk" where
  "chunk_of_record rec i =
     \<lparr>dfc_file_id = u64_of_key (pend_key rec), dfc_chunk_id = i, dfc_target_dir = pend_chunks_dir rec\<rparr>"

text \<open>The body of the loop over \<open>join_next\<close>.\<close>

definition join_chunk :: "'s Store \<Rightarrow> dl_error + usize option \<Rightarrow> 's download \<Rightarrow> 's download" where
  "join_chunk S result d =
     (case result of
        Inr (Some chunk_id) \<Rightarrow>
          if chunk_id |\<in>| pend_downloaded_chunks (dl_record d) then d
          else
            (let rec = (dl_record d)
               \<lparr>pend_downloaded_chunks := finsert chunk_id (pend_downloaded_chunks (dl_record d))\<rparr>
             in d\<lparr>dl_record := rec, dl_store := snd (put_pending_download S (dl_store d) rec)\<rparr>)
      | Inr None \<Rightarrow> d
      | Inl e \<Rightarrow> (case dl_first_error d of None \<Rightarrow> d\<lparr>dl_first_error := Some e\<rparr> | Some _ \<Rightarrow> d))"

fun dl_exec :: "'p merkle \<Rightarrow> libs \<Rightarrow> 's Store \<Rightarrow> dl_step \<Rightarrow> 's download \<Rightarrow> 's download" where
  "dl_exec M L S (Ask i tx sent) d =
     (if i \<in> set (dl_waiting d) then
        (case ask_file_chunk (chunk_of_record (dl_record d) i) tx sent of
           Inl e \<Rightarrow> d\<lparr>dl_waiting := remove1 i (dl_waiting d), dl_finished := dl_finished d @ [Inl e]\<rparr>
         | Inr command \<Rightarrow> d\<lparr>dl_waiting := remove1 i (dl_waiting d), dl_asked := i # dl_asked d,
             dl_sent := dl_sent d @ [command]\<rparr>)
      else d)"
| "dl_exec M L S (Answer i reply sent) d =
     (if i \<in> set (dl_asked d) then
        (case receive_file_chunk M L (dl_fs d) (chunk_of_record (dl_record d) i) reply sent of
           (r, fs', commands) \<Rightarrow>
             d\<lparr>dl_asked := remove1 i (dl_asked d), dl_fs := fs', dl_sent := dl_sent d @ commands,
               dl_finished := dl_finished d @
                 [case r of None \<Rightarrow> Inl (Dle_Join ''task panicked'') | Some x \<Rightarrow> x]\<rparr>)
      else d)"
| "dl_exec M L S (Lost i e) d =
     (if i \<in> set (dl_asked d) then
        d\<lparr>dl_asked := remove1 i (dl_asked d), dl_finished := dl_finished d @ [Inl (Dle_Join e)]\<rparr>
      else if i \<in> set (dl_waiting d) then
        d\<lparr>dl_waiting := remove1 i (dl_waiting d), dl_finished := dl_finished d @ [Inl (Dle_Join e)]\<rparr>
      else d)"
| "dl_exec M L S Join d =
     (case dl_finished d of
        [] \<Rightarrow> d
      | result # rest \<Rightarrow> join_chunk S result (d\<lparr>dl_finished := rest\<rparr>))"

definition download_start :: "libs \<Rightarrow> 's \<Rightarrow> filesys \<Rightarrow> PendingDownloadRecord
    \<Rightarrow> dl_error + FileMetadata \<times> 's download" where
  "download_start L s fs rec =
     (case fs_read fs (path_join_str (pend_chunks_dir rec) METADATA_FILE_NAME) of
        Inl e \<Rightarrow> Inl (Dle_Io e)
      | Inr data \<Rightarrow>
      (case dec_metadata L data of
        Inl e \<Rightarrow> Inl (Dle_Cbor e)
      | Inr metadata \<Rightarrow>
          Inr (metadata,
            \<lparr>dl_record = rec, dl_first_error = None, dl_waiting = missing_chunks metadata rec,
             dl_asked = [], dl_finished = [], dl_store = s, dl_fs = fs, dl_sent = []\<rparr>)))"

text \<open>The task returns when every subtask has been joined; \<open>None\<close> is a task that still waits.\<close>

definition download_result :: "FileMetadata \<Rightarrow> 's download \<Rightarrow> (dl_error + bool) option" where
  "download_result metadata d =
     (if dl_waiting d = [] \<and> dl_asked d = [] \<and> dl_finished d = [] then
        Some (case dl_first_error d of
                Some e \<Rightarrow> Inl e
              | None \<Rightarrow> Inr (fcard (pend_downloaded_chunks (dl_record d)) = length (md_merkle_proofs metadata)))
      else None)"

definition process_completed :: "libs \<Rightarrow> 's Store \<Rightarrow> 's \<Rightarrow> filesys \<Rightarrow> PendingDownloadRecord \<Rightarrow> bool
    \<Rightarrow> (dl_error + unit) \<times> 's \<times> filesys \<times> P2pCommand list" where
  "process_completed L S s fs rec sender_open =
     (case restore_original_file L fs rec of
        (Inl e, fs') \<Rightarrow> (Inl (Dle_Processing e), s, fs', [])
      | (Inr metadata, fs') \<Rightarrow>
      (case put_published_file S s
          \<lparr>pub_key = pend_key rec, pub_original_file_name = pend_original_file_name rec,
           pub_chunks_dir = pend_chunks_dir rec, pub_public = md_public metadata\<rparr> of
        (Inl e, s1) \<Rightarrow> (Inl (Dle_Store e), s1, fs', [])
      | (Inr _, s1) \<Rightarrow>
      (case delete_pending_download S s1 (pend_key rec) of
        (Inl e, s2) \<Rightarrow> (Inl (Dle_Store e), s2, fs', [])
      | (Inr _, s2) \<Rightarrow>
          if sender_open then (Inr (), s2, fs', [ProvideMetadata metadata])
          else (Inl Dle_ChannelClosed, s2, fs', []))))"

text \<open>
  The body of the spawned task after \<open>download\<close> has returned: the store, the disk and the
  commands, before the key leaves the set of active downloads.
\<close>

definition download_end :: "libs \<Rightarrow> 's Store \<Rightarrow> dl_error + bool \<Rightarrow> 's download \<Rightarrow> bool
    \<Rightarrow> 's \<times> filesys \<times> P2pCommand list" where
  "download_end L S result d sender_open =
     (case result of
        Inr True \<Rightarrow> snd (process_completed L S (dl_store d) (dl_fs d) (dl_record d) sender_open)
      | Inr False \<Rightarrow> (dl_store d, dl_fs d, [])
      | Inl e \<Rightarrow> (dl_store d, dl_fs d, []))"

section \<open>The service\<close>

record FileDownloadService =
  fds_permits :: nat
  fds_active :: "PublishedFileKey fset"

definition FileDownloadService_new :: "u16 \<Rightarrow> FileDownloadService" where
  "FileDownloadService_new max_active_downloads =
     \<lparr>fds_permits = unat max_active_downloads, fds_active = {||}\<rparr>"

text \<open>
  A tick, over the items of the stream. The tasks of earlier ticks go on meanwhile: \<open>seen k\<close> is
  what the tick finds at its \<open>k\<close>-th item, the number of free permits and the keys that finished
  tasks have removed from the active downloads since the item before. The result is the set of
  active downloads and the records for which a task was spawned.
\<close>

fun work_on_stream :: "(nat \<Rightarrow> nat \<times> PublishedFileKey fset) \<Rightarrow> nat \<Rightarrow> PublishedFileKey fset
    \<Rightarrow> (FileStoreError + PendingDownloadRecord) list
    \<Rightarrow> PublishedFileKey fset \<times> PendingDownloadRecord list" where
  "work_on_stream seen k active [] = (active, [])"
| "work_on_stream seen k active (result # rest) =
     (let active1 = active |-| snd (seen k) in
      if fst (seen k) = 0 then (active1, [])
      else
        (case result of
           Inl e \<Rightarrow> work_on_stream seen (Suc k) active1 rest
         | Inr rec \<Rightarrow>
             if pend_key rec |\<in>| active1 then work_on_stream seen (Suc k) active1 rest
             else
               (case work_on_stream seen (Suc k) (finsert (pend_key rec) active1) rest of
                  (active2, spawned) \<Rightarrow> (active2, rec # spawned))))"

definition work_on_pending_downloads :: "'s Store \<Rightarrow> 's \<Rightarrow> (nat \<Rightarrow> nat \<times> PublishedFileKey fset)
    \<Rightarrow> FileDownloadService \<Rightarrow> FileDownloadService \<times> PendingDownloadRecord list" where
  "work_on_pending_downloads S s seen svc =
     (if fds_permits svc = 0 then (svc, [])
      else (case work_on_stream seen 0 (fds_active svc) (stream_pending_downloads S s) of
              (active, spawned) \<Rightarrow> (svc\<lparr>fds_active := active\<rparr>, spawned)))"

end
