(* ===== verification/Downloads_Correct.thy ===== *)
theory Downloads_Correct
  imports Downloads Chunking_Correct File_Store_Correct
begin

text \<open>
  What a download keeps true, step by step and in every interleaving of its subtasks: each chunk it
  counts is on the disk with the right contents, the progress in the store never runs ahead of the
  disk, and nothing is lost when the file moves to the published files.
\<close>

section \<open>One chunk\<close>

text \<open>A chunk is saved only if it verifies against the metadata on the disk.\<close>

lemma verify_and_save_cases:
  assumes "verify_and_save_file_chunk M L fs dfc bytes = (r, fs')"
  obtains (no_write) "fs' = fs" "r \<noteq> Some (Inr ())"
  | (wrote) data m pf w where "fs_read fs (metadata_path (dfc_target_dir dfc)) = Inr data"
      "dec_metadata L data = Inr m" "nth_opt (md_merkle_proofs m) (dfc_chunk_id dfc) = Some pf"
      "verify_chunk M bytes (dfc_chunk_id dfc) pf (md_merkle_root m) (md_total_chunks m) = Some True"
      "fs_write fs (chunk_path (dfc_target_dir dfc) (dfc_chunk_id dfc) (md_chunk_file_extension m)) bytes = (w, fs')"
      "r = Some (Inr ()) \<longleftrightarrow> w = Inr ()"
proof (cases "fs_read fs (metadata_path (dfc_target_dir dfc))")
  case (Inl e)
  with assms no_write show ?thesis by (simp add: verify_and_save_file_chunk_def) blast
next
  case data: (Inr data)
  show ?thesis
  proof (cases "dec_metadata L data")
    case (Inl e)
    with data assms no_write show ?thesis by (simp add: verify_and_save_file_chunk_def) blast
  next
    case m: (Inr m)
    show ?thesis
    proof (cases "nth_opt (md_merkle_proofs m) (dfc_chunk_id dfc)")
      case None
      with data m assms no_write show ?thesis by (simp add: verify_and_save_file_chunk_def) blast
    next
      case pf: (Some pf)
      let ?v = "verify_chunk M bytes (dfc_chunk_id dfc) pf (md_merkle_root m) (md_total_chunks m)"
      let ?w = "fs_write fs (chunk_path (dfc_target_dir dfc) (dfc_chunk_id dfc) (md_chunk_file_extension m)) bytes"
      consider "?v = None" | "?v = Some False" | "?v = Some True" by (cases ?v) auto
      then show ?thesis
      proof cases
        case 3
        obtain w fs1 where w: "?w = (w, fs1)" by fastforce
        show ?thesis
        proof (rule wrote [OF data m pf 3])
          show "?w = (w, fs')" "r = Some (Inr ()) \<longleftrightarrow> w = Inr ()"
            using assms data m pf 3 w
            by (auto simp: verify_and_save_file_chunk_def split: sum.splits)
        qed
      qed (rule no_write; use data m pf assms in \<open>auto simp: verify_and_save_file_chunk_def\<close>)+
    qed
  qed
qed

text \<open>The subtask as a whole: what it may do to the disk and when it reports success.\<close>

lemma receive_cases:
  assumes "receive_file_chunk M L fs dfc reply sent = (r, fs', commands)"
  obtains (saved) bytes v where "reply = Some (Some (Success bytes))"
      "verify_and_save_file_chunk M L fs dfc bytes = (v, fs')"
      "(\<exists>i. r = Some (Inr (Some i))) \<longleftrightarrow> v = Some (Inr ()) \<and> sent"
      "\<And>i. r = Some (Inr (Some i)) \<Longrightarrow> i = dfc_chunk_id dfc"
  | (other) "fs' = fs" "\<And>i. r \<noteq> Some (Inr (Some i))" "\<And>bytes. reply \<noteq> Some (Some (Success bytes))"
proof (cases "\<exists>bytes. reply = Some (Some (Success bytes))")
  case True
  then obtain bytes where b: "reply = Some (Some (Success bytes))" by blast
  obtain v fs1 where v: "verify_and_save_file_chunk M L fs dfc bytes = (v, fs1)" by fastforce
  show ?thesis
  proof (rule saved [OF b])
    show "verify_and_save_file_chunk M L fs dfc bytes = (v, fs')"
      "(\<exists>i. r = Some (Inr (Some i))) \<longleftrightarrow> v = Some (Inr ()) \<and> sent"
      "r = Some (Inr (Some i)) \<Longrightarrow> i = dfc_chunk_id dfc" for i
      using assms b v by (auto simp: receive_file_chunk_def split: option.splits sum.splits if_splits)
  qed
next
  case False
  show ?thesis
    by (rule other; use assms False in
      \<open>auto simp: receive_file_chunk_def split: option.splits FileResponse.splits\<close>)
qed

text \<open>The disk changes at most at the chunk's own file, and only by that write.\<close>

lemma verify_and_save_frame:
  assumes "verify_and_save_file_chunk M L fs dfc bytes = (r, fs')"
    and "\<And>ext. q \<noteq> chunk_path (dfc_target_dir dfc) (dfc_chunk_id dfc) ext"
  shows "fs_nodes fs' q = fs_nodes fs q"
  using assms(1)
proof (cases rule: verify_and_save_cases)
  case (wrote data m pf w)
  then show ?thesis using fs_write_frame(1) assms(2) by blast
qed simp

lemma verify_and_save_faults:
  assumes "verify_and_save_file_chunk M L fs dfc bytes = (r, fs')"
  shows "healthy fs' = healthy fs"
  using assms
proof (cases rule: verify_and_save_cases)
  case (wrote data m pf w)
  then show ?thesis using healthy_write by blast
qed simp

section \<open>The state of a download\<close>

definition landed :: "(dl_error + usize option) list \<Rightarrow> usize list" where
  "landed rs = List.map_filter (\<lambda>r. case r of Inr (Some i) \<Rightarrow> Some i | _ \<Rightarrow> None) rs"

lemma landed_simps [simp]:
  "landed [] = []" "landed (Inl e # rs) = landed rs" "landed (Inr None # rs) = landed rs"
  "landed (Inr (Some i) # rs) = i # landed rs"
  "landed (rs @ rs') = landed rs @ landed rs'"
  by (simp_all add: landed_def List.map_filter_def)

text \<open>The chunks a download is busy with, each once, and none that is counted already.\<close>

definition busy :: "'s download \<Rightarrow> usize list" where
  "busy d = dl_waiting d @ dl_asked d @ landed (dl_finished d)"

definition bookkeeping :: "nat \<Rightarrow> 's download \<Rightarrow> bool" where
  "bookkeeping n d \<longleftrightarrow>
     distinct (busy d) \<and> set (busy d) \<subseteq> {..<n} \<and>
     fset (pend_downloaded_chunks (dl_record d)) \<subseteq> {..<n} \<and>
     set (busy d) \<inter> fset (pend_downloaded_chunks (dl_record d)) = {}"

text \<open>
  \<open>truthful\<close>: the metadata file is there, and every chunk that is counted, or finished and about
  to be counted, is on the disk with the contents \<open>cs\<close>.
\<close>

definition truthful :: "libs \<Rightarrow> FileMetadata \<Rightarrow> bytes list \<Rightarrow> 's download \<Rightarrow> bool" where
  "truthful L m cs d \<longleftrightarrow>
     (\<exists>b. fs_nodes (dl_fs d) (metadata_path (pend_chunks_dir (dl_record d))) = Some (FileNode b) \<and>
          dec_metadata L b = Inr m) \<and>
     (\<forall>i. i |\<in>| pend_downloaded_chunks (dl_record d) \<or> i \<in> set (landed (dl_finished d)) \<longrightarrow>
        i < length cs \<and>
        fs_nodes (dl_fs d) (chunk_path (pend_chunks_dir (dl_record d)) i (md_chunk_file_extension m)) =
          Some (FileNode (cs ! i)))"

text \<open>The record of a task changes only in the set of its chunks.\<close>

lemma join_chunk_record:
  "pend_key (dl_record (join_chunk S r d)) = pend_key (dl_record d)"
  "pend_chunks_dir (dl_record (join_chunk S r d)) = pend_chunks_dir (dl_record d)"
  "pend_original_file_name (dl_record (join_chunk S r d)) = pend_original_file_name (dl_record d)"
  "dl_fs (join_chunk S r d) = dl_fs d"
  "dl_waiting (join_chunk S r d) = dl_waiting d" "dl_asked (join_chunk S r d) = dl_asked d"
  "dl_finished (join_chunk S r d) = dl_finished d"
  "pend_downloaded_chunks (dl_record (join_chunk S r d)) =
     (case r of Inr (Some i) \<Rightarrow> finsert i (pend_downloaded_chunks (dl_record d))
      | _ \<Rightarrow> pend_downloaded_chunks (dl_record d))"
  by (auto simp: join_chunk_def Let_def split: sum.split option.split)

lemma dl_exec_record [simp]:
  "pend_key (dl_record (dl_exec M L S st d)) = pend_key (dl_record d)"
  "pend_chunks_dir (dl_record (dl_exec M L S st d)) = pend_chunks_dir (dl_record d)"
  "pend_original_file_name (dl_record (dl_exec M L S st d)) = pend_original_file_name (dl_record d)"
  by (cases st; auto simp: join_chunk_record split: sum.split list.split prod.split)+

lemma bookkeeping_exec:
  assumes "bookkeeping n d"
  shows "bookkeeping n (dl_exec M L S st d)"
proof (cases st)
  case (Ask i tx sent)
  then show ?thesis
    using assms by (auto simp: bookkeeping_def busy_def ask_file_chunk_def)
next
  case (Answer i reply sent)
  show ?thesis
  proof (cases "i \<in> set (dl_asked d)")
    case True
    obtain r fs' commands where rc: "receive_file_chunk M L (dl_fs d) (chunk_of_record (dl_record d) i) reply sent =
        (r, fs', commands)" by (metis prod_cases3)
    have "r = Some (Inr (Some j)) \<Longrightarrow> j = i" for j
      using rc by (cases rule: receive_cases) (auto simp: chunk_of_record_def)
    then have l: "landed [case r of None \<Rightarrow> Inl (Dle_Join ''task panicked'') | Some x \<Rightarrow> x] \<in> {[], [i]}"
      by (auto split: option.split) (metis (no_types) landed_simps option.exhaust sum.exhaust)
    then show ?thesis
      using assms True Answer rc
      by (auto simp: bookkeeping_def busy_def)
  next
    case False
    with assms Answer show ?thesis by simp
  qed
next
  case (Lost i e)
  then show ?thesis using assms by (auto simp: bookkeeping_def busy_def)
next
  case Join
  show ?thesis
  proof (cases "dl_finished d")
    case Nil
    with assms Join show ?thesis by simp
  next
    case (Cons r rest)
    then show ?thesis
      using assms Join
      by (cases r; cases "projr r") (auto simp: bookkeeping_def busy_def join_chunk_record)
  qed
qed

section \<open>What is counted is on the disk\<close>

text \<open>
  \<open>cs\<close> are the chunks that the metadata describes: only they verify. For the metadata of a
  published file these are its chunks, as long as the Merkle tree is binding and the hash
  function has no second preimages.
\<close>

definition describes :: "'p merkle \<Rightarrow> FileMetadata \<Rightarrow> bytes list \<Rightarrow> bool" where
  "describes M m cs \<longleftrightarrow>
     CHR ''/'' \<notin> set (md_chunk_file_extension m) \<and>
     (\<forall>c i p. verify_chunk M c i p (md_merkle_root m) (md_total_chunks m) = Some True \<longrightarrow>
        i < length cs \<and> c = cs ! i)"

lemma published_describes:
  assumes "merkle_binding M (leaves_of M content) root"
    and "no_second_preimage M (chunks_of CHUNK_SIZE content)"
    and "md_merkle_root m = root" "md_total_chunks m = length (chunks_of CHUNK_SIZE content)"
    and "CHR ''/'' \<notin> set (md_chunk_file_extension m)"
  shows "describes M m (chunks_of CHUNK_SIZE content)"
  using verify_chunk_sound [OF assms(1,2)] assms(3-5) by (auto simp: describes_def)

lemma chunk_neq_metadata_path:
  assumes "CHR ''/'' \<notin> set ext"
  shows "chunk_path d i ext \<noteq> metadata_path d'"
proof
  assume "chunk_path d i ext = metadata_path d'"
  then have "chunk_file_name i ext = METADATA_FILE_NAME"
    using assms by (simp add: chunk_path_def path_join_plain_inject plain_chunk_file_name)
  with chunk_file_name_Cons [of i ext] show False
    by (simp add: METADATA_FILE_NAME_def)
qed

text \<open>What a saved answer leaves on the disk.\<close>

lemma receive_effect:
  assumes "receive_file_chunk M L fs dfc reply sent = (r, fs', commands)"
    and meta: "fs_nodes fs (metadata_path (dfc_target_dir dfc)) = Some (FileNode b)" "dec_metadata L b = Inr m"
    and "describes M m cs"
  shows "q \<noteq> chunk_path (dfc_target_dir dfc) (dfc_chunk_id dfc) (md_chunk_file_extension m) \<Longrightarrow>
      fs_nodes fs' q = fs_nodes fs q"
    and "r = Some (Inr (Some j)) \<Longrightarrow> j = dfc_chunk_id dfc \<and> j < length cs \<and>
      fs_nodes fs' (chunk_path (dfc_target_dir dfc) j (md_chunk_file_extension m)) = Some (FileNode (cs ! j))"
    and "healthy fs' = healthy fs"
proof -
  let ?p = "chunk_path (dfc_target_dir dfc) (dfc_chunk_id dfc) (md_chunk_file_extension m)"
  have "(\<forall>q. q \<noteq> ?p \<longrightarrow> fs_nodes fs' q = fs_nodes fs q) \<and> healthy fs' = healthy fs \<and>
    (\<forall>j. r = Some (Inr (Some j)) \<longrightarrow> j = dfc_chunk_id dfc \<and> j < length cs \<and> fs_nodes fs' ?p = Some (FileNode (cs ! j)))"
    using assms(1)
  proof (cases rule: receive_cases)
    case (saved bytes v)
    show ?thesis
      using saved(2)
    proof (cases rule: verify_and_save_cases)
      case no_write
      with saved(3) show ?thesis by auto
    next
      case (wrote data m' pf w)
      have "data = b" using fs_read_Inr [OF wrote(1)] meta(1) by simp
      with wrote(2) meta(2) have m': "m' = m" by simp
      have ok: "dfc_chunk_id dfc < length cs" "bytes = cs ! dfc_chunk_id dfc"
        using assms(4) wrote(4) unfolding m' describes_def by blast+
      have frame: "fs_nodes fs' q = fs_nodes fs q" if "q \<noteq> ?p" for q
        using fs_write_frame(1) [OF wrote(5)] that unfolding m' by blast
      have h: "healthy fs' = healthy fs" using wrote(5) by (rule healthy_write)
      have saved_ok: "j = dfc_chunk_id dfc \<and> j < length cs \<and> fs_nodes fs' ?p = Some (FileNode (cs ! j))"
        if "r = Some (Inr (Some j))" for j
      proof -
        have "v = Some (Inr ())" using saved(3) that by blast
        with wrote(6) have "w = Inr ()" by blast
        then have "fs' = fs\<lparr>fs_nodes := (fs_nodes fs)(?p \<mapsto> FileNode bytes)\<rparr>"
          using fs_write_ok wrote(5) unfolding m' by blast
        then show ?thesis using saved(4) [OF that] ok by simp
      qed
      show ?thesis using frame h saved_ok by blast
    qed
  qed auto
  then show "q \<noteq> ?p \<Longrightarrow> fs_nodes fs' q = fs_nodes fs q" and "healthy fs' = healthy fs"
    and "r = Some (Inr (Some j)) \<Longrightarrow> j = dfc_chunk_id dfc \<and> j < length cs \<and>
      fs_nodes fs' (chunk_path (dfc_target_dir dfc) j (md_chunk_file_extension m)) = Some (FileNode (cs ! j))"
    by blast+
qed

text \<open>The disk is changed by an answer only, and only at the file of its chunk.\<close>

lemma dl_exec_fs:
  assumes "truthful L m cs d" "describes M m cs"
  shows "(\<And>i. i \<in> set (dl_asked d) \<Longrightarrow>
        q \<noteq> chunk_path (pend_chunks_dir (dl_record d)) i (md_chunk_file_extension m)) \<Longrightarrow>
      fs_nodes (dl_fs (dl_exec M L S st d)) q = fs_nodes (dl_fs d) q"
    and "healthy (dl_fs (dl_exec M L S st d)) = healthy (dl_fs d)"
proof -
  obtain b where b: "fs_nodes (dl_fs d) (metadata_path (pend_chunks_dir (dl_record d))) = Some (FileNode b)"
    "dec_metadata L b = Inr m"
    using assms(1) unfolding truthful_def by blast
  have "((\<forall>i. i \<in> set (dl_asked d) \<longrightarrow> q \<noteq> chunk_path (pend_chunks_dir (dl_record d)) i (md_chunk_file_extension m)) \<longrightarrow>
      fs_nodes (dl_fs (dl_exec M L S st d)) q = fs_nodes (dl_fs d) q) \<and>
    healthy (dl_fs (dl_exec M L S st d)) = healthy (dl_fs d)"
  proof (cases st)
    case (Ask i tx sent)
    then show ?thesis by (simp split: sum.split)
  next
    case (Answer i reply sent)
    let ?dfc = "chunk_of_record (dl_record d) i"
    obtain r fs' commands where rc: "receive_file_chunk M L (dl_fs d) ?dfc reply sent = (r, fs', commands)"
      by (metis prod_cases3)
    have dir: "dfc_target_dir ?dfc = pend_chunks_dir (dl_record d)" "dfc_chunk_id ?dfc = i"
      by (simp_all add: chunk_of_record_def)
    note eff = receive_effect [OF rc, unfolded dir, OF b assms(2)]
    show ?thesis using Answer rc eff(1,3) by simp
  next
    case (Lost i e)
    then show ?thesis by simp
  next
    case Join
    then show ?thesis by (simp add: join_chunk_record split: list.split)
  qed
  then show "(\<And>i. i \<in> set (dl_asked d) \<Longrightarrow>
        q \<noteq> chunk_path (pend_chunks_dir (dl_record d)) i (md_chunk_file_extension m)) \<Longrightarrow>
      fs_nodes (dl_fs (dl_exec M L S st d)) q = fs_nodes (dl_fs d) q"
    and "healthy (dl_fs (dl_exec M L S st d)) = healthy (dl_fs d)" by blast+
qed

lemma truthful_exec:
  assumes "truthful L m cs d" "describes M m cs" "bookkeeping n d"
  shows "truthful L m cs (dl_exec M L S st d)"
proof -
  let ?d' = "dl_exec M L S st d" and ?dir = "pend_chunks_dir (dl_record d)"
  let ?file = "\<lambda>i. chunk_path ?dir i (md_chunk_file_extension m)"
  have ext: "CHR ''/'' \<notin> set (md_chunk_file_extension m)"
    using assms(2) unfolding describes_def by blast
  obtain b where b: "fs_nodes (dl_fs d) (metadata_path ?dir) = Some (FileNode b)" "dec_metadata L b = Inr m"
    using assms(1) unfolding truthful_def by blast
  have old: "i < length cs \<and> fs_nodes (dl_fs d) (?file i) = Some (FileNode (cs ! i))"
    if "i |\<in>| pend_downloaded_chunks (dl_record d) \<or> i \<in> set (landed (dl_finished d))" for i
    using assms(1) that unfolding truthful_def by blast
  have meta: "fs_nodes (dl_fs ?d') (metadata_path ?dir) = Some (FileNode b)"
    using dl_exec_fs(1) [OF assms(1,2)] chunk_neq_metadata_path [OF ext] b(1) by metis
  have kept: "fs_nodes (dl_fs ?d') (?file i) = Some (FileNode (cs ! i))"
    if "i |\<in>| pend_downloaded_chunks (dl_record d) \<or> i \<in> set (landed (dl_finished d))" for i
  proof -
    have "i \<notin> set (dl_asked d)"
      using assms(3) that unfolding bookkeeping_def busy_def by auto
    then have "fs_nodes (dl_fs ?d') (?file i) = fs_nodes (dl_fs d) (?file i)"
      by (intro dl_exec_fs(1) [OF assms(1,2)]) (auto simp: chunk_path_inject [OF ext])
    with old [OF that] show ?thesis by simp
  qed
  have new: "i < length cs \<and> fs_nodes (dl_fs ?d') (?file i) = Some (FileNode (cs ! i))"
    if i: "i |\<in>| pend_downloaded_chunks (dl_record ?d') \<or> i \<in> set (landed (dl_finished ?d'))" for i
  proof (cases "i |\<in>| pend_downloaded_chunks (dl_record d) \<or> i \<in> set (landed (dl_finished d))")
    case True
    then show ?thesis using old kept by blast
  next
    case False
    have "\<exists>j reply sent. st = Answer j reply sent"
    proof (cases st)
      case Join
      with i False show ?thesis
        by (cases "dl_finished d"; cases "hd (dl_finished d)"; cases "projr (hd (dl_finished d))")
           (auto simp: join_chunk_record)
    qed (use i False in \<open>auto split: sum.splits if_splits\<close>)
    then obtain j reply sent where st: "st = Answer j reply sent" by blast
    let ?dfc = "chunk_of_record (dl_record d) j"
    obtain r fs' commands where rc: "receive_file_chunk M L (dl_fs d) ?dfc reply sent = (r, fs', commands)"
      by (metis prod_cases3)
    have dir: "dfc_target_dir ?dfc = ?dir" "dfc_chunk_id ?dfc = j"
      by (simp_all add: chunk_of_record_def)
    note eff = receive_effect [OF rc, unfolded dir, OF b assms(2)]
    have "r = Some (Inr (Some i)) \<and> dl_fs ?d' = fs'"
      using i False rc by (cases r; cases "the r"; cases "projr (the r)") (auto simp: st split: if_splits)
    then show ?thesis using eff(2) [of i] by auto
  qed
  show ?thesis
    unfolding truthful_def dl_exec_record using meta b(2) new by blast
qed

end
