(* ===== verification/Download_Runs.thy ===== *)
theory Download_Runs
  imports Downloads_Correct
begin

text \<open>
  Whole runs of a download: the invariants of \<open>Downloads_Correct\<close> over any list of steps, the
  progress in the store, the measure that bounds a run, the run in which every peer is honest, and
  the move of a completed download to the published files.
\<close>

section \<open>Any run\<close>

definition dl_run :: "'p merkle \<Rightarrow> libs \<Rightarrow> 's Store \<Rightarrow> dl_step list \<Rightarrow> 's download \<Rightarrow> 's download" where
  "dl_run M L S steps d = fold (dl_exec M L S) steps d"

lemma dl_run_simps [simp]:
  "dl_run M L S [] d = d"
  "dl_run M L S (st # steps) d = dl_run M L S steps (dl_exec M L S st d)"
  by (simp_all add: dl_run_def)

lemma dl_run_induct [case_names start step]:
  assumes "P d" "\<And>st d. P d \<Longrightarrow> P (dl_exec M L S st d)"
  shows "P (dl_run M L S steps d)"
  using assms(1) by (induction steps arbitrary: d) (simp_all add: assms(2))

lemma dl_run_record [simp]:
  "pend_key (dl_record (dl_run M L S steps d)) = pend_key (dl_record d)"
  "pend_chunks_dir (dl_record (dl_run M L S steps d)) = pend_chunks_dir (dl_record d)"
  "pend_original_file_name (dl_record (dl_run M L S steps d)) = pend_original_file_name (dl_record d)"
  by (induction steps arbitrary: d) simp_all

lemma bookkeeping_run: "bookkeeping n d \<Longrightarrow> bookkeeping n (dl_run M L S steps d)"
  by (rule dl_run_induct) (simp_all add: bookkeeping_exec)

lemma truthful_run:
  assumes "truthful L m cs d" "describes M m cs" "bookkeeping n d"
  shows "truthful L m cs (dl_run M L S steps d)"
  using assms(1,3)
  by (induction steps arbitrary: d) (simp_all add: truthful_exec [OF _ assms(2)] bookkeeping_exec)

lemma healthy_run:
  assumes "truthful L m cs d" "describes M m cs" "bookkeeping n d"
  shows "healthy (dl_fs (dl_run M L S steps d)) = healthy (dl_fs d)"
  using assms(1,3)
  by (induction steps arbitrary: d)
    (simp_all add: truthful_exec [OF _ assms(2)] bookkeeping_exec dl_exec_fs(2) [OF _ assms(2)])

text \<open>Files that are not chunk files of the download are not touched.\<close>

lemma dl_run_frame:
  assumes "truthful L m cs d" "describes M m cs" "bookkeeping n d"
    and "\<And>i. q \<noteq> chunk_path (pend_chunks_dir (dl_record d)) i (md_chunk_file_extension m)"
  shows "fs_nodes (dl_fs (dl_run M L S steps d)) q = fs_nodes (dl_fs d) q"
  using assms(1,3,4)
  by (induction steps arbitrary: d)
    (simp_all add: truthful_exec [OF _ assms(2)] bookkeeping_exec dl_exec_fs(1) [OF _ assms(2)])

text \<open>How a task starts.\<close>

definition counts_only :: "filesys \<Rightarrow> FileMetadata \<Rightarrow> bytes list \<Rightarrow> PendingDownloadRecord \<Rightarrow> bool" where
  "counts_only fs m cs rec \<longleftrightarrow>
     (\<forall>i. i |\<in>| pend_downloaded_chunks rec \<longrightarrow> i < length cs \<and>
        fs_nodes fs (chunk_path (pend_chunks_dir rec) i (md_chunk_file_extension m)) = Some (FileNode (cs ! i)))"

lemma counts_only_fresh [simp]: "pend_downloaded_chunks rec = {||} \<Longrightarrow> counts_only fs m cs rec"
  by (simp add: counts_only_def)

lemma download_start_Inr:
  assumes "download_start L s fs rec = Inr (m, d)"
  shows "dl_record d = rec" "dl_store d = s" "dl_fs d = fs" "dl_sent d = []" "dl_first_error d = None"
    and "dl_waiting d = missing_chunks m rec" "dl_asked d = []" "dl_finished d = []"
    and "\<exists>b. fs_nodes fs (metadata_path (pend_chunks_dir rec)) = Some (FileNode b) \<and> dec_metadata L b = Inr m"
  using assms fs_read_Inr [of fs "metadata_path (pend_chunks_dir rec)"]
  by (auto simp: download_start_def node_at_child split: sum.splits)

lemma bookkeeping_start:
  assumes "download_start L s fs rec = Inr (m, d)" "counts_only fs m cs rec"
    and "length (md_merkle_proofs m) = length cs"
  shows "bookkeeping (length cs) d"
  using assms(2,3) unfolding bookkeeping_def busy_def counts_only_def
  by (auto simp: download_start_Inr [OF assms(1)] missing_chunks_def)

lemma truthful_start:
  assumes "download_start L s fs rec = Inr (m, d)" "counts_only fs m cs rec"
  shows "truthful L m cs d"
  using assms(2) download_start_Inr(9) [OF assms(1)] unfolding truthful_def counts_only_def
  by (simp add: download_start_Inr [OF assms(1)])

section \<open>The progress in the store\<close>

definition stored_behind :: "('s \<Rightarrow> bool) \<Rightarrow> ('s \<Rightarrow> PublishedFileKey \<rightharpoonup> PendingDownloadRecord)
    \<Rightarrow> 's download \<Rightarrow> bool" where
  "stored_behind I pending d \<longleftrightarrow> I (dl_store d) \<and>
     (\<forall>r. pending (dl_store d) (pend_key (dl_record d)) = Some r \<longrightarrow>
        pend_chunks_dir r = pend_chunks_dir (dl_record d) \<and>
        pend_downloaded_chunks r |\<subseteq>| pend_downloaded_chunks (dl_record d))"

lemma stored_behind_finished [simp]: "stored_behind I pending (d\<lparr>dl_finished := rs\<rparr>) = stored_behind I pending d"
  by (simp add: stored_behind_def)

lemma join_chunk_cases:
  obtains (same) "dl_store (join_chunk S r d) = dl_store d"
  | (stored) x where "put_pending_download S (dl_store d) (dl_record (join_chunk S r d)) =
      (x, dl_store (join_chunk S r d))"
  by (cases r; cases "projr r"; cases "the (projr r) |\<in>| pend_downloaded_chunks (dl_record d)")
     (auto simp: join_chunk_def Let_def prod_eq_iff split: option.split)

lemma join_chunk_grows:
  "pend_downloaded_chunks (dl_record d) |\<subseteq>| pend_downloaded_chunks (dl_record (join_chunk S r d))"
  by (auto simp: join_chunk_record split: sum.split option.split)

text \<open>Only \<open>Join\<close> changes the store.\<close>

lemma dl_exec_store:
  assumes "\<And>r rest. st = Join \<Longrightarrow> dl_finished d = r # rest \<Longrightarrow> P (join_chunk S r (d\<lparr>dl_finished := rest\<rparr>))"
    and "dl_store (dl_exec M L S st d) = dl_store d \<Longrightarrow> dl_record (dl_exec M L S st d) = dl_record d \<Longrightarrow>
      P (dl_exec M L S st d)"
  shows "P (dl_exec M L S st d)"
proof (cases st)
  case Join
  then show ?thesis using assms by (cases "dl_finished d") simp_all
qed (rule assms(2); simp split: sum.split prod.split)+

text \<open>A download through any store that keeps the contract.\<close>

context store_contract
begin

lemma stored_behind_join:
  assumes "stored_behind inv pending d"
  shows "stored_behind inv pending (join_chunk S r d)"
    and "published (dl_store (join_chunk S r d)) = published (dl_store d)"
    and "jobs (dl_store (join_chunk S r d)) = jobs (dl_store d)"
    and "k \<noteq> pend_key (dl_record d) \<Longrightarrow>
      pending (dl_store (join_chunk S r d)) k = pending (dl_store d) k"
proof -
  let ?d' = "join_chunk S r d" and ?key = "pend_key (dl_record d)"
  note inv = conjunct1 [OF assms [unfolded stored_behind_def]]
  note old = conjunct2 [OF assms [unfolded stored_behind_def]]
  note keys = join_chunk_record(1,2)
  have fx: "inv (dl_store ?d') \<and> published (dl_store ?d') = published (dl_store d) \<and>
      jobs (dl_store ?d') = jobs (dl_store d) \<and>
      (pending (dl_store ?d') = pending (dl_store d) \<or>
       pending (dl_store ?d') = (pending (dl_store d))(?key \<mapsto> dl_record ?d'))"
  proof (cases rule: join_chunk_cases [of "S" r d])
    case same
    with inv show ?thesis by simp
  next
    case (stored x)
    have "pending (dl_store ?d') = pending (dl_store d) \<or>
       pending (dl_store ?d') = (pending (dl_store d))(?key \<mapsto> dl_record ?d')"
      using stored pending.put_ok [OF inv, of "dl_record ?d'"] pending.put_err [OF inv, of "dl_record ?d'"]
      by (cases x) (simp_all add: keys)
    then show ?thesis
      using pending_put_frame [OF inv stored] pending.put_inv [OF inv stored] by blast
  qed
  have "pend_chunks_dir r' = pend_chunks_dir (dl_record d) \<and>
      pend_downloaded_chunks r' |\<subseteq>| pend_downloaded_chunks (dl_record ?d')"
    if "pending (dl_store ?d') ?key = Some r'" for r'
  proof (cases "r' = dl_record ?d'")
    case True
    then show ?thesis by (simp add: keys)
  next
    case False
    with that fx have "pending (dl_store d) ?key = Some r'" by auto
    with old show ?thesis by (meson join_chunk_grows order.trans)
  qed
  with fx show "stored_behind inv pending ?d'" by (simp add: stored_behind_def keys)
  show "published (dl_store ?d') = published (dl_store d)"
    "jobs (dl_store ?d') = jobs (dl_store d)"
    "k \<noteq> ?key \<Longrightarrow> pending (dl_store ?d') k = pending (dl_store d) k"
    using fx by auto
qed

lemma stored_behind_exec:
  assumes "stored_behind inv pending d"
  shows "stored_behind inv pending (dl_exec M L' S st d) \<and>
    published (dl_store (dl_exec M L' S st d)) = published (dl_store d) \<and>
    jobs (dl_store (dl_exec M L' S st d)) = jobs (dl_store d) \<and>
    (\<forall>k. k \<noteq> pend_key (dl_record d) \<longrightarrow>
      pending (dl_store (dl_exec M L' S st d)) k = pending (dl_store d) k)"
proof (rule dl_exec_store, goal_cases)
  case (1 r rest)
  have "stored_behind inv pending (d\<lparr>dl_finished := rest\<rparr>)" using assms by simp
  from stored_behind_join [OF this] show ?case by simp
next
  case 2
  then show ?case using assms by (simp add: stored_behind_def)
qed

lemma stored_behind_run:
  assumes "stored_behind inv pending d"
  shows "stored_behind inv pending (dl_run M L' S steps d)"
    and "published (dl_store (dl_run M L' S steps d)) = published (dl_store d)"
    and "jobs (dl_store (dl_run M L' S steps d)) = jobs (dl_store d)"
    and "k \<noteq> pend_key (dl_record d) \<Longrightarrow>
      pending (dl_store (dl_run M L' S steps d)) k = pending (dl_store d) k"
  using assms by (induction steps arbitrary: d) (simp_all add: stored_behind_exec)

end

section \<open>How long a run is\<close>

text \<open>Every subtask waits, asks, finishes and is joined, so a run has at most three steps for each.\<close>

definition dl_work :: "'s download \<Rightarrow> nat" where
  "dl_work d = 3 * length (dl_waiting d) + 2 * length (dl_asked d) + length (dl_finished d)"

lemma remove1_work: "i \<in> set xs \<Longrightarrow> length (remove1 i xs) < length xs"
  using length_pos_if_in_set [of i xs] by (simp add: length_remove1)

lemma dl_exec_work:
  "dl_exec M L S st d = d \<or> dl_work (dl_exec M L S st d) < dl_work d"
proof (cases st)
  case (Ask i tx sent)
  then show ?thesis
    using remove1_work [of i "dl_waiting d"] by (auto simp: dl_work_def split: sum.split)
next
  case (Answer i reply sent)
  then show ?thesis
    using remove1_work [of i "dl_asked d"] by (auto simp: dl_work_def split: prod.split)
next
  case (Lost i e)
  then show ?thesis
    using remove1_work [of i "dl_asked d"] remove1_work [of i "dl_waiting d"] by (auto simp: dl_work_def)
next
  case Join
  then show ?thesis by (auto simp: dl_work_def join_chunk_record split: list.split)
qed

section \<open>Honest peers\<close>

text \<open>
  The schedule of a download in which every request is sent and answered with the right chunk;
  nothing is said about the order.
\<close>

fun honest :: "bytes list \<Rightarrow> dl_step \<Rightarrow> bool" where
  "honest cs (Ask i tx sent) \<longleftrightarrow> sent"
| "honest cs (Answer i reply sent) \<longleftrightarrow> sent \<and> (i < length cs \<longrightarrow> reply = Some (Some (Success (cs ! i))))"
| "honest cs (Lost i e) \<longleftrightarrow> False"
| "honest cs Join \<longleftrightarrow> True"

definition dir_writable :: "filesys \<Rightarrow> path \<Rightarrow> string \<Rightarrow> bool" where
  "dir_writable fs dir ext \<longleftrightarrow> healthy fs \<and> node_at fs dir = Some DirNode \<and>
     (\<forall>i. fs_nodes fs (chunk_path dir i ext) \<noteq> Some DirNode)"

definition complete_proofs :: "'p merkle \<Rightarrow> FileMetadata \<Rightarrow> bytes list \<Rightarrow> bool" where
  "complete_proofs M m cs \<longleftrightarrow> length (md_merkle_proofs m) = length cs \<and>
     (\<forall>i < length cs. verify_chunk M (cs ! i) i (md_merkle_proofs m ! i) (md_merkle_root m)
        (md_total_chunks m) = Some True)"

definition on_course :: "nat \<Rightarrow> 's download \<Rightarrow> bool" where
  "on_course n d \<longleftrightarrow> dl_first_error d = None \<and>
     (\<forall>r \<in> set (dl_finished d). \<exists>i. r = Inr (Some i)) \<and>
     {..<n} \<subseteq> set (busy d) \<union> fset (pend_downloaded_chunks (dl_record d))"

lemma nth_opt_lt: "i < length xs \<Longrightarrow> nth_opt xs i = Some (xs ! i)"
  by (simp add: nth_opt_def)

lemma honest_receive:
  assumes meta: "fs_nodes fs (metadata_path dir) = Some (FileNode b)" "dec_metadata L b = Inr m"
    and w: "dir_writable fs dir (md_chunk_file_extension m)" and ext: "CHR ''/'' \<notin> set (md_chunk_file_extension m)"
    and cp: "complete_proofs M m cs" and i: "dfc_chunk_id dfc < length cs" "dfc_target_dir dfc = dir"
  obtains fs' commands where
    "receive_file_chunk M L fs dfc (Some (Some (Success (cs ! dfc_chunk_id dfc)))) True =
       (Some (Inr (Some (dfc_chunk_id dfc))), fs', commands)"
    "dir_writable fs' dir (md_chunk_file_extension m)"
proof -
  let ?i = "dfc_chunk_id dfc"
  let ?p = "chunk_path dir ?i (md_chunk_file_extension m)"
  let ?fs = "fs\<lparr>fs_nodes := (fs_nodes fs)(?p \<mapsto> FileNode (cs ! ?i))\<rparr>"
  have plain: "plain_name (chunk_file_name ?i (md_chunk_file_extension m))"
    by (rule plain_chunk_file_name [OF ext])
  have h: "healthy fs" and d: "node_at fs dir = Some DirNode"
    and nd: "\<And>i. fs_nodes fs (chunk_path dir i (md_chunk_file_extension m)) \<noteq> Some DirNode"
    using w unfolding dir_writable_def by blast+
  have wr: "fs_write fs ?p (cs ! ?i) = (Inr (), ?fs)"
    by (rule fs_write_healthy [OF h])
       (use nd [of ?i] d plain in \<open>simp_all add: chunk_path_def node_at_child parent_is_dir_child\<close>)
  have rd: "fs_read fs (metadata_path dir) = Inr b"
    by (rule fs_read_healthy [OF h _ meta(1)]) simp
  have pf: "nth_opt (md_merkle_proofs m) ?i = Some (md_merkle_proofs m ! ?i)"
    using cp i(1) by (intro nth_opt_lt) (simp add: complete_proofs_def)
  have v: "verify_chunk M (cs ! ?i) ?i (md_merkle_proofs m ! ?i) (md_merkle_root m) (md_total_chunks m) = Some True"
    using cp i(1) by (simp add: complete_proofs_def)
  have "receive_file_chunk M L fs dfc (Some (Some (Success (cs ! ?i)))) True =
      (Some (Inr (Some ?i)), ?fs, [ProvideFileChunk (chunk_request dfc)])"
    by (simp add: receive_file_chunk_def verify_and_save_file_chunk_def i(2) rd meta(2) pf v wr)
  moreover have "dir_writable ?fs dir (md_chunk_file_extension m)"
    using h d nd child_neq_dir [OF plain, of dir]
    by (auto simp: dir_writable_def node_at_def chunk_path_def)
  ultimately show ?thesis by (rule that)
qed

text \<open>One honest step.\<close>

lemma honest_exec:
  assumes "truthful L m cs d" "describes M m cs" "bookkeeping (length cs) d"
    and "dir_writable (dl_fs d) (pend_chunks_dir (dl_record d)) (md_chunk_file_extension m)"
    and "complete_proofs M m cs" "on_course (length cs) d" "honest cs st"
  shows "dir_writable (dl_fs (dl_exec M L S st d)) (pend_chunks_dir (dl_record d)) (md_chunk_file_extension m) \<and>
    on_course (length cs) (dl_exec M L S st d)"
proof (cases st)
  case (Ask i tx sent)
  then show ?thesis using assms(4,6,7) by (auto simp: on_course_def busy_def ask_file_chunk_def)
next
  case (Answer i reply sent)
  show ?thesis
  proof (cases "i \<in> set (dl_asked d)")
    case True
    let ?dfc = "chunk_of_record (dl_record d) i"
    have i: "i < length cs" using assms(3) True by (auto simp: bookkeeping_def busy_def)
    have dfc: "dfc_chunk_id ?dfc = i" "dfc_target_dir ?dfc = pend_chunks_dir (dl_record d)"
      by (simp_all add: chunk_of_record_def)
    obtain b where b: "fs_nodes (dl_fs d) (metadata_path (pend_chunks_dir (dl_record d))) = Some (FileNode b)"
      "dec_metadata L b = Inr m" using assms(1) unfolding truthful_def by blast
    have ext: "CHR ''/'' \<notin> set (md_chunk_file_extension m)" using assms(2) unfolding describes_def by blast
    obtain fs' commands where rc: "receive_file_chunk M L (dl_fs d) ?dfc (Some (Some (Success (cs ! i)))) True =
        (Some (Inr (Some i)), fs', commands)"
      "dir_writable fs' (pend_chunks_dir (dl_record d)) (md_chunk_file_extension m)"
      using honest_receive [OF b assms(4) ext assms(5), of ?dfc] i unfolding dfc by blast
    show ?thesis
      using assms(3,6,7) True i rc by (auto simp: Answer on_course_def busy_def bookkeeping_def)
  next
    case False
    with Answer assms(4,6) show ?thesis by simp
  qed
next
  case Join
  show ?thesis
  proof (cases "dl_finished d")
    case (Cons r rest)
    then obtain i where "r = Inr (Some i)" using assms(6) by (auto simp: on_course_def)
    then show ?thesis
      using Cons Join assms(4,6) by (auto simp: on_course_def busy_def join_chunk_def Let_def)
  qed (use Join assms(4,6) in simp)
qed (use assms(7) in simp)

lemma honest_run:
  assumes "truthful L m cs d" "describes M m cs" "bookkeeping (length cs) d"
    and "dir_writable (dl_fs d) (pend_chunks_dir (dl_record d)) (md_chunk_file_extension m)"
    and "complete_proofs M m cs" "on_course (length cs) d" "list_all (honest cs) steps"
  shows "on_course (length cs) (dl_run M L S steps d)"
  using assms(1,3,4,6,7)
proof (induction steps arbitrary: d)
  case (Cons st steps)
  have st: "honest cs st" using Cons.prems(5) by simp
  note e = honest_exec [OF Cons.prems(1) assms(2) Cons.prems(2,3) assms(5) Cons.prems(4) st, of S]
  show ?case
    using Cons.IH [OF truthful_exec [OF Cons.prems(1) assms(2) Cons.prems(2)] bookkeeping_exec [OF Cons.prems(2)]]
      e Cons.prems(5) by simp
qed simp

lemma on_course_start:
  assumes "download_start L s fs rec = Inr (m, d)" "length (md_merkle_proofs m) = n"
  shows "on_course n d"
  by (auto simp: on_course_def busy_def download_start_Inr [OF assms(1)] missing_chunks_def assms(2))

lemma fcard_upto:
  assumes "fset X = {..<n}" shows "fcard X = n"
  using assms by (simp add: fcard.rep_eq)

lemma honest_result:
  assumes "bookkeeping n d" "on_course n d" "download_result m d \<noteq> None"
    and "length (md_merkle_proofs m) = n"
  shows "download_result m d = Some (Inr True)"
proof -
  have e: "dl_waiting d = []" "dl_asked d = []" "dl_finished d = []"
    using assms(3) by (simp_all add: download_result_def split: if_splits)
  have "fset (pend_downloaded_chunks (dl_record d)) = {..<n}"
    using assms(1,2) e by (auto simp: bookkeeping_def on_course_def busy_def)
  from fcard_upto [OF this] show ?thesis
    using assms(2,4) e by (simp add: download_result_def on_course_def)
qed

text \<open>And in general a task that ends with \<open>true\<close> has counted every chunk.\<close>

lemma result_True:
  assumes "bookkeeping n d" "download_result m d = Some (Inr True)" "length (md_merkle_proofs m) = n"
  shows "fset (pend_downloaded_chunks (dl_record d)) = {..<n}"
proof -
  have "fcard (pend_downloaded_chunks (dl_record d)) = n"
    using assms(2,3) by (simp add: download_result_def split: if_splits option.splits)
  moreover have "fset (pend_downloaded_chunks (dl_record d)) \<subseteq> {..<n}"
    using assms(1) by (simp add: bookkeeping_def)
  ultimately show ?thesis
    by (intro card_subset_eq) (simp_all add: fcard.rep_eq)
qed

end
