(* ===== verification/Download_Completion.thy ===== *)
theory Download_Completion
  imports Download_Runs
begin

text \<open>
  The end of a download: the file is put together from its chunks, and its record moves from the
  pending downloads to the published files, which no failure can interrupt in such a way that the
  record is lost.
\<close>

section \<open>The move to the published files\<close>

definition published_of_pending :: "PendingDownloadRecord \<Rightarrow> bool \<Rightarrow> PublishedFileRecord" where
  "published_of_pending rec public =
     \<lparr>pub_key = pend_key rec, pub_original_file_name = pend_original_file_name rec,
      pub_chunks_dir = pend_chunks_dir rec, pub_public = public\<rparr>"

lemma published_of_pending_simps [simp]:
  "pub_key (published_of_pending rec p) = pend_key rec"
  "pub_chunks_dir (published_of_pending rec p) = pend_chunks_dir rec"
  "pub_public (published_of_pending rec p) = p"
  by (simp_all add: published_of_pending_def)

text \<open>How far the completion gets.\<close>

lemma process_completed_cases:
  assumes "process_completed L S s fs rec sender_open = (r, s', fs', commands)"
  obtains (not_restored) e where "restore_original_file L fs rec = (Inl e, fs')" "s' = s" "r = Inl (Dle_Processing e)"
      "commands = []"
  | (not_published) m e where "restore_original_file L fs rec = (Inr m, fs')"
      "put_published_file S s (published_of_pending rec (md_public m)) = (Inl e, s')" "r = Inl (Dle_Store e)"
      "commands = []"
  | (not_deleted) m u e s1 where "restore_original_file L fs rec = (Inr m, fs')"
      "put_published_file S s (published_of_pending rec (md_public m)) = (Inr u, s1)"
      "delete_pending_download S s1 (pend_key rec) = (Inl e, s')" "r = Inl (Dle_Store e)"
      "commands = []"
  | (moved) m u v s1 where "restore_original_file L fs rec = (Inr m, fs')"
      "put_published_file S s (published_of_pending rec (md_public m)) = (Inr u, s1)"
      "delete_pending_download S s1 (pend_key rec) = (Inr v, s')"
      "r = (if sender_open then Inr () else Inl Dle_ChannelClosed)"
      "commands = (if sender_open then [ProvideMetadata m] else [])"
proof -
  obtain x fs1 where x: "restore_original_file L fs rec = (x, fs1)" by fastforce
  show ?thesis
  proof (cases x)
    case (Inl e)
    then show ?thesis
      using assms x by (intro not_restored [of e]) (auto simp: process_completed_def)
  next
    case m: (Inr m)
    obtain y s1 where y: "put_published_file S s (published_of_pending rec (md_public m)) = (y, s1)" by fastforce
    show ?thesis
    proof (cases y)
      case (Inl e)
      then show ?thesis
        using assms x m y by (intro not_published [of m e]) (auto simp: process_completed_def published_of_pending_def)
    next
      case u: (Inr u)
      obtain z s2 where z: "delete_pending_download S s1 (pend_key rec) = (z, s2)" by fastforce
      show ?thesis
      proof (cases z)
        case (Inl e)
        then show ?thesis
          using assms x m y u z
          by (intro not_deleted [of m u s1 e]) (auto simp: process_completed_def published_of_pending_def)
      next
        case (Inr v)
        then show ?thesis
          using assms x m y u z
          by (intro moved [of m u s1 v])
            (auto simp: process_completed_def published_of_pending_def split: if_splits)
      qed
    qed
  qed
qed

context store_contract
begin

lemma process_completed_store:
  assumes "process_completed L' S s fs rec sender_open = (r, s', fs', commands)"
    and inv: "inv s"
  shows "inv s'"
    and "jobs s' = jobs s"
    and "k \<noteq> pend_key rec \<Longrightarrow> pending s' k = pending s k \<and>
      published s' k = published s k"
    and "pending s' (pend_key rec) = pending s (pend_key rec) \<or>
      (\<exists>p. published s' (pend_key rec) = Some (published_of_pending rec p))"
    and "commands \<noteq> [] \<Longrightarrow>
      (\<exists>p. published s' (pend_key rec) = Some (published_of_pending rec p)) \<and>
      pending s' (pend_key rec) = None"
    and "dom (published s) \<subseteq> dom (published s')"
    and "pending s' (pend_key rec) \<in> {pending s (pend_key rec), None}"
proof -
  have "pending s' (pend_key rec) \<in> {pending s (pend_key rec), None} \<and> dom (published s) \<subseteq> dom (published s') \<and> inv s' \<and> jobs s' = jobs s \<and>
    (\<forall>k. k \<noteq> pend_key rec \<longrightarrow> pending s' k = pending s k \<and>
       published s' k = published s k) \<and>
    (pending s' (pend_key rec) = pending s (pend_key rec) \<or>
      (\<exists>p. published s' (pend_key rec) = Some (published_of_pending rec p))) \<and>
    (commands \<noteq> [] \<longrightarrow>
      (\<exists>p. published s' (pend_key rec) = Some (published_of_pending rec p)) \<and>
      pending s' (pend_key rec) = None)"
    using assms(1)
  proof (cases rule: process_completed_cases)
    case (not_restored e)
    then show ?thesis using inv by simp
  next
    case (not_published m e)
    note i = published.put_inv [OF inv not_published(2)]
      and f = published_frame [OF inv not_published(2)]
      and k = published.put_keeps [OF inv not_published(2)]
    show ?thesis using i f k not_published(4) published.put_dom [OF inv not_published(2)] by simp
  next
    case (not_deleted m u e s1)
    note i1 = published.put_inv [OF inv not_deleted(2)]
      and f1 = published_frame [OF inv not_deleted(2)]
      and k1 = published.put_ok [OF inv not_deleted(2)]
    note i2 = pending.del_inv [OF i1 not_deleted(3)]
      and f2 = pending_del_frame [OF i1 not_deleted(3)]
      and k2 = pending.del_err [OF i1 not_deleted(3)]
    from k2 show ?thesis
    proof
      assume "pending s' = pending s1"
      with i2 f1 f2 k1 not_deleted(5) show ?thesis by auto
    next
      assume "pending s' = (pending s1)(pend_key rec := None)"
      with i2 f1 f2 k1 not_deleted(5) show ?thesis by auto
    qed
  next
    case (moved m u v s1)
    note i1 = published.put_inv [OF inv moved(2)]
      and f1 = published_frame [OF inv moved(2)]
      and k1 = published.put_ok [OF inv moved(2)]
    note i2 = pending.del_inv [OF i1 moved(3)]
      and f2 = pending_del_frame [OF i1 moved(3)]
      and k2 = pending.del_ok [OF i1 moved(3)]
    show ?thesis using i2 f1 f2 k1 k2 by auto
  qed
  then show "inv s'" "jobs s' = jobs s"
    "k \<noteq> pend_key rec \<Longrightarrow> pending s' k = pending s k \<and>
      published s' k = published s k"
    "pending s' (pend_key rec) = pending s (pend_key rec) \<or>
      (\<exists>p. published s' (pend_key rec) = Some (published_of_pending rec p))"
    "commands \<noteq> [] \<Longrightarrow>
      (\<exists>p. published s' (pend_key rec) = Some (published_of_pending rec p)) \<and>
      pending s' (pend_key rec) = None"
    "dom (published s) \<subseteq> dom (published s')"
    "pending s' (pend_key rec) \<in> {pending s (pend_key rec), None}"
    by blast+
qed

end

section \<open>The file\<close>

text \<open>
  A download that ends with \<open>true\<close> leaves every chunk on the disk, so the file can be put
  together: \<open>cs\<close> concatenated.
\<close>

lemma completed_restores:
  assumes "truthful L m cs d" "describes M m cs" "bookkeeping (length cs) d"
    and "length (md_merkle_proofs m) = length cs" "md_total_chunks m = length cs"
    and "download_result m d = Some (Inr True)" "healthy (dl_fs d)"
    and dir: "pend_chunks_dir (dl_record d) = path_join_str base dname" "plain_name dname"
      "md_chunks_dir m = pend_chunks_dir (dl_record d)"
    and "node_at (dl_fs d) base = Some DirNode" "plain_name (md_original_file_name m)"
    and free: "fs_nodes (dl_fs d) (path_join_str base (md_original_file_name m)) = None"
       "fs_nodes (dl_fs d) (path_join_str base (md_original_file_name m @ ''.part'')) \<noteq> Some DirNode"
  shows "\<exists>fs'. restore_original_file L (dl_fs d) (dl_record d) = (Inr m, fs') \<and>
    fs_nodes fs' (path_join_str base (md_original_file_name m)) = Some (FileNode (concat cs))"
proof -
  obtain b where b: "fs_nodes (dl_fs d) (metadata_path (pend_chunks_dir (dl_record d))) = Some (FileNode b)"
    "dec_metadata L b = Inr m" using assms(1) unfolding truthful_def by blast
  have ext: "CHR ''/'' \<notin> set (md_chunk_file_extension m)" using assms(2) unfolding describes_def by blast
  have par: "path_parent (md_chunks_dir m) = Some base" using dir by (simp add: path_parent_join_plain)
  have all: "fset (pend_downloaded_chunks (dl_record d)) = {..<length cs}"
    by (rule result_True [OF assms(3,6,4)])
  have "fs_nodes (dl_fs d) (chunk_path (md_chunks_dir m) i (md_chunk_file_extension m)) = Some (FileNode (cs ! i))"
    if "i < md_total_chunks m" for i
  proof -
    have "i \<in> fset (pend_downloaded_chunks (dl_record d))" using that all assms(5) by simp
    then show ?thesis using assms(1) unfolding truthful_def dir(3) by blast
  qed
  from restore_healthy [OF assms(7) b par assms(11,12) ext free this]
  show ?thesis by (simp add: assms(5) map_nth)
qed

text \<open>The metadata of a publication, and what it describes.\<close>

lemma published_length:
  assumes "process_file M L fs rsize rfault file_path public = (Inr m, fs1)"
    and "fs_read fs (path_of_string file_path) = Inr content"
  shows "length (md_merkle_proofs m) = length (chunks_of CHUNK_SIZE content)"
    and "md_total_chunks m = length (chunks_of CHUNK_SIZE content)"
    and "md_chunk_file_extension m = FILE_CHUNK_EXTENSION"
    and "plain_name (md_original_file_name m)"
    and "mk_root M (leaves_of M content) = Some (md_merkle_root m)"
    and "i < length (chunks_of CHUNK_SIZE content) \<Longrightarrow> md_merkle_proofs m ! i = mk_proof M (leaves_of M content) i"
proof -
  from assms obtain dir d name root where "m = expected_metadata M dir name content public root"
    "path_file_name (path_of_string file_path) = Some name" "mk_root M (leaves_of M content) = Some root"
    by (auto elim!: process_file_Inr)
  then show "length (md_merkle_proofs m) = length (chunks_of CHUNK_SIZE content)"
    "md_total_chunks m = length (chunks_of CHUNK_SIZE content)" "md_chunk_file_extension m = FILE_CHUNK_EXTENSION"
    "plain_name (md_original_file_name m)" "mk_root M (leaves_of M content) = Some (md_merkle_root m)"
    "i < length (chunks_of CHUNK_SIZE content) \<Longrightarrow> md_merkle_proofs m ! i = mk_proof M (leaves_of M content) i"
    using path_file_name_plain by (simp_all add: expected_metadata_def leaves_of_def)
qed

lemma downloaded_describes:
  assumes "process_file M L fs rsize rfault file_path public = (Inr m, fs1)"
    and "fs_read fs (path_of_string file_path) = Inr content"
    and "merkle_binding M (leaves_of M content) (md_merkle_root m)"
    and "no_second_preimage M (chunks_of CHUNK_SIZE content)"
  shows "describes M (m\<lparr>md_chunks_dir := dir\<rparr>) (chunks_of CHUNK_SIZE content)"
  by (rule published_describes [OF assms(3,4)]) (simp_all add: published_length [OF assms(1,2)])

text \<open>
  So a download from arbitrary peers that ends with \<open>true\<close> restores the published file.
\<close>

lemma download_restores:
  assumes "process_file M L0 fs0 rsize rfault file_path public = (Inr m, fs1)"
    and "fs_read fs0 (path_of_string file_path) = Inr content"
    and "merkle_binding M (leaves_of M content) (md_merkle_root m)"
    and "no_second_preimage M (chunks_of CHUNK_SIZE content)"
    and "download_start L s fs rec = Inr (m\<lparr>md_chunks_dir := pend_chunks_dir rec\<rparr>, d)"
    and "pend_downloaded_chunks rec = {||}"
    and "pend_chunks_dir rec = path_join_str base dname" "plain_name dname"
    and "healthy fs" "node_at fs base = Some DirNode"
    and "fs_nodes fs (path_join_str base (md_original_file_name m)) = None"
    and "fs_nodes fs (path_join_str base (md_original_file_name m @ ''.part'')) \<noteq> Some DirNode"
    and "download_result (m\<lparr>md_chunks_dir := pend_chunks_dir rec\<rparr>) (dl_run M L S steps d) = Some (Inr True)"
  shows "\<exists>fs2. restore_original_file L (dl_fs (dl_run M L S steps d)) (dl_record (dl_run M L S steps d)) =
      (Inr (m\<lparr>md_chunks_dir := pend_chunks_dir rec\<rparr>), fs2) \<and>
    fs_nodes fs2 (path_join_str base (md_original_file_name m)) = Some (FileNode content)"
proof -
  let ?m = "m\<lparr>md_chunks_dir := pend_chunks_dir rec\<rparr>" and ?cs = "chunks_of CHUNK_SIZE content"
  let ?d = "dl_run M L S steps d"
  note len = published_length [OF assms(1,2)]
  note desc = downloaded_describes [OF assms(1-4), of "pend_chunks_dir rec"]
  have co: "counts_only fs ?m ?cs rec" using assms(6) by simp
  note t = truthful_start [OF assms(5) co]
  have bk: "bookkeeping (length ?cs) d" by (rule bookkeeping_start [OF assms(5) co]) (simp add: len)
  note start = download_start_Inr [OF assms(5)]
  have plain: "plain_name (md_original_file_name m)" "plain_name (md_original_file_name m @ ''.part'')"
    using len(4) by (auto simp: plain_name_def)
  have frame: "fs_nodes (dl_fs ?d) q = fs_nodes fs q"
    if "length (components q) \<le> Suc (length (components base))" for q
  proof -
    have "q \<noteq> chunk_path (pend_chunks_dir (dl_record d)) i (md_chunk_file_extension ?m)" for i
      by (rule depth_neq) (use that assms(7,8) in
        \<open>simp add: start(1) len components_chunk_path path_join_components_length\<close>)
    from dl_run_frame [OF t desc bk this] show ?thesis by (simp add: start(3))
  qed
  have "\<exists>fs2. restore_original_file L (dl_fs ?d) (dl_record ?d) = (Inr ?m, fs2) \<and>
      fs_nodes fs2 (path_join_str base (md_original_file_name ?m)) = Some (FileNode (concat ?cs))"
  proof (rule completed_restores [OF truthful_run [OF t desc bk] desc bookkeeping_run [OF bk] _ _ assms(13) _ _ assms(8)])
    show "healthy (dl_fs ?d)" using healthy_run [OF t desc bk] assms(9) start(3) by simp
    show "node_at (dl_fs ?d) base = Some DirNode" using assms(10) frame [of base] by (auto simp: node_at_def split: if_splits)
    show "fs_nodes (dl_fs ?d) (path_join_str base (md_original_file_name ?m)) = None"
      "fs_nodes (dl_fs ?d) (path_join_str base (md_original_file_name ?m @ ''.part'')) \<noteq> Some DirNode"
      using assms(11,12) plain by (simp_all add: frame path_join_components_length)
  qed (use len assms(7) start(1) in simp_all)
  then show ?thesis by simp
qed

text \<open>And when every request is answered with the right chunk it does end with \<open>true\<close>.\<close>

lemma honest_completes:
  assumes "process_file M L0 fs0 rsize rfault file_path public = (Inr m, fs1)"
    and "fs_read fs0 (path_of_string file_path) = Inr content"
    and "merkle_binding M (leaves_of M content) (md_merkle_root m)"
    and "no_second_preimage M (chunks_of CHUNK_SIZE content)"
    and "merkle_complete M (leaves_of M content)"
    and "download_start L s fs rec = Inr (m\<lparr>md_chunks_dir := pend_chunks_dir rec\<rparr>, d)"
    and "counts_only fs m (chunks_of CHUNK_SIZE content) rec"
    and "dir_writable fs (pend_chunks_dir rec) FILE_CHUNK_EXTENSION"
    and "list_all (honest (chunks_of CHUNK_SIZE content)) steps"
    and "download_result m (dl_run M L S steps d) \<noteq> None"
  shows "download_result m (dl_run M L S steps d) = Some (Inr True)"
proof -
  let ?m = "m\<lparr>md_chunks_dir := pend_chunks_dir rec\<rparr>" and ?cs = "chunks_of CHUNK_SIZE content"
  note len = published_length [OF assms(1,2)]
  note desc = downloaded_describes [OF assms(1-4), of "pend_chunks_dir rec"]
  note start = download_start_Inr [OF assms(6)]
  have co: "counts_only fs ?m ?cs rec" using assms(7) by (simp add: counts_only_def)
  have bk: "bookkeeping (length ?cs) d" by (rule bookkeeping_start [OF assms(6) co]) (simp add: len)
  have cp: "complete_proofs M ?m ?cs"
    using verify_chunk_complete [OF assms(5) len(5)] by (simp add: complete_proofs_def len(1,2,6))
  have "on_course (length ?cs) (dl_run M L S steps d)"
    by (rule honest_run [OF truthful_start [OF assms(6) co] desc bk _ cp _ assms(9)])
       (use assms(8) start len on_course_start [OF assms(6)] in simp_all)
  then show ?thesis
    by (rule honest_result [OF bookkeeping_run [OF bk] _ assms(10)]) (simp add: len)
qed

end
