(* ===== verification/Download_Service.thy ===== *)
theory Download_Service
  imports Download_Completion
begin

text \<open>
  The download service as a whole: the tasks that its ticks have spawned, working concurrently on
  one store, one disk and one semaphore. A step is the visit of the loop of
  \<open>work_on_pending_downloads\<close> to one item of the stream, the start of a task, a step of one of
  its subtasks, or its end.
\<close>

datatype 's task = Spawned PendingDownloadRecord | Running FileMetadata "'s download"

record 's downloads =
  ds_service :: FileDownloadService
  ds_tasks :: "PublishedFileKey \<rightharpoonup> 's task"
  ds_store :: 's
  ds_fs :: filesys
  ds_sent :: "P2pCommand list"

datatype service_step =
  Visit "FileStoreError + PendingDownloadRecord"
| Start PublishedFileKey
| Subtask PublishedFileKey dl_step
| Finish PublishedFileKey bool

text \<open>A permit is held from the \<open>acquire\<close> of a subtask to its end, whatever the end is.\<close>

fun permits_after :: "dl_step \<Rightarrow> 's download \<Rightarrow> nat \<Rightarrow> nat" where
  "permits_after (Ask i tx sent) d p = (if i \<in> set (dl_waiting d) \<and> sent then p - 1 else p)"
| "permits_after (Answer i reply sent) d p = (if i \<in> set (dl_asked d) then Suc p else p)"
| "permits_after (Lost i e) d p = (if i \<in> set (dl_asked d) then Suc p else p)"
| "permits_after Join d p = p"

fun acquires :: "dl_step \<Rightarrow> bool" where
  "acquires (Ask i tx sent) \<longleftrightarrow> True"
| "acquires st \<longleftrightarrow> False"

text \<open>The end of a task, with the key leaving the set of active downloads.\<close>

definition task_end :: "PublishedFileKey \<Rightarrow> 's downloads \<Rightarrow> 's downloads" where
  "task_end key ds = ds
     \<lparr>ds_service := (ds_service ds)\<lparr>fds_active := fds_active (ds_service ds) |-| {|key|}\<rparr>,
      ds_tasks := (ds_tasks ds)(key := None)\<rparr>"

fun service_exec :: "'p merkle \<Rightarrow> libs \<Rightarrow> 's Store \<Rightarrow> service_step \<Rightarrow> 's downloads \<Rightarrow> 's downloads" where
  "service_exec M L S (Visit item) ds =
     (case work_on_stream (\<lambda>_. (fds_permits (ds_service ds), {||})) 0 (fds_active (ds_service ds)) [item] of
        (active, spawned) \<Rightarrow>
          ds\<lparr>ds_service := (ds_service ds)\<lparr>fds_active := active\<rparr>,
             ds_tasks := foldr (\<lambda>rec ts. ts(pend_key rec \<mapsto> Spawned rec)) spawned (ds_tasks ds)\<rparr>)"
| "service_exec M L S (Start key) ds =
     (case ds_tasks ds key of
        Some (Spawned rec) \<Rightarrow>
          (case download_start L (ds_store ds) (ds_fs ds) rec of
             Inl e \<Rightarrow> task_end key ds
           | Inr (m, d) \<Rightarrow> ds\<lparr>ds_tasks := (ds_tasks ds)(key \<mapsto> Running m d)\<rparr>)
      | _ \<Rightarrow> ds)"
| "service_exec M L S (Subtask key st) ds =
     (case ds_tasks ds key of
        Some (Running m d) \<Rightarrow>
          if acquires st \<and> fds_permits (ds_service ds) = 0 then ds
          else
            (let d' = dl_exec M L S st (d\<lparr>dl_store := ds_store ds, dl_fs := ds_fs ds, dl_sent := []\<rparr>)
             in ds\<lparr>ds_service := (ds_service ds)
                     \<lparr>fds_permits := permits_after st d (fds_permits (ds_service ds))\<rparr>,
                   ds_tasks := (ds_tasks ds)(key \<mapsto> Running m d'),
                   ds_store := dl_store d', ds_fs := dl_fs d', ds_sent := ds_sent ds @ dl_sent d'\<rparr>)
      | _ \<Rightarrow> ds)"
| "service_exec M L S (Finish key sender_open) ds =
     (case ds_tasks ds key of
        Some (Running m d) \<Rightarrow>
          (case download_result m d of
             None \<Rightarrow> ds
           | Some result \<Rightarrow>
               (case download_end L S result (d\<lparr>dl_store := ds_store ds, dl_fs := ds_fs ds\<rparr>) sender_open of
                  (s', fs', commands) \<Rightarrow>
                    task_end key
                      (ds\<lparr>ds_store := s', ds_fs := fs', ds_sent := ds_sent ds @ commands\<rparr>)))
      | _ \<Rightarrow> ds)"

definition service_run :: "'p merkle \<Rightarrow> libs \<Rightarrow> 's Store \<Rightarrow> service_step list \<Rightarrow> 's downloads \<Rightarrow> 's downloads" where
  "service_run M L S steps ds = fold (service_exec M L S) steps ds"

definition service_start :: "u16 \<Rightarrow> 's \<Rightarrow> filesys \<Rightarrow> 's downloads" where
  "service_start max_active_downloads s fs =
     \<lparr>ds_service = FileDownloadService_new max_active_downloads, ds_tasks = Map.empty,
      ds_store = s, ds_fs = fs, ds_sent = []\<rparr>"

section \<open>Tasks and permits\<close>

fun task_record :: "'s task \<Rightarrow> PendingDownloadRecord" where
  "task_record (Spawned rec) = rec"
| "task_record (Running m d) = dl_record d"

fun task_requests :: "'s task \<Rightarrow> usize list" where
  "task_requests (Spawned rec) = []"
| "task_requests (Running m d) = dl_asked d"

text \<open>The requests for chunks that wait for an answer, of all tasks together.\<close>

definition requests_of :: "(PublishedFileKey \<rightharpoonup> 's task) \<Rightarrow> PublishedFileKey \<Rightarrow> nat" where
  "requests_of ts k = (case ts k of None \<Rightarrow> 0 | Some t \<Rightarrow> length (task_requests t))"

definition open_requests :: "'s downloads \<Rightarrow> nat" where
  "open_requests ds = (\<Sum>k \<in> fset (fds_active (ds_service ds)). requests_of (ds_tasks ds) k)"

lemma requests_of_upd:
  "requests_of (ts(k := t)) k' = (if k' = k then case t of None \<Rightarrow> 0 | Some t \<Rightarrow> length (task_requests t)
     else requests_of ts k')"
  by (simp add: requests_of_def)

definition service_inv :: "nat \<Rightarrow> 's downloads \<Rightarrow> bool" where
  "service_inv n ds \<longleftrightarrow>
     dom (ds_tasks ds) = fset (fds_active (ds_service ds)) \<and>
     (\<forall>k t. ds_tasks ds k = Some t \<longrightarrow> pend_key (task_record t) = k) \<and>
     fds_permits (ds_service ds) + open_requests ds = n"

lemma service_inv_start [simp]: "service_inv (unat n) (service_start n s fs)"
  by (simp add: service_inv_def service_start_def FileDownloadService_new_def open_requests_def)

text \<open>One visit: at most one task more, and never a second one for a key.\<close>

lemma visit_cases:
  assumes "work_on_stream (\<lambda>_. (p, {||})) 0 active [item] = (active', spawned)"
  obtains (nothing) "active' = active" "spawned = []"
  | (spawn) rec where "item = Inr rec" "pend_key rec |\<notin>| active" "p \<noteq> 0"
      "active' = finsert (pend_key rec) active" "spawned = [rec]"
  using assms by (auto split: sum.splits if_splits)

lemma open_requests_upd:
  assumes "dom (ds_tasks ds) = fset (fds_active (ds_service ds))" "ds_tasks ds key = Some t"
    and "fds_active (ds_service ds') = fds_active (ds_service ds)" "ds_tasks ds' = (ds_tasks ds)(key \<mapsto> t')"
  shows "open_requests ds' + length (task_requests t) = open_requests ds + length (task_requests t')"
proof -
  let ?A = "fset (fds_active (ds_service ds))"
  have k: "key \<in> ?A" using assms(1,2) by blast
  have "open_requests ds = length (task_requests t) + sum (requests_of (ds_tasks ds)) (?A - {key})"
    unfolding open_requests_def using sum.remove [OF _ k, of "requests_of (ds_tasks ds)"] assms(2)
    by (simp add: requests_of_def)
  moreover have "sum (requests_of (ds_tasks ds')) (?A - {key}) = sum (requests_of (ds_tasks ds)) (?A - {key})"
    by (intro sum.cong) (simp_all add: assms(4) requests_of_upd)
  then have "open_requests ds' = length (task_requests t') + sum (requests_of (ds_tasks ds)) (?A - {key})"
    unfolding open_requests_def assms(3) using sum.remove [OF _ k, of "requests_of (ds_tasks ds')"]
    by (simp add: assms(4) requests_of_upd)
  ultimately show ?thesis by simp
qed

lemma open_requests_end:
  assumes "dom (ds_tasks ds) = fset (fds_active (ds_service ds))" "ds_tasks ds key = Some t"
  shows "open_requests ds = open_requests (task_end key ds) + length (task_requests t)"
proof -
  let ?A = "fset (fds_active (ds_service ds))"
  have k: "key \<in> ?A" using assms(1,2) by blast
  have "sum (requests_of ((ds_tasks ds)(key := None))) (?A - {key}) = sum (requests_of (ds_tasks ds)) (?A - {key})"
    by (intro sum.cong) (simp_all add: requests_of_upd)
  then have "open_requests (task_end key ds) = sum (requests_of (ds_tasks ds)) (?A - {key})"
    unfolding open_requests_def task_end_def by simp
  then show ?thesis
    unfolding open_requests_def using sum.remove [OF _ k, of "requests_of (ds_tasks ds)"] assms(2)
    by (simp add: requests_of_def)
qed

lemma service_inv_end:
  assumes "service_inv n ds" "ds_tasks ds key = Some t" "task_requests t = []"
  shows "service_inv n (task_end key ds)"
  using assms open_requests_end [of ds key t]
  by (auto simp: service_inv_def task_end_def)

lemma task_end_world [simp]:
  "ds_store (task_end key ds) = ds_store ds" "ds_fs (task_end key ds) = ds_fs ds"
  "ds_sent (task_end key ds) = ds_sent ds"
  by (simp_all add: task_end_def)

lemma permits_exec:
  assumes "\<not> (acquires st \<and> p = 0)"
  shows "permits_after st d p + length (dl_asked (dl_exec M L S st (d\<lparr>dl_store := s, dl_fs := fs, dl_sent := []\<rparr>)))
    = p + length (dl_asked d)"
proof (cases st)
  case (Answer i reply sent)
  then show ?thesis
    using length_pos_if_in_set [of i "dl_asked d"] by (auto simp: length_remove1 split: prod.split)
next
  case (Lost i e)
  then show ?thesis
    using length_pos_if_in_set [of i "dl_asked d"] by (auto simp: length_remove1)
next
  case Join
  then show ?thesis by (simp add: join_chunk_record split: list.split)
qed (use assms in \<open>auto simp: ask_file_chunk_def\<close>)

lemma not_running:
  "\<forall>m d. x \<noteq> Some (Running m d) \<Longrightarrow>
    (case x of None \<Rightarrow> y | Some (Spawned r) \<Rightarrow> y | Some (Running m d) \<Rightarrow> f m d) = y"
  by (cases x; cases "the x") auto

lemma service_inv_exec:
  assumes "service_inv n ds"
  shows "service_inv n (service_exec M L S st ds)"
proof (cases st)
  case (Visit item)
  obtain active spawned where v: "work_on_stream (\<lambda>_. (fds_permits (ds_service ds), {||})) 0
      (fds_active (ds_service ds)) [item] = (active, spawned)" by fastforce
  then show ?thesis
  proof (cases rule: visit_cases)
    case nothing
    with v Visit assms show ?thesis by simp
  next
    case (spawn rec)
    have "ds_tasks ds (pend_key rec) = None"
      using spawn(2) assms unfolding service_inv_def by blast
    then have "(\<Sum>k \<in> fset (fds_active (ds_service ds)).
        requests_of ((ds_tasks ds)(pend_key rec \<mapsto> Spawned rec)) k) = open_requests ds"
      unfolding open_requests_def using spawn(2) by (intro sum.cong) (auto simp: requests_of_upd)
    then show ?thesis
      using v Visit assms spawn(2) by (auto simp: spawn(4,5) service_inv_def open_requests_def requests_of_upd)
  qed
next
  case (Start key)
  consider rec where "ds_tasks ds key = Some (Spawned rec)"
    | "\<nexists>rec. ds_tasks ds key = Some (Spawned rec)" by blast
  then show ?thesis
  proof cases
    case (1 rec)
    show ?thesis
    proof (cases "download_start L (ds_store ds) (ds_fs ds) rec")
      case (Inl e)
      then show ?thesis using 1 Start service_inv_end [OF assms 1] by simp
    next
      case (Inr x)
      obtain m d where x: "x = (m, d)" by fastforce
      note d = download_start_Inr [OF Inr [unfolded x]]
      let ?ds = "ds\<lparr>ds_tasks := (ds_tasks ds)(key \<mapsto> Running m d)\<rparr>"
      have "open_requests ?ds = open_requests ds"
        using open_requests_upd [of ds key "Spawned rec" ?ds "Running m d"] assms 1 d
        by (simp add: service_inv_def)
      moreover have "pend_key (dl_record d) = key"
        using assms 1 d(1) unfolding service_inv_def by fastforce
      ultimately show ?thesis using 1 Start Inr x assms by (auto simp: service_inv_def)
    qed
  next
    case 2
    then show ?thesis using Start assms by (auto split: option.split task.split)
  qed
next
  case (Subtask key s)
  consider m d where "ds_tasks ds key = Some (Running m d)" "\<not> (acquires s \<and> fds_permits (ds_service ds) = 0)"
    | "service_exec M L S st ds = ds"
    by (cases "\<exists>m d. ds_tasks ds key = Some (Running m d)";
        cases "acquires s \<and> fds_permits (ds_service ds) = 0") (auto simp: Subtask not_running)
  then show ?thesis
  proof cases
    case (1 m d)
    let ?d = "dl_exec M L S s (d\<lparr>dl_store := ds_store ds, dl_fs := ds_fs ds, dl_sent := []\<rparr>)"
    let ?ds = "service_exec M L S st ds"
    have ds: "?ds = ds\<lparr>ds_service := (ds_service ds)
         \<lparr>fds_permits := permits_after s d (fds_permits (ds_service ds))\<rparr>,
       ds_tasks := (ds_tasks ds)(key \<mapsto> Running m ?d),
       ds_store := dl_store ?d, ds_fs := dl_fs ?d, ds_sent := ds_sent ds @ dl_sent ?d\<rparr>"
      using 1 Subtask by (auto simp: Let_def)
    have "open_requests ?ds + length (dl_asked d) = open_requests ds + length (dl_asked ?d)"
      using open_requests_upd [of ds key "Running m d" ?ds "Running m ?d"] assms 1(1)
      by (simp add: service_inv_def ds)
    moreover have "pend_key (dl_record ?d) = key"
      using assms 1(1) unfolding service_inv_def by fastforce
    ultimately show ?thesis
      using assms 1(1) permits_exec [OF 1(2), where M = M and L = L and S = S and d = d and s = "ds_store ds" and fs = "ds_fs ds"]
      by (auto simp: ds service_inv_def)
  next
    case 2
    with assms show ?thesis by simp
  qed
next
  case (Finish key ok)
  consider m d r where "ds_tasks ds key = Some (Running m d)" "download_result m d = Some r"
    | "service_exec M L S st ds = ds"
  proof (cases "\<exists>m d. ds_tasks ds key = Some (Running m d)")
    case True
    then obtain m d where "ds_tasks ds key = Some (Running m d)" by blast
    then show ?thesis using that Finish by (cases "download_result m d") auto
  qed (use that(2) in \<open>simp add: Finish not_running\<close>)
  then show ?thesis
  proof cases
    case (1 m d r)
    obtain s' fs' cmds where e: "download_end L S r (d\<lparr>dl_store := ds_store ds, dl_fs := ds_fs ds\<rparr>) ok =
        (s', fs', cmds)" by (metis prod_cases3)
    let ?ds = "ds\<lparr>ds_store := s', ds_fs := fs', ds_sent := ds_sent ds @ cmds\<rparr>"
    have "service_inv n ?ds" using assms by (simp add: service_inv_def open_requests_def)
    moreover have "dl_asked d = []" using 1(2) by (simp add: download_result_def split: if_splits)
    ultimately show ?thesis using 1 e Finish service_inv_end [of n ?ds key "Running m d"] by simp
  next
    case 2
    with assms show ?thesis by simp
  qed
qed

lemma service_run_simps [simp]:
  "service_run M L S [] ds = ds"
  "service_run M L S (st # steps) ds = service_run M L S steps (service_exec M L S st ds)"
  by (simp_all add: service_run_def)

lemma service_inv_run: "service_inv n ds \<Longrightarrow> service_inv n (service_run M L S steps ds)"
  by (induction steps arbitrary: ds) (simp_all add: service_inv_exec)

section \<open>The store\<close>

text \<open>
  No step of any task takes a record out of the store for good: a key that is pending stays
  pending or becomes published, and a published key stays.
\<close>

definition keeps_records :: "('s \<Rightarrow> bool) \<Rightarrow> ('s \<Rightarrow> PublishedFileKey \<rightharpoonup> PublishedFileRecord)
    \<Rightarrow> ('s \<Rightarrow> PublishedFileKey \<rightharpoonup> PendingDownloadRecord) \<Rightarrow> ('s \<Rightarrow> PublishedFileKey \<rightharpoonup> FileMetadata)
    \<Rightarrow> 's \<Rightarrow> 's \<Rightarrow> bool" where
  "keeps_records I published pending jobs s s' \<longleftrightarrow> I s' \<and> jobs s' = jobs s \<and>
     dom (published s) \<subseteq> dom (published s') \<and>
     dom (pending s) \<subseteq> dom (pending s') \<union> dom (published s')"

lemma keeps_records_refl: "I s \<Longrightarrow> keeps_records I published pending jobs s s"
  by (simp add: keeps_records_def)

lemma keeps_records_trans:
  "keeps_records I published pending jobs s s' \<Longrightarrow> keeps_records I published pending jobs s' s'' \<Longrightarrow> keeps_records I published pending jobs s s''"
  unfolding keeps_records_def by (intro conjI; elim conjE) (simp | blast)+

context store_contract
begin

lemma dl_exec_keeps:
  assumes "inv (dl_store d)"
  shows "keeps_records inv published pending jobs (dl_store d) (dl_store (dl_exec M L' S st d))"
proof (rule dl_exec_store, goal_cases)
  case (1 r rest)
  let ?d = "d\<lparr>dl_finished := rest\<rparr>"
  have inv: "inv (dl_store ?d)" using assms by simp
  show ?case
  proof (cases rule: join_chunk_cases [of "S" r ?d])
    case same
    with assms show ?thesis by (simp add: keeps_records_refl)
  next
    case (stored x)
    show ?thesis
      using pending_put_frame [OF inv stored] pending.put_inv [OF inv stored]
        pending.put_dom [OF inv stored] by (auto simp: keeps_records_def)
  qed
next
  case 2
  with assms show ?case by (simp add: keeps_records_refl)
qed

lemma download_end_keeps:
  assumes "inv (dl_store d)" "download_end L' S r d ok = (s', fs', cmds)"
  shows "keeps_records inv published pending jobs (dl_store d) s'"
proof (cases "r = Inr True")
  case True
  obtain x where p: "process_completed L' S (dl_store d) (dl_fs d) (dl_record d) ok = (x, s', fs', cmds)"
    using assms(2) True by (auto simp: download_end_def prod_eq_iff)
  note e = process_completed_store [OF p assms(1)]
  have "k \<in> dom (pending s') \<union> dom (published s')"
    if "k \<in> dom (pending (dl_store d))" for k
    using e(3) [of k] e(4) that by (cases "k = pend_key (dl_record d)") (auto simp: dom_def)
  with e(1,2,6) show ?thesis unfolding keeps_records_def by blast
next
  case False
  then have "s' = dl_store d"
    using assms(2) by (auto simp: download_end_def split: sum.splits bool.splits)
  with assms(1) show ?thesis by (simp add: keeps_records_refl)
qed

lemma service_exec_keeps:
  assumes "inv (ds_store ds)"
  shows "keeps_records inv published pending jobs (ds_store ds) (ds_store (service_exec M L' S st ds))"
proof -
  have same: ?thesis if "ds_store (service_exec M L' S st ds) = ds_store ds"
    using assms that by (simp add: keeps_records_refl)
  show ?thesis
  proof (cases st)
    case (Visit item)
    then show ?thesis by (intro same) (simp split: prod.split)
  next
    case (Start key)
    then show ?thesis by (intro same) (simp split: option.split task.split sum.split prod.split)
  next
    case (Subtask key s)
    show ?thesis
    proof (cases "\<exists>m d. ds_tasks ds key = Some (Running m d)")
      case True
      then obtain m d where r: "ds_tasks ds key = Some (Running m d)" by blast
      let ?d = "d\<lparr>dl_store := ds_store ds, dl_fs := ds_fs ds, dl_sent := []\<rparr>"
      have "keeps_records inv published pending jobs (ds_store ds) (dl_store (dl_exec M L' S s ?d))"
        using dl_exec_keeps [of ?d] assms by simp
      then show ?thesis using r Subtask assms by (simp add: Let_def keeps_records_refl)
    qed (intro same, simp add: Subtask not_running)
  next
    case (Finish key ok)
    show ?thesis
    proof (cases "\<exists>m d r. ds_tasks ds key = Some (Running m d) \<and> download_result m d = Some r")
      case True
      then obtain m d r where r: "ds_tasks ds key = Some (Running m d)" "download_result m d = Some r" by blast
      obtain s' fs' cmds where e: "download_end L' S r
          (d\<lparr>dl_store := ds_store ds, dl_fs := ds_fs ds\<rparr>) ok = (s', fs', cmds)" by (metis prod_cases3)
      then show ?thesis using download_end_keeps [OF _ e] r Finish assms by simp
    next
      case False
      then show ?thesis
        by (intro same; cases "ds_tasks ds key"; cases "the (ds_tasks ds key)")
           (auto simp: Finish)
    qed
  qed
qed

lemma service_run_keeps:
  "inv (ds_store ds) \<Longrightarrow>
   keeps_records inv published pending jobs (ds_store ds) (ds_store (service_run M L' S steps ds))"
proof (induction steps arbitrary: ds)
  case (Cons st steps)
  note e = service_exec_keeps [OF Cons.prems, of M L' st]
  show ?case
    using keeps_records_trans [OF e Cons.IH] e by (simp add: keeps_records_def)
qed (simp add: keeps_records_refl)

end

end
