(* ===== verification/Sample_Downloads.thy ===== *)
theory Sample_Downloads
  imports Download_Service Chunking_Props Sample_Store
begin

text \<open>
  A download of the sample file \<open>/f\<close>, used only to evaluate the theorems at an input: a disk with
  the metadata file of one chunk, a store in which the download is pending, and the three steps of
  its only subtask.
\<close>

definition dl_dir :: path where
  "dl_dir = Path True [''f_chunks'']"

definition dl_pending :: PendingDownloadRecord where
  "dl_pending = sample_record dl_dir"

definition dl_complete :: PendingDownloadRecord where
  "dl_complete = dl_pending\<lparr>pend_downloaded_chunks := {|0|}\<rparr>"

definition dl_published :: PublishedFileRecord where
  "dl_published = published_of_pending dl_pending True"

text \<open>A codec that knows the record before and after the chunk has been counted.\<close>

definition dl_libs :: libs where
  "dl_libs = (sample_libs sample_metadata dl_published dl_pending sample_search)
     \<lparr>enc_pending := (\<lambda>x. if x = dl_pending then Inr [3] else if x = dl_complete then Inr [5]
        else Inl ''unsupported''),
      dec_pending := (\<lambda>b. if b = [3] then Inr dl_pending else if b = [5] then Inr dl_complete
        else Inl ''malformed'')\<rparr>"

lemma dl_libs_ok [simp]: "libs_ok dl_libs"
  using sample_libs_ok [of sample_metadata dl_published dl_pending sample_search]
  by (auto simp: libs_ok_def dl_libs_def split: if_splits)

abbreviation dl_M :: "bytes merkle" where
  "dl_M \<equiv> sample_merkle [[1, 2, 3]]"

definition dl_disk :: filesys where
  "dl_disk = sample_fs [dl_dir \<mapsto> DirNode, metadata_path dl_dir \<mapsto> FileNode [1]]"

definition dl_steps :: "dl_step list" where
  "dl_steps = [Ask 0 0 True, Answer 0 (Some (Some (Success [1, 2, 3]))) True, Join]"

abbreviation dl_S :: "trees Store" where
  "dl_S \<equiv> rocks_store dl_libs sample_db"

definition dl_stored :: trees where
  "dl_stored = sample_trees(PENDING_DOWNLOADS_COLUMN_FAMILY_NAME :=
     RBT.insert (key_bytes (pend_key dl_pending)) [3] RBT.empty)"

definition dl_begun :: "trees download" where
  "dl_begun = \<lparr>dl_record = dl_pending, dl_first_error = None, dl_waiting = [0], dl_asked = [],
     dl_finished = [], dl_store = dl_stored, dl_fs = dl_disk, dl_sent = []\<rparr>"

lemma dl_dirs [simp]:
  "pend_chunks_dir dl_pending = dl_dir" "pend_downloaded_chunks dl_pending = {||}"
  "pend_original_file_name dl_pending = ''f''"
  by (simp_all add: dl_pending_def sample_record_def PendingDownloadRecord_new_def)

lemma dl_dir_join: "dl_dir = path_join_str (Path True []) ''f_chunks''"
  by (simp add: dl_dir_def path_join_plain plain_name_def)

lemma sample_metadata_simps [simp]:
  "md_merkle_proofs sample_metadata = [[0]]" "md_total_chunks sample_metadata = 1"
  "md_chunk_file_extension sample_metadata = FILE_CHUNK_EXTENSION" "md_chunks_dir sample_metadata = dl_dir"
  "md_original_file_name sample_metadata = ''f''" "md_merkle_root sample_metadata = replicate 32 0"
  by (simp_all add: sample_metadata_def sample_chunks dl_dir_def leaves_of_def)
     (simp add: expected_metadata_def leaves_of_def sample_chunks sample_merkle_def)

lemma dl_libs_simps [simp]:
  "dec_metadata dl_libs [1] = Inr sample_metadata" "enc_pending dl_libs dl_pending = Inr [3]"
  "dec_pending dl_libs [3] = Inr dl_pending" "dec_pending dl_libs [5] = Inr dl_complete"
  by (simp_all add: dl_libs_def)

lemma dl_metadata_neq [simp]: "metadata_path dl_dir \<noteq> dl_dir" "dl_dir \<noteq> metadata_path dl_dir"
  by (simp_all add: child_neq_dir)

lemma dl_start: "download_start dl_libs dl_stored dl_disk dl_pending = Inr (sample_metadata, dl_begun)"
  by (simp add: download_start_def dl_disk_def fs_read_healthy missing_chunks_def dl_begun_def)

lemma dl_store_inv: "rocks_inv dl_libs sample_db sample_contents dl_stored"
  by (simp add: rocks_inv_def decodes_def dl_stored_def sample_trees_def)
     (simp add: sample_contents_def sample_trees_def)

lemma dl_store_pending:
  "rocks_pending dl_libs sample_contents dl_stored (pend_key dl_pending) = Some dl_pending"
  by (simp add: rocks_pending_def column_lookup_def dl_stored_def)

text \<open>The run counts the chunk.\<close>

lemma dl_writable: "dir_writable dl_disk dl_dir FILE_CHUNK_EXTENSION"
  by (auto simp: dir_writable_def dl_disk_def node_at_def chunk_path_def child_neq_dir plain_chunk_file_name)

lemma dl_proofs: "complete_proofs dl_M sample_metadata [[1, 2, 3]]"
  by (simp add: complete_proofs_def) (simp add: verify_chunk_def sample_merkle_def)

lemma dl_receive:
  obtains fs' commands where
    "receive_file_chunk dl_M dl_libs dl_disk (chunk_of_record dl_pending 0) (Some (Some (Success [1, 2, 3]))) True =
       (Some (Inr (Some 0)), fs', commands)"
proof (rule honest_receive [where L = dl_libs and dfc = "chunk_of_record dl_pending 0"])
  show "fs_nodes dl_disk (metadata_path dl_dir) = Some (FileNode [1])" by (simp add: dl_disk_def)
  show "complete_proofs dl_M sample_metadata [[1, 2, 3]]" by (rule dl_proofs)
qed (use dl_writable that in \<open>simp_all add: chunk_of_record_def\<close>)

lemma dl_put:
  "put_pending_download dl_S dl_stored dl_complete =
     (Inr (), dl_stored(PENDING_DOWNLOADS_COLUMN_FAMILY_NAME :=
        RBT.insert (key_bytes (pend_key dl_pending)) [5] (dl_stored PENDING_DOWNLOADS_COLUMN_FAMILY_NAME)))"
proof -
  have "dl_complete \<noteq> dl_pending"
    by (rule notI, drule arg_cong [of _ _ pend_downloaded_chunks]) (simp add: dl_complete_def)
  then have "enc_pending dl_libs dl_complete = Inr [5]" by (simp add: dl_libs_def)
  then show ?thesis
    by (simp add: rocks_store_def rocks_put_def pending_entry_def get_cf_def) (simp add: dl_complete_def)
qed

lemma dl_ran:
  "download_result sample_metadata (dl_run dl_M dl_libs dl_S dl_steps dl_begun) = Some (Inr True)"
  "dl_record (dl_run dl_M dl_libs dl_S dl_steps dl_begun) = dl_complete"
  "dl_store (dl_run dl_M dl_libs dl_S dl_steps dl_begun) = dl_stored(PENDING_DOWNLOADS_COLUMN_FAMILY_NAME :=
     RBT.insert (key_bytes (pend_key dl_pending)) [5] (dl_stored PENDING_DOWNLOADS_COLUMN_FAMILY_NAME))"
proof -
  obtain fs' commands where rc:
    "receive_file_chunk dl_M dl_libs dl_disk (chunk_of_record dl_pending 0) (Some (Some (Success [1, 2, 3]))) True =
       (Some (Inr (Some 0)), fs', commands)" by (rule dl_receive)
  have rec: "dl_pending\<lparr>pend_downloaded_chunks := {|0|}\<rparr> = dl_complete" by (simp add: dl_complete_def)
  have "dl_run dl_M dl_libs dl_S dl_steps dl_begun = dl_begun
    \<lparr>dl_record := dl_complete, dl_waiting := [], dl_fs := fs',
     dl_store := snd (put_pending_download dl_S dl_stored dl_complete),
     dl_sent := RequestFileChunk (chunk_request (chunk_of_record dl_pending 0)) 0 # commands\<rparr>"
    by (simp add: dl_steps_def dl_begun_def ask_file_chunk_def rc join_chunk_def Let_def rec)
  then show "download_result sample_metadata (dl_run dl_M dl_libs dl_S dl_steps dl_begun) = Some (Inr True)"
    "dl_record (dl_run dl_M dl_libs dl_S dl_steps dl_begun) = dl_complete"
    "dl_store (dl_run dl_M dl_libs dl_S dl_steps dl_begun) = dl_stored(PENDING_DOWNLOADS_COLUMN_FAMILY_NAME :=
     RBT.insert (key_bytes (pend_key dl_pending)) [5] (dl_stored PENDING_DOWNLOADS_COLUMN_FAMILY_NAME))"
    by (simp_all add: download_result_def dl_begun_def dl_put) (simp_all add: dl_complete_def fcard.rep_eq)
qed

text \<open>The three steps end the download of a file of one chunk, from any store and disk.\<close>

lemma one_chunk_run:
  assumes "dl_waiting d = [0]" "dl_asked d = []" "dl_finished d = []" "dl_first_error d = None"
    and "pend_downloaded_chunks (dl_record d) = {||}"
    and "receive_file_chunk M L (dl_fs d) (chunk_of_record (dl_record d) 0) (Some (Some (Success [1, 2, 3]))) True =
      (Some (Inr (Some 0)), fs', commands)"
    and "length (md_merkle_proofs m) = 1"
  shows "download_result m (dl_run M L S dl_steps d) = Some (Inr True)"
  using assms by (simp add: dl_steps_def ask_file_chunk_def join_chunk_def Let_def download_result_def fcard.rep_eq)

text \<open>The completion, on a disk that has the chunk.\<close>

definition dl_full_disk :: filesys where
  "dl_full_disk = sample_fs [dl_dir \<mapsto> DirNode, metadata_path dl_dir \<mapsto> FileNode [1],
     chunk_path dl_dir 0 FILE_CHUNK_EXTENSION \<mapsto> FileNode [1, 2, 3]]"

lemma dl_restored:
  obtains fs' where "restore_original_file dl_libs dl_full_disk dl_pending = (Inr sample_metadata, fs')"
proof -
  have p: "path_join_str (Path True []) ''f'' = Path True [''f'']"
    "path_join_str (Path True []) ''f.part'' = Path True [''f.part'']" "plain_name ''f''"
    by (simp_all add: path_join_plain plain_name_def)
  have f: "metadata_path dl_dir = Path True [''f_chunks'', METADATA_FILE_NAME]"
    "chunk_path dl_dir 0 FILE_CHUNK_EXTENSION = Path True [''f_chunks'', chunk_file_name 0 FILE_CHUNK_EXTENSION]"
    "METADATA_FILE_NAME \<noteq> chunk_file_name 0 FILE_CHUNK_EXTENSION"
    using chunk_neq_metadata [of dl_dir 0]
    by (auto simp: dl_dir_def path_join_plain chunk_path_def plain_chunk_file_name)
  have "\<exists>fs'. restore_original_file dl_libs dl_full_disk dl_pending = (Inr sample_metadata, fs') \<and>
      fs_nodes fs' (path_join_str (Path True []) (md_original_file_name sample_metadata)) =
        Some (FileNode (concat (map (\<lambda>i. [1, 2, 3]) [0..<md_total_chunks sample_metadata])))"
    by (rule restore_healthy [where b = "[1]"])
       (use p f in \<open>auto simp: dl_full_disk_def dl_dir_def path_parent_def node_at_def\<close>)
  then show ?thesis using that by blast
qed

lemma dl_completed:
  obtains s' fs' where "process_completed dl_libs dl_S dl_stored dl_full_disk dl_pending True =
    (Inr (), s', fs', [ProvideMetadata sample_metadata])"
proof (rule dl_restored)
  fix fs'
  assume r: "restore_original_file dl_libs dl_full_disk dl_pending = (Inr sample_metadata, fs')"
  have pub: "md_public sample_metadata" by (simp add: sample_metadata_def expected_metadata_def)
  have enc: "enc_published dl_libs (published_of_pending dl_pending True) = Inr [2]"
    by (simp add: dl_libs_def dl_published_def)
  show ?thesis
    using that r enc pub
    by (simp add: process_completed_def published_of_pending_def rocks_store_def rocks_put_def rocks_delete_def
        published_entry_def get_cf_def)
qed

end
