(* ===== verification/Downloads_Props.thy ===== *)
theory Downloads_Props
  imports Sample_Downloads
begin

text \<open>
  The properties of the downloads: what survives a crash, that honest peers suffice, and the limits
  and the order that the service keeps.
\<close>

lemma sample_same: "sample_metadata\<lparr>md_chunks_dir := pend_chunks_dir dl_pending\<rparr> = sample_metadata"
  by (simp add: sample_metadata_def dl_dir_def expected_metadata_def)

lemma sample_read: "fs_read sample_disk (path_of_string ''/f'') = Inr [1, 2, 3]"
  by (simp add: fs_read_healthy sample_disk_def sample_path)

lemma sample_crypto:
  "merkle_binding dl_M (leaves_of dl_M [1, 2, 3]) (md_merkle_root sample_metadata)"
  "no_second_preimage dl_M (chunks_of CHUNK_SIZE [1, 2, 3])"
  "merkle_complete dl_M (leaves_of dl_M [1, 2, 3])"
  by (auto simp: merkle_binding_def no_second_preimage_def merkle_complete_def leaves_of_def
      sample_chunks sample_merkle_def)

section \<open>Progress\<close>

text \<open>
  Claim C18. The progress in the store never runs ahead of the disk: after any steps of a download,
  whatever the peers have sent and whichever writes to the disk and the store have failed, every
  chunk that the stored record counts is on the disk with the contents of the published file, so a
  node that starts again from this store and disk misses no chunk that it takes for downloaded.
\<close>

theorem stored_progress_is_on_disk:
  assumes "process_file M L0 fs0 rsize rfault file_path public = (Inr m, fs1)"
    and "fs_read fs0 (path_of_string file_path) = Inr content"
    and "merkle_binding M (leaves_of M content) (md_merkle_root m)"
    and "no_second_preimage M (chunks_of CHUNK_SIZE content)"
    and "download_start L s fs rec = Inr (m\<lparr>md_chunks_dir := pend_chunks_dir rec\<rparr>, d)"
    and "rocks_inv L R c s" "rocks_pending L c s (pend_key rec) = Some rec"
    and "\<And>i. i |\<in>| pend_downloaded_chunks rec \<Longrightarrow> i < length (chunks_of CHUNK_SIZE content) \<and>
      fs_nodes fs (chunk_path (pend_chunks_dir rec) i FILE_CHUNK_EXTENSION) =
        Some (FileNode (chunks_of CHUNK_SIZE content ! i))"
    and "rocks_pending L c (dl_store (dl_run M L (rocks_store L R) steps d)) (pend_key rec) = Some rec'"
    and "i |\<in>| pend_downloaded_chunks rec'"
  shows "fs_nodes (dl_fs (dl_run M L (rocks_store L R) steps d))
      (chunk_path (pend_chunks_dir rec') i FILE_CHUNK_EXTENSION) =
    Some (FileNode (chunks_of CHUNK_SIZE content ! i))"
proof -
  let ?m = "m\<lparr>md_chunks_dir := pend_chunks_dir rec\<rparr>" and ?cs = "chunks_of CHUNK_SIZE content"
  let ?d = "dl_run M L (rocks_store L R) steps d"
  note len = published_length [OF assms(1,2)]
  note desc = downloaded_describes [OF assms(1-4), of "pend_chunks_dir rec"]
  note start = download_start_Inr [OF assms(5)]
  have co: "counts_only fs ?m ?cs rec" using assms(8) by (simp add: counts_only_def len)
  have bk: "bookkeeping (length ?cs) d" by (rule bookkeeping_start [OF assms(5) co]) (simp add: len)
  have t: "truthful L ?m ?cs ?d" by (rule truthful_run [OF truthful_start [OF assms(5) co] desc bk])
  have "stored_behind (rocks_inv L R c) (rocks_pending L c) d" using assms(6,7) start by (simp add: stored_behind_def)
  from rocks.stored_behind_run(1) [OF this, where M = M and steps = steps] assms(9)
  have r: "pend_chunks_dir rec' = pend_chunks_dir rec"
    "pend_downloaded_chunks rec' |\<subseteq>| pend_downloaded_chunks (dl_record ?d)"
    by (auto simp: stored_behind_def start(1))
  then have "i |\<in>| pend_downloaded_chunks (dl_record ?d)" using assms(10) by blast
  then have "fs_nodes (dl_fs ?d) (chunk_path (pend_chunks_dir (dl_record ?d)) i (md_chunk_file_extension ?m)) =
      Some (FileNode (?cs ! i))"
    using t unfolding truthful_def by blast
  then show ?thesis by (simp add: r(1) start(1) len(3))
qed

theorem stored_progress_is_on_disk_witness:
  "fs_nodes (dl_fs (dl_run dl_M dl_libs dl_S dl_steps dl_begun)) (chunk_path dl_dir 0 FILE_CHUNK_EXTENSION) =
    Some (FileNode [1, 2, 3])"
proof (rule sample_publication)
  fix fs1
  assume pf: "process_file dl_M sample_world_libs sample_disk (\<lambda>_ _. 2) (\<lambda>_. None) ''/f'' True =
    (Inr sample_metadata, fs1)"
  have stored: "rocks_pending dl_libs sample_contents (dl_store (dl_run dl_M dl_libs dl_S dl_steps dl_begun))
      (pend_key dl_pending) = Some dl_complete"
    by (simp add: dl_ran rocks_pending_def column_lookup_def)
  have "pend_chunks_dir dl_complete = dl_dir" by (simp add: dl_complete_def)
  with stored_progress_is_on_disk [OF pf sample_read sample_crypto(1,2), where rec = dl_pending, unfolded sample_same,
      OF dl_start dl_store_inv dl_store_pending _ stored, where i = 0]
  show ?thesis by (simp add: sample_chunks dl_complete_def)
qed

text \<open>
  Claim C8. Honest peers are enough: on a healthy disk, when every request is answered with the
  right chunk, the download of a published file ends with \<open>true\<close>, in whatever order the subtasks
  ask, are answered and are joined, also when it resumes an earlier one.
\<close>

theorem honest_download_completes:
  assumes "process_file M L0 fs0 rsize rfault file_path public = (Inr m, fs1)"
    and "fs_read fs0 (path_of_string file_path) = Inr content"
    and "merkle_binding M (leaves_of M content) (md_merkle_root m)"
    and "no_second_preimage M (chunks_of CHUNK_SIZE content)"
    and "merkle_complete M (leaves_of M content)"
    and "download_start L s fs rec = Inr (m\<lparr>md_chunks_dir := pend_chunks_dir rec\<rparr>, d)"
    and "counts_only fs m (chunks_of CHUNK_SIZE content) rec"
    and "dir_writable fs (pend_chunks_dir rec) FILE_CHUNK_EXTENSION"
    and "list_all (honest (chunks_of CHUNK_SIZE content)) steps"
    and "download_result m (dl_run M L S steps d) \<noteq> None"
  shows "download_result m (dl_run M L S steps d) = Some (Inr True)"
  using assms by (rule honest_completes)

theorem honest_download_completes_witness:
  "download_result sample_metadata (dl_run dl_M dl_libs dl_S dl_steps dl_begun) = Some (Inr True)"
proof (rule sample_publication)
  fix fs1
  assume pf: "process_file dl_M sample_world_libs sample_disk (\<lambda>_ _. 2) (\<lambda>_. None) ''/f'' True =
    (Inr sample_metadata, fs1)"
  show ?thesis
  proof (rule honest_download_completes [OF pf sample_read sample_crypto, where rec = dl_pending,
        unfolded sample_same, OF dl_start])
    show "counts_only dl_disk sample_metadata (chunks_of CHUNK_SIZE [1, 2, 3]) dl_pending" by simp
    show "dir_writable dl_disk (pend_chunks_dir dl_pending) FILE_CHUNK_EXTENSION" using dl_writable by simp
    show "list_all (honest (chunks_of CHUNK_SIZE [1, 2, 3])) dl_steps" by (simp add: dl_steps_def sample_chunks)
    show "download_result sample_metadata (dl_run dl_M dl_libs dl_S dl_steps dl_begun) \<noteq> None"
      by (simp add: dl_ran)
  qed
qed

text \<open>
  Claim C21. The state of a download stays well formed: a chunk waits, is asked for or is counted,
  never two of these nor one of them twice, and every identifier is that of a chunk of the file.
\<close>

theorem download_state_well_formed:
  assumes "download_start L s fs rec = Inr (m, d)"
    and "fset (pend_downloaded_chunks rec) \<subseteq> {..<length (md_merkle_proofs m)}"
  shows "distinct (dl_waiting (dl_run M L S steps d) @ dl_asked (dl_run M L S steps d)) \<and>
    set (dl_waiting (dl_run M L S steps d) @ dl_asked (dl_run M L S steps d)) \<inter>
      fset (pend_downloaded_chunks (dl_record (dl_run M L S steps d))) = {} \<and>
    set (dl_waiting (dl_run M L S steps d) @ dl_asked (dl_run M L S steps d)) \<union>
      fset (pend_downloaded_chunks (dl_record (dl_run M L S steps d))) \<subseteq> {..<length (md_merkle_proofs m)}"
proof -
  have "bookkeeping (length (md_merkle_proofs m)) d"
    using assms(2) by (auto simp: bookkeeping_def busy_def download_start_Inr [OF assms(1)] missing_chunks_def)
  from bookkeeping_run [OF this, of M L S steps] show ?thesis
    unfolding bookkeeping_def busy_def by auto
qed

theorem download_state_well_formed_witness:
  "fset (pend_downloaded_chunks (dl_record (dl_run dl_M dl_libs dl_S dl_steps dl_begun))) \<subseteq> {..<1}"
  using download_state_well_formed [OF dl_start, of dl_M dl_S dl_steps] by simp

section \<open>The service\<close>

text \<open>
  Claim C7. No schedule of the download service and no failure loses a record: a file that is
  pending or published stays in one of the two columns while tasks are spawned, run, fail and
  complete, because a completed download is put among the published files before it is deleted
  from the pending ones.
\<close>

theorem downloads_never_lose_a_file:
  assumes "rocks_inv L R c s"
    and "key \<in> dom (rocks_pending L c s) \<union> dom (rocks_published L c s)"
  shows "key \<in> dom (rocks_pending L c (ds_store (service_run M L' (rocks_store L R) steps (service_start n s fs)))) \<union>
    dom (rocks_published L c (ds_store (service_run M L' (rocks_store L R) steps (service_start n s fs))))"
proof -
  have "ds_store (service_start n s fs) = s" by (simp add: service_start_def)
  then have "keeps_records (rocks_inv L R c) (rocks_published L c) (rocks_pending L c) (rocks_jobs L c) s (ds_store (service_run M L' (rocks_store L R) steps (service_start n s fs)))"
    using rocks.service_run_keeps [of L R c "service_start n s fs" M L' steps] assms(1) by simp
  then show ?thesis using assms(2) unfolding keeps_records_def by blast
qed

theorem downloads_never_lose_a_file_witness:
  "pend_key dl_pending \<in> dom (rocks_pending dl_libs sample_contents (ds_store (service_run dl_M dl_libs dl_S
      ([Visit (Inr dl_pending), Start (pend_key dl_pending)] @ map (Subtask (pend_key dl_pending)) dl_steps @
       [Finish (pend_key dl_pending) True]) (service_start 2 dl_stored dl_disk)))) \<union>
    dom (rocks_published dl_libs sample_contents (ds_store (service_run dl_M dl_libs dl_S
      ([Visit (Inr dl_pending), Start (pend_key dl_pending)] @ map (Subtask (pend_key dl_pending)) dl_steps @
       [Finish (pend_key dl_pending) True]) (service_start 2 dl_stored dl_disk))))"
  by (rule downloads_never_lose_a_file [OF dl_store_inv]) (simp add: dom_def dl_store_pending)

text \<open>
  Claim C20. At any moment at most \<open>max_active_downloads\<close> requests for chunks wait for an answer,
  over all downloads together.
\<close>

theorem open_chunk_requests_bounded:
  "open_requests (service_run M L S steps (service_start max_active_downloads s fs)) \<le> unat max_active_downloads"
  using service_inv_run [OF service_inv_start [of max_active_downloads s fs], where M = M and L = L and S = S and steps = steps]
  by (simp add: service_inv_def)

text \<open>
  No permit of the semaphore is lost or made up, and the set of active downloads is the
  set of the files that have a task: every end of a task, failed ones included, takes its file
  out, so that a later tick can start it again.
\<close>

lemma permits_and_tasks_accounted:
  "fds_permits (ds_service (service_run M L S steps (service_start max_active_downloads s fs))) +
     open_requests (service_run M L S steps (service_start max_active_downloads s fs)) =
     unat max_active_downloads \<and>
   dom (ds_tasks (service_run M L S steps (service_start max_active_downloads s fs))) =
     fset (fds_active (ds_service (service_run M L S steps (service_start max_active_downloads s fs))))"
  using service_inv_run [OF service_inv_start [of max_active_downloads s fs], where M = M and L = L and S = S and steps = steps]
  by (simp add: service_inv_def)

text \<open>
  Claim C23. A file is announced as downloaded only after the move: when \<open>process_completed\<close> sends
  \<open>ProvideMetadata\<close>, the published record is in the store, the pending one is gone, and the
  records of all other files are what they were.
\<close>

theorem announced_after_the_move:
  assumes "rocks_inv L' R c s"
    and "process_completed L (rocks_store L' R) s fs rec sender_open = (r, s', fs', commands)"
    and "commands \<noteq> []"
  shows "\<exists>m. commands = [ProvideMetadata m] \<and> r = Inr () \<and>
    rocks_pending L' c s' = (rocks_pending L' c s)(pend_key rec := None) \<and>
    rocks_published L' c s' = (rocks_published L' c s)(pend_key rec \<mapsto>
      \<lparr>pub_key = pend_key rec, pub_original_file_name = pend_original_file_name rec,
       pub_chunks_dir = pend_chunks_dir rec, pub_public = md_public m\<rparr>)"
  using assms(2)
proof (cases rule: process_completed_cases)
  case (moved m u v s1)
  note inv1 = rocks.published.put_inv [OF assms(1) moved(2)]
  have "rocks_published L' c s' = rocks_published L' c s1" "rocks_pending L' c s1 = rocks_pending L' c s"
    using rocks.pending_del_frame [OF inv1 moved(3)] rocks.published_frame [OF assms(1) moved(2)] by simp_all
  then show ?thesis
    using moved(4,5) assms(3) rocks.published.put_ok [OF assms(1) moved(2)] rocks.pending.del_ok [OF inv1 moved(3)]
    by (simp add: published_of_pending_def split: if_splits)
qed (use assms(3) in simp_all)

theorem announced_after_the_move_witness:
  "\<exists>s' fs' m. process_completed dl_libs dl_S dl_stored dl_full_disk dl_pending True =
      (Inr (), s', fs', [ProvideMetadata m]) \<and>
    rocks_pending dl_libs sample_contents s' (pend_key dl_pending) = None"
proof -
  obtain s' fs' where pc: "process_completed dl_libs dl_S dl_stored dl_full_disk dl_pending True =
      (Inr (), s', fs', [ProvideMetadata sample_metadata])"
    by (rule dl_completed)
  from announced_after_the_move [OF dl_store_inv pc] pc show ?thesis by auto
qed

end
