(* ===== verification/Grpc_Api.thy ===== *)
theory Grpc_Api
  imports Chunking File_Store
begin

text \<open>
  \<open>grpc/server.rs\<close>: the three operations that a client may call. The generated service, \<open>tonic\<close>
  and \<open>moka\<close> are libraries: a \<open>Status\<close> is its code and message, and what the cache has evicted
  by itself is told to each step of a search.

  \<open>download_file\<close> waits for the network between its two halves, so it is modelled as two
  definitions; the store and the disk may be others when the second half runs.
\<close>

section \<open>Status codes\<close>

text \<open>\<open>From_Io e\<close> is what \<open>tonic\<close> makes of an I/O error that \<open>?\<close> hands it.\<close>

datatype Status = Internal string | AlreadyExists string | From_Io io_error

record PublishFileRequest =
  preq_file_path :: string
  preq_public :: bool

record DownloadFileRequest =
  dreq_file_id :: u64
  dreq_download_path :: string

record SearchResponse =
  sresp_file_id :: u64
  sresp_file_name :: string

section \<open>Publishing\<close>

definition publish_file :: "'p merkle \<Rightarrow> libs \<Rightarrow> 's Store \<Rightarrow> 's \<Rightarrow> filesys \<Rightarrow> (bytes \<Rightarrow> nat \<Rightarrow> nat)
    \<Rightarrow> (bytes \<Rightarrow> io_error option) \<Rightarrow> PublishFileRequest \<Rightarrow> (Status + u64) \<times> 's \<times> filesys" where
  "publish_file M L S s fs rsize rfault request =
     (case process_file M L fs rsize rfault (preq_file_path request) (preq_public request) of
        (Inl e, fs') \<Rightarrow> (Inl (Internal (''failed to split file: '' @ FileProcessingError_display e)), s, fs')
      | (Inr file_split_result, fs') \<Rightarrow>
          (let key = PublishedFileKey (metadata_key L file_split_result) in
           case put_file_metadata S s file_split_result of
             (Inl e, s') \<Rightarrow> (Inl (Internal (FileStoreError_display e)), s', fs')
           | (Inr _, s') \<Rightarrow> (Inr (u64_of_key key), s', fs')))"

section \<open>Downloading\<close>

text \<open>
  Up to the \<open>await\<close> on the oneshot \<open>tx\<close>: the result is the command that asks for the metadata.
  \<open>sent\<close> is whether the channel takes it.
\<close>

definition download_file_request :: "'s Store \<Rightarrow> 's \<Rightarrow> filesys \<Rightarrow> DownloadFileRequest \<Rightarrow> oneshot \<Rightarrow> bool
    \<Rightarrow> (Status + P2pCommand) \<times> filesys" where
  "download_file_request S s fs request tx sent =
     (let key = key_of_u64 (dreq_file_id request) in
      case published_file_exists S s key of
        Inl e \<Rightarrow> (Inl (Internal (FileStoreError_display e)), fs)
      | Inr True \<Rightarrow> (Inl (AlreadyExists
          (''file '' @ show_nat (unat (dreq_file_id request)) @ '' is already provided'')), fs)
      | Inr False \<Rightarrow>
      (case pending_download_exists S s key of
        Inl e \<Rightarrow> (Inl (Internal (FileStoreError_display e)), fs)
      | Inr True \<Rightarrow> (Inl (AlreadyExists
          (''file '' @ show_nat (unat (dreq_file_id request)) @ '' is getting downloaded now'')), fs)
      | Inr False \<Rightarrow>
      (case ensure_dir_exists_or_create fs (path_of_string (dreq_download_path request)) of
        (Inl e, fs') \<Rightarrow> (Inl (Internal (io_error_display e)), fs')
      | (Inr _, fs') \<Rightarrow>
          if sent then (Inr (RequestMetadata \<lparr>mreq_file_id = dreq_file_id request\<rparr> tx), fs')
          else (Inl (Internal ''failed to send P2pCommand::RequestMetadata''), fs'))))"

text \<open>
  The rest, from what the oneshot brings: \<open>None\<close> when its sender was dropped, \<open>Some None\<close> when
  there is no metadata.
\<close>

definition download_file_answer :: "libs \<Rightarrow> 's Store \<Rightarrow> 's \<Rightarrow> filesys \<Rightarrow> DownloadFileRequest
    \<Rightarrow> FileMetadata option option \<Rightarrow> bool \<Rightarrow> (Status + unit) \<times> 's \<times> filesys \<times> P2pCommand list" where
  "download_file_answer L S s fs request reply sent =
     (let download_path = path_of_string (dreq_download_path request) in
      case reply of
        None \<Rightarrow> (Inl (Internal ''failed to receive metadata response''), s, fs, [])
      | Some None \<Rightarrow> (Inl (Internal ''missing metadata file''), s, fs, [])
      | Some (Some metadata) \<Rightarrow>
      (let file_path = path_join_str download_path (md_original_file_name metadata) in
      case fs_try_exists fs file_path of
        Inl e \<Rightarrow> (Inl (From_Io e), s, fs, [])
      | Inr True \<Rightarrow> (Inl (AlreadyExists (path_display file_path)), s, fs, [])
      | Inr False \<Rightarrow>
      (let chunks_dir = path_join_str download_path (get_chunks_dir_name_prefix metadata @ ''_chunks'') in
      case ensure_dir_exists_or_create fs chunks_dir of
        (Inl e, fs1) \<Rightarrow> (Inl (Internal (io_error_display e)), s, fs1, [])
      | (Inr _, fs1) \<Rightarrow>
      (let metadata = metadata\<lparr>md_chunks_dir := chunks_dir\<rparr>;
           pending_download = PendingDownloadRecord_new (PublishedFileKey (metadata_key L metadata))
             (md_original_file_name metadata) (md_chunks_dir metadata) in
      case save_metadata L fs1 metadata of
        (Inl e, fs2) \<Rightarrow> (Inl (Internal (FileProcessingError_display e)), s, fs2, [])
      | (Inr _, fs2) \<Rightarrow>
          if \<not> sent then (Inl (Internal ''failed to provide metadata''), s, fs2, [])
          else
            (case put_pending_download S s pending_download of
               (Inl e, s') \<Rightarrow> (Inl (Internal (FileStoreError_display e)), s', fs2, [ProvideMetadata metadata])
             | (Inr _, s') \<Rightarrow> (Inr (), s', fs2, [ProvideMetadata metadata]))))))"

section \<open>Searching\<close>

text \<open>The command of a search: the session is named by the value that is searched.\<close>

definition search_command :: "string \<Rightarrow> mpsc_tx \<Rightarrow> P2pCommand" where
  "search_command search_value tx =
     FileSearch \<lparr>sreq_session_id = search_value, sreq_search_value = search_value\<rparr> tx"

text \<open>
  The task that feeds the client. \<open>cache\<close> holds the files reported; \<open>responses\<close> and \<open>aborts\<close> are
  what it has sent. An event is a file that was found, with the state of the store, whether the
  client still listens, whether the command channel takes an abort, and what the cache has
  evicted since; or a tick of the interval; or the end of the channel.
\<close>

record search_task_state =
  st_cache :: "u64 fset"
  st_responses :: "SearchResponse list"
  st_aborts :: "P2pCommand list"

datatype 's search_event =
  Found FileFound 's bool bool "u64 fset"
| SearchTick bool bool
| SearchEnd

definition send_abort :: "string \<Rightarrow> bool \<Rightarrow> search_task_state \<Rightarrow> search_task_state" where
  "send_abort search_value sent st =
     (if sent then st\<lparr>st_aborts := st_aborts st @ [FileSearchAbort search_value]\<rparr> else st)"

definition search_found :: "'s Store \<Rightarrow> string \<Rightarrow> FileFound \<Rightarrow> 's \<Rightarrow> bool \<Rightarrow> bool
    \<Rightarrow> search_task_state \<Rightarrow> search_task_state" where
  "search_found S search_value found s listening sent st =
     (if found_file_id found |\<notin>| st_cache st then
        (if \<not> (case published_file_exists S s (key_of_u64 (found_file_id found)) of
                 Inr b \<Rightarrow> b | Inl e \<Rightarrow> False) then
           (if listening then
              st\<lparr>st_responses := st_responses st @
                   [\<lparr>sresp_file_id = found_file_id found, sresp_file_name = found_file_name found\<rparr>],
                 st_cache := finsert (found_file_id found) (st_cache st)\<rparr>
            else send_abort search_value sent st)
         else st)
      else st)"

fun search_task :: "'s Store \<Rightarrow> string \<Rightarrow> 's search_event list \<Rightarrow> search_task_state \<Rightarrow> search_task_state" where
  "search_task S search_value [] st = st"
| "search_task S search_value (SearchEnd # events) st = st"
| "search_task S search_value (Found found s listening sent evicted # events) st =
     search_task S search_value events
       (search_found S search_value found s listening sent (st\<lparr>st_cache := st_cache st |-| evicted\<rparr>))"
| "search_task S search_value (SearchTick listening sent # events) st =
     search_task S search_value events (if listening then st else send_abort search_value sent st)"

definition search_task_start :: search_task_state where
  "search_task_start = \<lparr>st_cache = {||}, st_responses = [], st_aborts = []\<rparr>"

text \<open>A search sends its command and, when the channel took it, spawns the task.\<close>

definition search :: "string \<Rightarrow> mpsc_tx \<Rightarrow> bool \<Rightarrow> Status + P2pCommand \<times> search_task_state" where
  "search search_value tx sent =
     (if sent then Inr (search_command search_value tx, search_task_start)
      else Inl (Internal ''channel closed''))"

section \<open>The service\<close>

record 's GrpcService =
  gs_port :: u16
  gs_store :: 's
  gs_command_sender :: mpsc_tx

definition GrpcService_new :: "u16 \<Rightarrow> 's \<Rightarrow> mpsc_tx \<Rightarrow> 's GrpcService" where
  "GrpcService_new port store command_sender =
     \<lparr>gs_port = port, gs_store = store, gs_command_sender = command_sender\<rparr>"

text \<open>\<open>parse\<close> and \<open>serve\<close> are the parser of socket addresses and the transport.\<close>

definition GrpcService_start :: "(string \<Rightarrow> string + 'a) \<Rightarrow> ('a \<Rightarrow> string + unit) \<Rightarrow> 's GrpcService
    \<Rightarrow> ServerError + unit" where
  "GrpcService_start parse serve svc =
     (case parse (''127.0.0.1:'' @ show_nat (unat (gs_port svc))) of
        Inl e \<Rightarrow> Inl (Sve_GrpcServer (Gse_AddressParse e))
      | Inr grpc_address \<Rightarrow>
          (case serve grpc_address of
             Inl e \<Rightarrow> Inl (Sve_GrpcServer (Gse_Transport e))
           | Inr _ \<Rightarrow> Inr ()))"

end
