(* ===== verification/Grpc_Correct.thy ===== *)
theory Grpc_Correct
  imports Grpc_Api Download_Runs
begin

text \<open>
  What the operations of a client do to the store and the disk, and how they hand over to the
  download service.
\<close>

section \<open>Accepting a download\<close>

lemma ensure_dir_effect:
  assumes "ensure_dir_exists_or_create fs p = (r, fs')"
  shows "healthy fs' = healthy fs"
    and "q \<notin> set (path_prefixes p) \<Longrightarrow> fs_nodes fs' q = fs_nodes fs q"
    and "r = Inr u \<Longrightarrow> node_at fs' p = Some DirNode"
    and "fs_nodes fs q = Some n \<Longrightarrow> fs_nodes fs' q = Some n"
proof -
  have "fs' = fs \<and> (r = Inr u \<longrightarrow> node_at fs p = Some DirNode) \<or> fs_create_dir_all fs p = (r, fs')"
    using assms
    by (auto simp: ensure_dir_exists_or_create_def fs_metadata_def
        split: sum.splits bool.splits option.splits fs_node.splits)
  then consider (same) "fs' = fs" "r = Inr u \<Longrightarrow> node_at fs p = Some DirNode"
    | (made) "fs_create_dir_all fs p = (r, fs')" by blast
  then have "healthy fs' = healthy fs \<and> (q \<notin> set (path_prefixes p) \<longrightarrow> fs_nodes fs' q = fs_nodes fs q) \<and>
    (r = Inr u \<longrightarrow> node_at fs' p = Some DirNode) \<and> (fs_nodes fs q = Some n \<longrightarrow> fs_nodes fs' q = Some n)"
  proof cases
    case made
    have "fs_nodes fs' q = Some n" if "fs_nodes fs q = Some n"
    proof (cases r)
      case (Inl e)
      with made have "fs' = fs"
        by (auto simp: fs_create_dir_all_def split: option.splits if_splits)
      with that show ?thesis by simp
    next
      case (Inr v)
      with made that show ?thesis using fs_create_dir_all_ok(2) by blast
    qed
    then show ?thesis
      using fs_create_dir_all_frame [OF made] fs_create_dir_all_ok(1) made by (auto simp: healthy_def)
  qed auto
  then show "healthy fs' = healthy fs"
    "q \<notin> set (path_prefixes p) \<Longrightarrow> fs_nodes fs' q = fs_nodes fs q"
    "r = Inr u \<Longrightarrow> node_at fs' p = Some DirNode"
    "fs_nodes fs q = Some n \<Longrightarrow> fs_nodes fs' q = Some n" by blast+
qed

definition download_dir :: "DownloadFileRequest \<Rightarrow> FileMetadata \<Rightarrow> path" where
  "download_dir request m = path_join_str (path_of_string (dreq_download_path request))
     (get_chunks_dir_name_prefix m @ ''_chunks'')"

definition download_record :: "libs \<Rightarrow> DownloadFileRequest \<Rightarrow> FileMetadata \<Rightarrow> PendingDownloadRecord" where
  "download_record L request m = PendingDownloadRecord_new (PublishedFileKey (metadata_key L m))
     (md_original_file_name m) (download_dir request m)"

lemma download_record_simps [simp]:
  "pend_key (download_record L request m) = PublishedFileKey (metadata_key L m)"
  "pend_chunks_dir (download_record L request m) = download_dir request m"
  "pend_original_file_name (download_record L request m) = md_original_file_name m"
  "pend_downloaded_chunks (download_record L request m) = {||}"
  by (simp_all add: download_record_def PendingDownloadRecord_new_def)

lemma metadata_key_dir [simp]: "metadata_key L (m\<lparr>md_chunks_dir := d\<rparr>) = metadata_key L m"
  by (simp add: metadata_key_def metadata_hash_input_def)

lemma download_answer_Inr:
  assumes "download_file_answer L S s fs request reply sent = (Inr u, s', fs', commands)"
  obtains m fs1 v where "reply = Some (Some m)"
    "fs_try_exists fs (path_join_str (path_of_string (dreq_download_path request)) (md_original_file_name m)) = Inr False"
    "ensure_dir_exists_or_create fs (download_dir request m) = (Inr v, fs1)"
    "save_metadata L fs1 (m\<lparr>md_chunks_dir := download_dir request m\<rparr>) =
       (Inr (m\<lparr>md_chunks_dir := download_dir request m\<rparr>), fs')"
    "put_pending_download S s (download_record L request m) = (Inr (), s')"
    "commands = [ProvideMetadata (m\<lparr>md_chunks_dir := download_dir request m\<rparr>)]"
proof -
  from assms obtain m where m: "reply = Some (Some m)"
    by (auto simp: download_file_answer_def Let_def split: option.splits)
  let ?m = "m\<lparr>md_chunks_dir := download_dir request m\<rparr>"
  obtain r fs1 where e: "ensure_dir_exists_or_create fs (download_dir request m) = (r, fs1)" by fastforce
  obtain x fs2 where x: "save_metadata L fs1 ?m = (x, fs2)" by fastforce
  obtain y s1 where y: "put_pending_download S s (download_record L request m) = (y, s1)" by fastforce
  note e' = e [unfolded download_dir_def] and x' = x [unfolded download_dir_def]
    and y' = y [unfolded download_record_def download_dir_def]
  have t: "fs_try_exists fs (path_join_str (path_of_string (dreq_download_path request)) (md_original_file_name m)) = Inr False"
    using assms m by (auto simp: download_file_answer_def Let_def split: sum.splits bool.splits)
  have "(\<exists>v. r = Inr v) \<and> (\<exists>m'. x = Inr m') \<and> y = Inr () \<and> fs' = fs2 \<and> s' = s1 \<and> commands = [ProvideMetadata ?m]"
    using assms m t e' x' y'
    by (auto simp: download_file_answer_def Let_def download_dir_def split: sum.splits if_splits)
  then obtain v m' where *: "r = Inr v" "x = Inr m'" "y = Inr ()" "fs' = fs2" "s' = s1"
    "commands = [ProvideMetadata ?m]" by blast
  have "m' = ?m" using save_metadata_Inr(1) [of L fs1 ?m m' fs2] x *(2) by simp
  with * show ?thesis using that [OF m t] e x y by simp
qed

text \<open>An accepted download is stored, and its task can start with every chunk missing.\<close>

lemma accepted_download:
  assumes "rocks_inv L R c s" "healthy fs"
    and "download_file_answer L (rocks_store L R) s fs request (Some (Some m)) sent = (Inr u, s', fs', commands)"
  shows "rocks_inv L R c s'"
    and "rocks_pending L c s' = (rocks_pending L c s)(PublishedFileKey (metadata_key L m) \<mapsto> download_record L request m)"
    and "rocks_published L c s' = rocks_published L c s"
    and "healthy fs'"
    and "\<exists>b. fs_nodes fs' (metadata_path (download_dir request m)) = Some (FileNode b) \<and>
      dec_metadata L b = Inr (m\<lparr>md_chunks_dir := download_dir request m\<rparr>)"
    and "q \<notin> set (path_prefixes (download_dir request m)) \<Longrightarrow> q \<noteq> metadata_path (download_dir request m) \<Longrightarrow>
      fs_nodes fs' q = fs_nodes fs q"
    and "fs_nodes fs q = Some DirNode \<Longrightarrow> q \<noteq> metadata_path (download_dir request m) \<Longrightarrow> fs_nodes fs' q = Some DirNode"
    and "node_at fs (path_join_str (path_of_string (dreq_download_path request)) (md_original_file_name m)) = None"
    and "commands = [ProvideMetadata (m\<lparr>md_chunks_dir := download_dir request m\<rparr>)]"
proof -
  let ?m = "m\<lparr>md_chunks_dir := download_dir request m\<rparr>"
  from assms(3) obtain fs1 v where
    t: "fs_try_exists fs (path_join_str (path_of_string (dreq_download_path request)) (md_original_file_name m)) = Inr False"
    and e: "ensure_dir_exists_or_create fs (download_dir request m) = (Inr v, fs1)"
    and sm: "save_metadata L fs1 ?m = (Inr ?m, fs')"
    and put: "put_pending_download (rocks_store L R) s (download_record L request m) = (Inr (), s')"
    and cmds: "commands = [ProvideMetadata ?m]"
    by (auto elim!: download_answer_Inr)
  note eff = ensure_dir_effect [OF e]
  show "rocks_inv L R c s'" by (rule rocks.pending.put_inv [OF assms(1) put])
  show "rocks_pending L c s' = (rocks_pending L c s)(PublishedFileKey (metadata_key L m) \<mapsto> download_record L request m)"
    using rocks.pending.put_ok [OF assms(1) put] by simp
  show "rocks_published L c s' = rocks_published L c s"
    using rocks.pending_put_frame [OF assms(1) put] by simp
  have h1: "healthy fs1" using eff(1) assms(2) by simp
  obtain b where b: "enc_metadata L ?m = Inr b"
    "fs' = fs1\<lparr>fs_nodes := (fs_nodes fs1)(metadata_path (download_dir request m) \<mapsto> FileNode b)\<rparr>"
    using save_metadata_Inr(1) [OF sm] h1 by auto
  then show "healthy fs'" using h1 by simp
  show "\<exists>b. fs_nodes fs' (metadata_path (download_dir request m)) = Some (FileNode b) \<and> dec_metadata L b = Inr ?m"
    using b libs_okD(1) [OF rocks_invD(1) [OF assms(1)] b(1)] by auto
  show "q \<notin> set (path_prefixes (download_dir request m)) \<Longrightarrow> q \<noteq> metadata_path (download_dir request m) \<Longrightarrow>
      fs_nodes fs' q = fs_nodes fs q"
    using eff(2) b(2) by simp
  show "fs_nodes fs q = Some DirNode \<Longrightarrow> q \<noteq> metadata_path (download_dir request m) \<Longrightarrow> fs_nodes fs' q = Some DirNode"
    using eff(4) b(2) by simp
  show "node_at fs (path_join_str (path_of_string (dreq_download_path request)) (md_original_file_name m)) = None"
    using t by (auto simp: fs_try_exists_def split: option.splits)
  show "commands = [ProvideMetadata ?m]" by (rule cmds)
qed

lemma accepted_download_starts:
  assumes "rocks_inv L R c s" "healthy fs"
    and "download_file_answer L (rocks_store L R) s fs request (Some (Some m)) sent = (Inr u, s', fs', commands)"
  shows "\<exists>d. download_start L s' fs' (download_record L request m) =
      Inr (m\<lparr>md_chunks_dir := download_dir request m\<rparr>, d) \<and> dl_waiting d = [0..<length (md_merkle_proofs m)]"
proof -
  from accepted_download(5) [OF assms] obtain b where
    b: "fs_nodes fs' (metadata_path (download_dir request m)) = Some (FileNode b)"
      "dec_metadata L b = Inr (m\<lparr>md_chunks_dir := download_dir request m\<rparr>)" by blast
  have "fs_read fs' (metadata_path (download_dir request m)) = Inr b"
    by (rule fs_read_healthy [OF accepted_download(4) [OF assms] _ b(1)]) simp
  with b(2) show ?thesis by (simp add: download_start_def missing_chunks_def filter_id_conv [THEN iffD2])
qed

section \<open>Searching\<close>

text \<open>
  What a search task has reported. An event evicts the files that have left the cache since the
  event before it; an event is \<open>deaf\<close> when it shows that the client no longer listens.
\<close>

fun evicts :: "'s search_event \<Rightarrow> u64 fset" where
  "evicts (Found found s listening sent evicted) = evicted"
| "evicts e = {||}"

fun deaf :: "'s search_event \<Rightarrow> bool" where
  "deaf (Found found s listening sent evicted) \<longleftrightarrow> \<not> listening"
| "deaf (SearchTick listening sent) \<longleftrightarrow> \<not> listening"
| "deaf SearchEnd \<longleftrightarrow> False"

abbreviation reported :: "search_task_state \<Rightarrow> u64 list" where
  "reported st \<equiv> map sresp_file_id (st_responses st)"

definition search_inv :: "'s Store \<Rightarrow> string \<Rightarrow> 's search_event set \<Rightarrow> search_task_state \<Rightarrow> bool" where
  "search_inv S v seen st \<longleftrightarrow>
     fset (st_cache st) \<subseteq> set (reported st) \<and>
     (\<forall>r \<in> set (st_responses st). \<exists>found s sent evicted. Found found s True sent evicted \<in> seen \<and>
        sresp_file_id r = found_file_id found \<and> sresp_file_name r = found_file_name found \<and>
        published_file_exists S s (key_of_u64 (found_file_id found)) \<noteq> Inr True) \<and>
     set (st_aborts st) \<subseteq> {FileSearchAbort v} \<and> (st_aborts st \<noteq> [] \<longrightarrow> (\<exists>e \<in> seen. deaf e))"

lemma search_inv_abort:
  "search_inv S v seen st \<Longrightarrow> e \<in> seen \<Longrightarrow> deaf e \<Longrightarrow> search_inv S v seen (send_abort v sent st)"
  by (auto simp: search_inv_def send_abort_def)

lemma search_found_cases:
  obtains "found_file_id found |\<in>| st_cache st" "search_found S v found s listening sent st = st"
  | "published_file_exists S s (key_of_u64 (found_file_id found)) = Inr True"
    "search_found S v found s listening sent st = st"
  | "found_file_id found |\<notin>| st_cache st" "\<not> listening"
    "search_found S v found s listening sent st = send_abort v sent st"
  | "found_file_id found |\<notin>| st_cache st" "listening"
    "published_file_exists S s (key_of_u64 (found_file_id found)) \<noteq> Inr True"
    "search_found S v found s listening sent st = st\<lparr>st_responses := st_responses st @
       [\<lparr>sresp_file_id = found_file_id found, sresp_file_name = found_file_name found\<rparr>],
       st_cache := finsert (found_file_id found) (st_cache st)\<rparr>"
proof (cases "published_file_exists S s (key_of_u64 (found_file_id found)) = Inr True")
  case False
  then have "\<not> (case published_file_exists S s (key_of_u64 (found_file_id found)) of Inr b \<Rightarrow> b | Inl e \<Rightarrow> False)"
    by (auto split: sum.split)
  with False that(1,3,4) show ?thesis
    by (cases "found_file_id found |\<in>| st_cache st"; cases listening) (simp_all add: search_found_def)
qed (use that(2) in \<open>simp add: search_found_def\<close>)

lemma search_inv_found:
  assumes "search_inv S v seen st" "Found found s listening sent evicted \<in> seen"
  shows "search_inv S v seen (search_found S v found s listening sent (st\<lparr>st_cache := st_cache st |-| evicted\<rparr>))"
proof -
  let ?st = "st\<lparr>st_cache := st_cache st |-| evicted\<rparr>"
  have inv: "search_inv S v seen ?st" using assms(1) by (auto simp: search_inv_def)
  show ?thesis
  proof (rule search_found_cases [of found ?st S v s listening sent])
    assume "\<not> listening" "search_found S v found s listening sent ?st = send_abort v sent ?st"
    with search_inv_abort [OF inv assms(2)] show ?thesis by simp
  next
    assume new: "listening" "published_file_exists S s (key_of_u64 (found_file_id found)) \<noteq> Inr True"
      "search_found S v found s listening sent ?st = ?st\<lparr>st_responses := st_responses ?st @
         [\<lparr>sresp_file_id = found_file_id found, sresp_file_name = found_file_name found\<rparr>],
         st_cache := finsert (found_file_id found) (st_cache ?st)\<rparr>"
    with inv assms(2) show ?thesis unfolding new(3) search_inv_def by auto
  qed (use inv in simp_all)
qed

lemma search_task_inv:
  assumes "search_inv S v seen st" "set events \<subseteq> seen"
  shows "search_inv S v seen (search_task S v events st)"
  using assms
proof (induction S v events st rule: search_task.induct)
  case (3 S v found s listening sent evicted events st)
  then show ?case using search_inv_found [OF "3.prems"(1)] by simp
next
  case (4 S v listening sent events st)
  have "search_inv S v seen (if listening then st else send_abort v sent st)"
    using "4.prems" search_inv_abort [of S v seen st "SearchTick listening sent" sent] by simp
  then show ?case using "4.IH" "4.prems"(2) by simp
qed simp_all

lemma reported_abort [simp]: "st_responses (send_abort v sent st) = st_responses st" "st_cache (send_abort v sent st) = st_cache st"
  by (simp_all add: send_abort_def)

text \<open>A file that is not in the cache may be reported once more, and only an eviction takes it out.\<close>

lemma search_task_count:
  "count_list (reported (search_task S v events st)) f +
     (if f |\<in>| st_cache (search_task S v events st) then 0 else 1) \<le>
   count_list (reported st) f + (if f |\<in>| st_cache st then 0 else 1) +
     length (filter (\<lambda>e. f |\<in>| evicts e) events)"
proof (induction S v events st rule: search_task.induct)
  case (3 S v found s listening sent evicted events st)
  let ?st = "st\<lparr>st_cache := st_cache st |-| evicted\<rparr>"
  have "count_list (reported (search_found S v found s listening sent ?st)) f +
      (if f |\<in>| st_cache (search_found S v found s listening sent ?st) then 0 else 1) \<le>
    count_list (reported st) f + (if f |\<in>| st_cache st then 0 else 1) + (if f |\<in>| evicted then 1 else 0)"
    by (rule search_found_cases [of found ?st S v s listening sent]) (auto split: if_splits)
  with "3.IH" show ?case by (auto split: if_splits)
next
  case (4 S v listening sent events st)
  then show ?case by (cases listening) simp_all
qed simp_all

lemma search_task_mono: "set (reported st) \<subseteq> set (reported (search_task S v events st))"
proof (induction S v events st rule: search_task.induct)
  case (3 S v found s listening sent evicted events st)
  let ?st = "st\<lparr>st_cache := st_cache st |-| evicted\<rparr>"
  have "set (reported st) \<subseteq> set (reported (search_found S v found s listening sent ?st))"
    by (rule search_found_cases [of found ?st S v s listening sent]) auto
  with "3.IH" show ?case by auto
next
  case (4 S v listening sent events st)
  then show ?case by (cases listening) simp_all
qed simp_all

lemma search_task_append:
  "SearchEnd \<notin> set before \<Longrightarrow> search_task S v (before @ after) st = search_task S v after (search_task S v before st)"
  by (induction S v before st rule: search_task.induct) simp_all

lemma search_task_reports:
  assumes "SearchEnd \<notin> set before" "search_inv S v seen st" "set before \<subseteq> seen"
    and "published_file_exists S s (key_of_u64 (found_file_id found)) \<noteq> Inr True"
  shows "found_file_id found \<in> set (reported (search_task S v (before @ Found found s True sent evicted # after) st))"
proof -
  let ?st = "search_task S v before st"
  let ?st' = "?st\<lparr>st_cache := st_cache ?st |-| evicted\<rparr>"
  have inv: "search_inv S v seen ?st" by (rule search_task_inv [OF assms(2,3)])
  have "found_file_id found \<in> set (reported (search_found S v found s True sent ?st'))"
    by (rule search_found_cases [of found ?st' S v s True sent])
       (use inv assms(4) in \<open>auto simp: search_inv_def\<close>)
  with search_task_mono [of _ S v after] show ?thesis
    by (auto simp: search_task_append [OF assms(1)])
qed

end
