(* ===== verification/Grpc_Props.thy ===== *)
theory Grpc_Props
  imports Grpc_Correct Sample_Downloads
begin

text \<open>
  The properties of the client interface.
\<close>

section \<open>Publishing\<close>

text \<open>
  Claim C24. A successful \<open>publish_file\<close> has cut the file and queued its metadata under exactly the
  identifier it returns, so that the publication survives a restart; nothing else in the store
  has changed.
\<close>

theorem published_job_is_queued:
  assumes "rocks_inv L R c s"
    and "publish_file M L (rocks_store L R) s fs rsize rfault request = (Inr file_id, s', fs')"
  shows "\<exists>m. process_file M L fs rsize rfault (preq_file_path request) (preq_public request) = (Inr m, fs') \<and>
    rocks_jobs L c s' = (rocks_jobs L c s)(key_of_u64 file_id \<mapsto> m) \<and>
    rocks_published L c s' = rocks_published L c s \<and> rocks_pending L c s' = rocks_pending L c s"
proof -
  obtain x fs1 where pf: "process_file M L fs rsize rfault (preq_file_path request) (preq_public request) = (x, fs1)"
    by fastforce
  with assms(2) obtain m where m: "x = Inr m" by (cases x) (auto simp: publish_file_def)
  obtain y s1 where put: "put_file_metadata (rocks_store L R) s m = (y, s1)" by fastforce
  with assms(2) pf m have r: "y = Inr ()" "s' = s1" "fs' = fs1"
    "file_id = u64_of_key (PublishedFileKey (metadata_key L m))"
    by (auto simp: publish_file_def Let_def split: sum.splits)
  then show ?thesis
    using pf m put rocks.jobs.put_ok [OF assms(1), of m "()" s1] rocks.jobs_put_frame [OF assms(1) put]
    by simp
qed

lemma sample_world_store: "rocks_inv sample_world_libs sample_db sample_contents sample_trees"
  by (simp add: rocks_inv_def decodes_def sample_contents_def sample_trees_def)

theorem published_job_is_queued_witness:
  "\<exists>file_id s' fs'. publish_file dl_M sample_world_libs (rocks_store sample_world_libs sample_db) sample_trees
      sample_disk (\<lambda>_ _. 2) (\<lambda>_. None) \<lparr>preq_file_path = ''/f'', preq_public = True\<rparr> = (Inr file_id, s', fs') \<and>
    rocks_jobs sample_world_libs sample_contents s' (key_of_u64 file_id) = Some sample_metadata"
proof (rule sample_publication)
  fix fs1
  assume pf: "process_file dl_M sample_world_libs sample_disk (\<lambda>_ _. 2) (\<lambda>_. None) ''/f'' True =
    (Inr sample_metadata, fs1)"
  have "fst (put_file_metadata (rocks_store sample_world_libs sample_db) sample_trees sample_metadata) = Inr ()"
    by (simp add: rocks_store_def rocks_put_def metadata_entry_def get_cf_def)
  then obtain s' where "put_file_metadata (rocks_store sample_world_libs sample_db) sample_trees sample_metadata =
      (Inr (), s')" by (cases "put_file_metadata (rocks_store sample_world_libs sample_db) sample_trees sample_metadata") simp
  with pf obtain file_id s' where p: "publish_file dl_M sample_world_libs (rocks_store sample_world_libs sample_db)
      sample_trees sample_disk (\<lambda>_ _. 2) (\<lambda>_. None) \<lparr>preq_file_path = ''/f'', preq_public = True\<rparr> =
      (Inr file_id, s', fs1)"
    by (simp add: publish_file_def)
  from published_job_is_queued [OF sample_world_store p] pf p show ?thesis by auto
qed

section \<open>Downloading\<close>

text \<open>
  Claim C25. A file that the node has published or is downloading is not downloaded again: the
  request is refused before the disk is touched or a command is sent.
\<close>

theorem known_file_is_refused:
  assumes "rocks_inv L R c s"
    and "key_of_u64 (dreq_file_id request) \<in> dom (rocks_published L c s) \<union> dom (rocks_pending L c s)"
  shows "\<exists>status. download_file_request (rocks_store L R) s fs request tx sent = (Inl status, fs)"
proof (cases "published_file_exists (rocks_store L R) s (key_of_u64 (dreq_file_id request))")
  case (Inl e)
  then show ?thesis by (simp add: download_file_request_def)
next
  case p: (Inr b)
  show ?thesis
  proof (cases b)
    case True
    with p show ?thesis by (simp add: download_file_request_def)
  next
    case False
    then have "key_of_u64 (dreq_file_id request) \<in> dom (rocks_pending L c s)"
      using assms(2) rocks.published.has_lookup [OF assms(1) p] by auto
    then have "pending_download_exists (rocks_store L R) s (key_of_u64 (dreq_file_id request)) \<noteq> Inr False"
      using rocks.pending.has_lookup [OF assms(1)] by (metis domIff)
    with p False show ?thesis
      by (auto simp: download_file_request_def Let_def split: sum.split bool.split)
  qed
qed

lemma dl_id: "key_of_u64 1 = pend_key dl_pending"
  by (simp add: dl_pending_def sample_record_def PendingDownloadRecord_new_def)

theorem known_file_is_refused_witness:
  "\<exists>status. download_file_request dl_S dl_stored dl_disk
      \<lparr>dreq_file_id = 1, dreq_download_path = ''/d''\<rparr> 7 True = (Inl status, dl_disk)"
  by (rule known_file_is_refused [OF dl_store_inv]) (simp add: dl_id dl_store_pending dom_def)

text \<open>A request for the sample file into the root directory, with the metadata a peer has sent.\<close>

definition grpc_request :: DownloadFileRequest where
  "grpc_request = \<lparr>dreq_file_id = 1, dreq_download_path = ''/''\<rparr>"

definition grpc_record :: PendingDownloadRecord where
  "grpc_record = PendingDownloadRecord_new
     (PublishedFileKey (to_be_bytes (word_of_nat (length (metadata_hash_input sample_metadata))))) ''f'' dl_dir"

definition grpc_libs :: libs where
  "grpc_libs = sample_libs sample_metadata (published_of_pending grpc_record True) grpc_record sample_search"

lemma grpc_libs_ok [simp]: "libs_ok grpc_libs"
  by (simp add: grpc_libs_def)

lemma grpc_store_inv: "rocks_inv grpc_libs sample_db sample_contents sample_trees"
  by (simp add: rocks_inv_def decodes_def sample_contents_def sample_trees_def)

lemma grpc_root: "path_of_string ''/'' = Path True []"
  by (simp add: path_of_string_def Let_def)

lemma grpc_dir: "download_dir grpc_request sample_metadata = dl_dir"
  by (simp add: download_dir_def grpc_request_def get_chunks_dir_name_prefix_def grpc_root
      path_join_plain plain_name_def dl_dir_def)

lemma grpc_key: "PublishedFileKey (metadata_key grpc_libs sample_metadata) = pend_key grpc_record"
  by (simp add: metadata_key_def grpc_libs_def sample_libs_def grpc_record_def PendingDownloadRecord_new_def)

lemma grpc_same [simp]: "sample_metadata\<lparr>md_chunks_dir := dl_dir\<rparr> = sample_metadata"
  by (simp add: sample_metadata_def dl_dir_def expected_metadata_def)

lemma grpc_accepted:
  obtains s' fs' commands where "download_file_answer grpc_libs (rocks_store grpc_libs sample_db) sample_trees
    (sample_fs Map.empty) grpc_request (Some (Some sample_metadata)) True = (Inr (), s', fs', commands)"
proof -
  let ?fs = "sample_fs Map.empty"
  have t: "fs_try_exists ?fs (path_join_str (Path True []) ''f'') = Inr False"
    by (simp add: fs_try_exists_def node_at_def sample_fs_def path_join_plain plain_name_def)
  have e: "ensure_dir_exists_or_create ?fs dl_dir = (Inr (), ?fs\<lparr>fs_nodes := [dl_dir \<mapsto> DirNode]\<rparr>)"
    by (simp add: ensure_dir_exists_or_create_def fs_try_exists_def fs_create_dir_all_def node_at_def
        sample_fs_def dl_dir_def path_prefixes_def is_file_node_def)
  obtain fs' where sm: "save_metadata grpc_libs (?fs\<lparr>fs_nodes := [dl_dir \<mapsto> DirNode]\<rparr>) sample_metadata =
      (Inr sample_metadata, fs')"
    using save_metadata_healthy [of "?fs\<lparr>fs_nodes := [dl_dir \<mapsto> DirNode]\<rparr>" grpc_libs sample_metadata "[1]"]
    by (auto simp: grpc_libs_def node_at_def)
  have "enc_pending grpc_libs (PendingDownloadRecord_new (pend_key grpc_record) ''f'' dl_dir) = Inr [3]"
    by (simp add: grpc_libs_def grpc_record_def PendingDownloadRecord_new_def)
  then obtain s' where "put_pending_download (rocks_store grpc_libs sample_db) sample_trees
      (PendingDownloadRecord_new (pend_key grpc_record) ''f'' dl_dir) = (Inr (), s')"
    by (simp add: rocks_store_def rocks_put_def pending_entry_def get_cf_def)
  then show ?thesis
    using that t e sm grpc_dir
    by (simp add: download_file_answer_def download_dir_def grpc_request_def grpc_root Let_def grpc_key)
qed

lemma grpc_writable:
  assumes "download_file_answer grpc_libs (rocks_store grpc_libs sample_db) sample_trees
    (sample_fs Map.empty) grpc_request (Some (Some sample_metadata)) True = (Inr (), s', fs', commands)"
  shows "dir_writable fs' dl_dir FILE_CHUNK_EXTENSION"
proof -
  from assms obtain fs1 where e: "ensure_dir_exists_or_create (sample_fs Map.empty) dl_dir = (Inr (), fs1)"
    and sm: "save_metadata grpc_libs fs1 sample_metadata = (Inr sample_metadata, fs')"
    by (auto elim!: download_answer_Inr simp: grpc_dir)
  have n: "node_at fs1 dl_dir = Some DirNode" "healthy fs1" using ensure_dir_effect(1,3) [OF e] by simp_all
  have other: "fs_nodes fs' q = fs_nodes fs1 q" if "q \<noteq> metadata_path dl_dir" for q
    using save_metadata_Inr(2) [OF sm] that by simp
  have "chunk_path dl_dir i FILE_CHUNK_EXTENSION \<notin> set (path_prefixes dl_dir)" for i
    using path_prefixes_length [of "chunk_path dl_dir i FILE_CHUNK_EXTENSION" dl_dir]
    by (auto simp: components_chunk_path)
  then have "fs_nodes fs1 (chunk_path dl_dir i FILE_CHUNK_EXTENSION) = None" for i
    using ensure_dir_effect(2) [OF e] by simp
  moreover have "healthy fs'"
    using accepted_download(4) [OF grpc_store_inv healthy_sample_fs assms] .
  ultimately show ?thesis
    using n(1) other by (auto simp: dir_writable_def node_at_def)
qed

text \<open>
  Claim C14. An accepted download can be worked on: when \<open>download_file\<close> succeeds, the pending record
  is in the store under the key of the metadata, the metadata file with the new location is on
  the disk, and a task that starts with this record finds both and has every chunk to fetch.
\<close>

theorem accepted_download_can_start:
  assumes "rocks_inv L R c s" "healthy fs"
    and "download_file_answer L (rocks_store L R) s fs request (Some (Some m)) sent = (Inr u, s', fs', commands)"
  shows "\<exists>rec md d. rocks_pending L c s' (PublishedFileKey (metadata_key L m)) = Some rec \<and>
    download_start L s' fs' rec = Inr (md, d) \<and> md = m\<lparr>md_chunks_dir := pend_chunks_dir rec\<rparr> \<and>
    dl_waiting d = [0..<length (md_merkle_proofs m)] \<and> commands = [ProvideMetadata md]"
proof -
  note a = accepted_download [OF assms]
  obtain d where d: "download_start L s' fs' (download_record L request m) =
      Inr (m\<lparr>md_chunks_dir := download_dir request m\<rparr>, d)" "dl_waiting d = [0..<length (md_merkle_proofs m)]"
    using accepted_download_starts [OF assms] by blast
  have "rocks_pending L c s' (PublishedFileKey (metadata_key L m)) = Some (download_record L request m)"
    by (simp add: a(2))
  then show ?thesis using d a(9) by simp
qed

theorem accepted_download_can_start_witness:
  "\<exists>s' fs' commands rec md d. download_file_answer grpc_libs (rocks_store grpc_libs sample_db) sample_trees
      (sample_fs Map.empty) grpc_request (Some (Some sample_metadata)) True = (Inr (), s', fs', commands) \<and>
    download_start grpc_libs s' fs' rec = Inr (md, d) \<and> dl_waiting d = [0]"
proof (rule grpc_accepted)
  fix s' fs' commands
  assume a: "download_file_answer grpc_libs (rocks_store grpc_libs sample_db) sample_trees
    (sample_fs Map.empty) grpc_request (Some (Some sample_metadata)) True = (Inr (), s', fs', commands)"
  from accepted_download_can_start [OF grpc_store_inv healthy_sample_fs a] a show ?thesis by auto
qed

text \<open>
  Claim C40. The requested identifier is not compared with the metadata that arrives: when a peer
  answers with the metadata of another file, that file is downloaded, and the request is not
  recorded, so that it is not refused when it is made again.
\<close>

theorem download_of_another_file:
  assumes "rocks_inv L R c s" "healthy fs"
    and "download_file_answer L (rocks_store L R) s fs request (Some (Some m)) sent = (Inr u, s', fs', commands)"
    and "key_of_u64 (dreq_file_id request) \<noteq> PublishedFileKey (metadata_key L m)"
  shows "rocks_pending L c s' (key_of_u64 (dreq_file_id request)) =
      rocks_pending L c s (key_of_u64 (dreq_file_id request)) \<and>
    rocks_published L c s' = rocks_published L c s \<and>
    PublishedFileKey (metadata_key L m) \<in> dom (rocks_pending L c s')"
  using accepted_download(2,3) [OF assms(1-3)] assms(4) by simp

theorem download_of_another_file_witness:
  "\<exists>s' fs' commands. download_file_answer grpc_libs (rocks_store grpc_libs sample_db) sample_trees
      (sample_fs Map.empty) grpc_request (Some (Some sample_metadata)) True = (Inr (), s', fs', commands) \<and>
    rocks_pending grpc_libs sample_contents s' (key_of_u64 1) = None"
proof (rule grpc_accepted)
  fix s' fs' commands
  assume a: "download_file_answer grpc_libs (rocks_store grpc_libs sample_db) sample_trees
    (sample_fs Map.empty) grpc_request (Some (Some sample_metadata)) True = (Inr (), s', fs', commands)"
  have "length (metadata_hash_input sample_metadata) = 51"
    by (simp add: metadata_hash_input_def sample_metadata_def expected_metadata_def sample_chunks string_bytes_def)
  then have "key_of_u64 (dreq_file_id grpc_request) \<noteq> PublishedFileKey (metadata_key grpc_libs sample_metadata)"
    by (simp add: grpc_key grpc_record_def PendingDownloadRecord_new_def grpc_request_def key_of_u64_def)
  from download_of_another_file [OF grpc_store_inv healthy_sample_fs a this] a show ?thesis
    by (auto simp: grpc_request_def rocks_pending_def column_lookup_def sample_contents_def sample_trees_def)
qed

section \<open>Searching\<close>

text \<open>
  Claim C26. What a search tells its client: every file that is found while the client listens is
  reported, unless the store answers that the node publishes it; a file is reported again only after
  the cache has evicted it, so at most once more than it was evicted; nothing else is reported (a
  published file only when the check of the store fails); and the task sends no command but
  the abort of its own session, and that only when the client has stopped listening.
\<close>

theorem search_reports_found_files:
  "let st = search_task S v events search_task_start in
    (\<forall>before found s sent evicted after.
       events = before @ Found found s True sent evicted # after \<and> SearchEnd \<notin> set before \<and>
       published_file_exists S s (key_of_u64 (found_file_id found)) \<noteq> Inr True \<longrightarrow>
       found_file_id found \<in> set (map sresp_file_id (st_responses st))) \<and>
    (\<forall>f. count_list (map sresp_file_id (st_responses st)) f \<le>
       Suc (length (filter (\<lambda>e. f |\<in>| evicts e) events))) \<and>
    (\<forall>r \<in> set (st_responses st). \<exists>found s sent evicted. Found found s True sent evicted \<in> set events \<and>
       sresp_file_id r = found_file_id found \<and> sresp_file_name r = found_file_name found \<and>
       published_file_exists S s (key_of_u64 (found_file_id found)) \<noteq> Inr True) \<and>
    set (st_aborts st) \<subseteq> {FileSearchAbort v} \<and> (st_aborts st \<noteq> [] \<longrightarrow> (\<exists>e \<in> set events. deaf e))"
proof -
  have start: "search_inv S v seen search_task_start" for seen
    by (simp add: search_inv_def search_task_start_def)
  have inv: "search_inv S v (set events) (search_task S v events search_task_start)"
    by (rule search_task_inv [OF start subset_refl])
  have count: "count_list (reported (search_task S v events search_task_start)) f \<le>
      Suc (length (filter (\<lambda>e. f |\<in>| evicts e) events))" for f
    using search_task_count [of S v events search_task_start f] by (simp add: search_task_start_def)
  have found: "found_file_id found \<in> set (reported (search_task S v events search_task_start))"
    if "events = before @ Found found s True sent evicted # after \<and> SearchEnd \<notin> set before \<and>
      published_file_exists S s (key_of_u64 (found_file_id found)) \<noteq> Inr True"
    for before found s sent evicted after
    using search_task_reports [OF _ start subset_refl] that by blast
  show ?thesis unfolding Let_def using count found inv [unfolded search_inv_def] by blast
qed

definition sample_search_events :: "trees search_event list" where
  "sample_search_events =
     [Found \<lparr>found_file_id = 1, found_file_name = ''f''\<rparr> sample_trees True True {||},
      Found \<lparr>found_file_id = 1, found_file_name = ''f''\<rparr> sample_trees True True {||},
      SearchTick True True,
      Found \<lparr>found_file_id = 1, found_file_name = ''f''\<rparr> sample_trees True True {|1|}]"

theorem search_reports_found_files_witness:
  "map sresp_file_id (st_responses (search_task dl_S ''f'' sample_search_events search_task_start)) = [1, 1] \<and>
   1 \<in> set (map sresp_file_id (st_responses (search_task dl_S ''f'' sample_search_events search_task_start))) \<and>
   count_list (map sresp_file_id (st_responses (search_task dl_S ''f'' sample_search_events search_task_start))) 1 \<le> 2"
proof -
  have free: "published_file_exists dl_S sample_trees (key_of_u64 1) = Inr False"
    by (simp add: rocks_store_def rocks_exists_def sample_trees_def get_cf_def)
  then have run: "map sresp_file_id (st_responses (search_task dl_S ''f'' sample_search_events search_task_start)) = [1, 1]"
    by (simp add: sample_search_events_def search_found_def search_task_start_def)
  note all = search_reports_found_files [of dl_S "''f''" sample_search_events, unfolded Let_def]
  have "sample_search_events = [] @ Found \<lparr>found_file_id = 1, found_file_name = ''f''\<rparr> sample_trees True True {||} #
      tl sample_search_events" by (simp add: sample_search_events_def)
  with conjunct1 [OF all] free
  have "1 \<in> set (map sresp_file_id (st_responses (search_task dl_S ''f'' sample_search_events search_task_start)))"
    by fastforce
  moreover have "count_list (map sresp_file_id (st_responses (search_task dl_S ''f'' sample_search_events search_task_start))) 1 \<le>
      Suc (length (filter (\<lambda>e. 1 |\<in>| evicts e) sample_search_events))"
    using conjunct1 [OF conjunct2 [OF all]] by blast
  then have "count_list (map sresp_file_id (st_responses (search_task dl_S ''f'' sample_search_events search_task_start))) 1 \<le> 2"
    by (simp add: sample_search_events_def)
  ultimately show ?thesis using run by blast
qed

end
