(* ===== verification/Network_Behaviour.thy ===== *)
theory Network_Behaviour
  imports P2p_Swarm
begin

text \<open>
  \<open>P2pNetworkBehaviour\<close> of \<open>p2p/domain.rs\<close> and the part of \<open>p2p/service.rs\<close> that builds the swarm
  (\<open>with_behaviour\<close> and the chain of \<open>SwarmBuilder\<close> calls in \<open>swarm\<close>).

  A behaviour of \<open>libp2p\<close> is known by what the code creates it from: the key pair or the peer
  identifier, the names of its protocols and the settings that are not the library's defaults.
  The constructors that can fail, and the transports, are the record \<open>Builder\<close>; \<open>'r\<close> is the
  behaviour of a relay client, which the builder hands over.
\<close>

section \<open>Settings\<close>

record KadConfig =
  kc_protocol :: string
  kc_periodic_bootstrap_interval :: "nat option"

datatype ValidationMode = Strict

record GossipsubConfig =
  gc_heartbeat_interval :: nat
  gc_validation_mode :: ValidationMode

datatype ProtocolSupport = Full

record ('k, 'r) P2pNetworkBehaviour =
  nb_ping :: unit
  nb_identify :: "string \<times> 'k"
  nb_mdns :: PeerId
  nb_kademlia :: "PeerId \<times> PeerId \<times> KadConfig"
  nb_gossipsub :: "'k \<times> GossipsubConfig"
  nb_relay_server :: PeerId
  nb_relay_client :: 'r
  nb_dcutr :: PeerId
  nb_file_download :: "(string \<times> ProtocolSupport) list"
  nb_metadata_download :: "(string \<times> ProtocolSupport) list"
  nb_file_search_results :: "(string \<times> ProtocolSupport) list"

record ('k, 'r, 'sw) Builder =
  to_peer_id :: "'k \<Rightarrow> PeerId"
  gossipsub_config_build :: "GossipsubConfig \<Rightarrow> string option"
  mdns_new :: "PeerId \<Rightarrow> string option"
  gossipsub_new :: "'k \<Rightarrow> GossipsubConfig \<Rightarrow> string option"
  with_tcp :: "'k \<Rightarrow> string option"
  with_relay_client :: "'k \<Rightarrow> string + 'r"
  swarm_build :: "'k \<Rightarrow> ('k, 'r) P2pNetworkBehaviour \<Rightarrow> nat \<Rightarrow> 'sw"

section \<open>The behaviour of a node\<close>

text \<open>
  The fields are created in the order of the struct expression: of the fallible ones \<open>mdns\<close> comes
  before \<open>gossipsub\<close>, and the configuration of \<open>gossipsub\<close> before both.
\<close>

definition with_behaviour :: "('k, 'r, 'sw, 'z) Builder_scheme \<Rightarrow> 'k \<Rightarrow> 'r \<Rightarrow> string + ('k, 'r) P2pNetworkBehaviour" where
  "with_behaviour B key_pair relay_client =
     (let kad_config = \<lparr>kc_protocol = ''/dfs/1.0.0/kad'', kc_periodic_bootstrap_interval = Some 30\<rparr>;
          gossipsub_config = \<lparr>gc_heartbeat_interval = 10, gc_validation_mode = Strict\<rparr>;
          peer_id = to_peer_id B key_pair
      in case gossipsub_config_build B gossipsub_config of
           Some e \<Rightarrow> Inl e
         | None \<Rightarrow>
        (case mdns_new B peer_id of
           Some e \<Rightarrow> Inl e
         | None \<Rightarrow>
        (case gossipsub_new B key_pair gossipsub_config of
           Some e \<Rightarrow> Inl e
         | None \<Rightarrow> Inr
             \<lparr>nb_ping = (),
              nb_identify = (''/dfs/1.0.0'', key_pair),
              nb_mdns = peer_id,
              nb_kademlia = (peer_id, peer_id, kad_config),
              nb_gossipsub = (key_pair, gossipsub_config),
              nb_relay_server = peer_id,
              nb_relay_client = relay_client,
              nb_dcutr = peer_id,
              nb_file_download = [(''/dfs/1.0.0/file-download'', Full)],
              nb_metadata_download = [(''/dfs/1.0.0/metadata-download'', Full)],
              nb_file_search_results = [(''/dfs/1.0.0/file-search-results'', Full)]\<rparr>)))"

text \<open>
  The chain of builder calls, with the conversions of its errors; 30 seconds is the time after
  which an idle connection is closed.
\<close>

definition build_swarm :: "('k, 'r, 'sw, 'z) Builder_scheme \<Rightarrow> 'k \<Rightarrow> P2pNetworkError + 'sw" where
  "build_swarm B key_pair =
     (case with_tcp B key_pair of
        Some e \<Rightarrow> Inl (Pne_Libp2pNoise e)
      | None \<Rightarrow>
     (case with_relay_client B key_pair of
        Inl e \<Rightarrow> Inl (Pne_Libp2pNoise e)
      | Inr relay_client \<Rightarrow>
     (case with_behaviour B key_pair relay_client of
        Inl e \<Rightarrow> Inl (Pne_Libp2pSwarmBuilder e)
      | Inr behaviour \<Rightarrow> Inr (swarm_build B key_pair behaviour 30))))"

section \<open>Protocols\<close>

text \<open>
  The protocol names a node speaks. Requests, and the streams of \<open>kademlia\<close>, are told apart by
  them alone.
\<close>

definition protocol_names :: "('k, 'r) P2pNetworkBehaviour \<Rightarrow> string list" where
  "protocol_names b = fst (nb_identify b) # kc_protocol (snd (snd (nb_kademlia b))) #
     map fst (nb_file_download b @ nb_metadata_download b @ nb_file_search_results b)"

text \<open>
  Every part of the behaviour has the identity of the key pair, and no two protocols share a name.
\<close>

lemma with_behaviour_Inr:
  assumes "with_behaviour B key_pair relay_client = Inr b"
  shows "distinct (protocol_names b)"
    and "snd (nb_identify b) = key_pair" "fst (nb_gossipsub b) = key_pair" "nb_relay_client b = relay_client"
    and "nb_mdns b = to_peer_id B key_pair" "fst (nb_kademlia b) = to_peer_id B key_pair"
    and "fst (snd (nb_kademlia b)) = to_peer_id B key_pair"
    and "nb_relay_server b = to_peer_id B key_pair" "nb_dcutr b = to_peer_id B key_pair"
  using assms by (auto simp: with_behaviour_def protocol_names_def Let_def split: option.splits)

lemma build_swarm_Inr:
  assumes "build_swarm B key_pair = Inr w"
  obtains behaviour relay_client where "with_relay_client B key_pair = Inr relay_client"
    "with_behaviour B key_pair relay_client = Inr behaviour" "w = swarm_build B key_pair behaviour 30"
  using assms by (auto simp: build_swarm_def split: option.splits sum.splits)

end
