(* ===== verification/P2p_Service.thy ===== *)
theory P2p_Service
  imports P2p_Events Downloads Network_Behaviour
begin

text \<open>
  \<open>p2p/service.rs\<close>: the key pair of the node, the sequence of calls that brings the swarm up, and
  the loop over \<open>select!\<close>. What the file takes from \<open>libp2p\<close> beyond \<open>SwarmOps\<close> is the record
  \<open>Libp2p\<close>, which extends \<open>Builder\<close>: the codec of key pairs, the switch to server mode,
  subscriptions, and the parser of addresses with the \<open>Display\<close> and \<open>Debug\<close> texts of its errors.
\<close>

record ('k, 'r, 'sw) Libp2p = "('k, 'r, 'sw) Builder" +
  from_protobuf_encoding :: "bytes \<Rightarrow> string + 'k"
  to_protobuf_encoding :: "'k \<Rightarrow> string + bytes"
  set_mode_server :: "'sw \<Rightarrow> 'sw"
  gossip_subscribe :: "'sw \<Rightarrow> string \<Rightarrow> (string + unit) \<times> 'sw"
  parse_multiaddr :: "string \<Rightarrow> (string \<times> string) + multiaddr"

text \<open>The two ends of the command channel are known by the channel they belong to.\<close>

type_synonym mpsc_rx = nat

record 's P2pService =
  ps_config :: P2pServiceConfig
  ps_store :: 's
  ps_commands_rx :: mpsc_rx
  ps_commands_tx :: mpsc_tx
  ps_max_active_downloads :: u16

definition P2pService_new :: "P2pServiceConfig \<Rightarrow> 's \<Rightarrow> mpsc_rx \<Rightarrow> mpsc_tx \<Rightarrow> u16 \<Rightarrow> 's P2pService" where
  "P2pService_new config store commands_rx commands_tx max_active_downloads =
     \<lparr>ps_config = config, ps_store = store, ps_commands_rx = commands_rx, ps_commands_tx = commands_tx,
      ps_max_active_downloads = max_active_downloads\<rparr>"

section \<open>The key pair\<close>

text \<open>\<open>generated\<close> is the key pair that \<open>generate_ed25519\<close> draws.\<close>

definition keypair :: "('k, 'r, 'sw) Libp2p \<Rightarrow> 'k \<Rightarrow> filesys \<Rightarrow> 's P2pService \<Rightarrow> (P2pNetworkError + 'k) \<times> filesys" where
  "keypair P generated fs svc =
     (let keypair_file = cfg_keypair_file (ps_config svc) in
      case fs_try_exists fs keypair_file of
        Inl e \<Rightarrow> (Inl (Pne_IO e), fs)
      | Inr True \<Rightarrow>
          (case fs_read fs keypair_file of
             Inl e \<Rightarrow> (Inl (Pne_IO e), fs)
           | Inr data \<Rightarrow>
               (case from_protobuf_encoding P data of
                  Inl e \<Rightarrow> (Inl (Pne_KeypairDecoding e), fs)
                | Inr k \<Rightarrow> (Inr k, fs)))
      | Inr False \<Rightarrow>
          (case path_parent keypair_file of
             None \<Rightarrow> (Inl (Pne_FailedToGetKeypairFileDir keypair_file), fs)
           | Some dir \<Rightarrow>
          (case fs_create_dir_all fs dir of
             (Inl e, fs1) \<Rightarrow> (Inl (Pne_IO e), fs1)
           | (Inr _, fs1) \<Rightarrow>
          (case to_protobuf_encoding P generated of
             Inl e \<Rightarrow> (Inl (Pne_KeypairDecoding e), fs1)
           | Inr encoded \<Rightarrow>
          (case fs_write fs1 keypair_file encoded of
             (Inl e, fs2) \<Rightarrow> (Inl (Pne_IO e), fs2)
           | (Inr _, fs2) \<Rightarrow> (Inr generated, fs2))))))"

section \<open>Bringing the swarm up\<close>

definition swarm :: "('k, 'r, 'sw) Libp2p \<Rightarrow> 'k \<Rightarrow> filesys \<Rightarrow> 's P2pService \<Rightarrow> (P2pNetworkError + 'sw) \<times> filesys" where
  "swarm P generated fs svc =
     (case keypair P generated fs svc of
        (Inl e, fs1) \<Rightarrow> (Inl e, fs1)
      | (Inr k, fs1) \<Rightarrow> (build_swarm P k, fs1))"

definition LISTEN_ADDRS :: "string list" where
  "LISTEN_ADDRS = [''/ip4/0.0.0.0/tcp/0'', ''/ip4/0.0.0.0/udp/0/quic-v1'']"

fun listen_all :: "('k, 'r, 'sw) Libp2p \<Rightarrow> 'sw SwarmOps \<Rightarrow> 'sw \<Rightarrow> string list \<Rightarrow> (ServerError + unit) \<times> 'sw" where
  "listen_all P W w [] = (Inr (), w)"
| "listen_all P W w (addr # addrs) =
     (case parse_multiaddr P addr of
        Inl (display, debug) \<Rightarrow> (Inl (Sve_P2pNetwork (Pne_Libp2pMultiAddrParse display)), w)
      | Inr a \<Rightarrow>
          (case listen_on W w a of
             (Inl e, w1) \<Rightarrow> (Inl (Sve_P2pNetwork (Pne_Libp2pTransport e)), w1)
           | (Inr _, w1) \<Rightarrow> listen_all P W w1 addrs))"

definition subscribe_topic :: "('k, 'r, 'sw) Libp2p \<Rightarrow> 'sw \<Rightarrow> string option \<Rightarrow> (ServerError + unit) \<times> 'sw" where
  "subscribe_topic P w topic =
     (case topic of
        None \<Rightarrow> (Inr (), w)
      | Some t \<Rightarrow>
          (case gossip_subscribe P w t of
             (Inl e, w1) \<Rightarrow> (Inl (Sve_P2pNetwork (Pne_Libp2pGossipsubSubscription e)), w1)
           | (Inr _, w1) \<Rightarrow> (Inr (), w1)))"

fun last_protocol :: "multiaddr \<Rightarrow> protocol option" where
  "last_protocol [] = None"
| "last_protocol (p # ps) = (if ps = [] then Some p else last_protocol ps)"

fun add_bootstrap_peers :: "('k, 'r, 'sw) Libp2p \<Rightarrow> 'sw SwarmOps \<Rightarrow> 'sw \<Rightarrow> string list \<Rightarrow> (ServerError + unit) \<times> 'sw" where
  "add_bootstrap_peers P W w [] = (Inr (), w)"
| "add_bootstrap_peers P W w (bootstrap_peer_str # peers) =
     (case parse_multiaddr P bootstrap_peer_str of
        Inl (display, debug) \<Rightarrow> (Inl (Sve_Custom
          (''bootstrap peer address '' @ bootstrap_peer_str @ '' cannot be parsed: '' @ debug)), w)
      | Inr addr \<Rightarrow>
          (case last_protocol addr of
             Some (P2p peer_id) \<Rightarrow>
               add_bootstrap_peers P W
                 (gossip_add_explicit_peer W (kad_add_address W w peer_id addr) peer_id) peers
           | _ \<Rightarrow> (Inl (Sve_Custom (''Peer ID does not exist in '' @ bootstrap_peer_str @ ''!'')), w)))"

definition start_swarm :: "('k, 'r, 'sw) Libp2p \<Rightarrow> 'sw SwarmOps \<Rightarrow> P2pServiceConfig \<Rightarrow> 'sw \<Rightarrow> (ServerError + unit) \<times> 'sw" where
  "start_swarm P W config w =
     (case listen_all P W w LISTEN_ADDRS of
        (Inl e, w1) \<Rightarrow> (Inl e, w1)
      | (Inr _, w1) \<Rightarrow>
     (case subscribe_topic P (set_mode_server P w1) (cfg_file_search_topic config) of
        (Inl e, w2) \<Rightarrow> (Inl e, w2)
      | (Inr _, w2) \<Rightarrow> add_bootstrap_peers P W w2 (cfg_bootstrap_peers config)))"

text \<open>
  Everything before the loop: the key pair, the swarm, the two services, and the announcement of
  the files published before. The result is the node with which the loop starts.
\<close>

definition p2p_service_start :: "('k, 'r, 'sw) Libp2p \<Rightarrow> 'k \<Rightarrow> ('sw, 's) env \<Rightarrow> filesys \<Rightarrow> 's P2pService
    \<Rightarrow> ServerError + ('sw, 's) node \<times> FileDownloadService" where
  "p2p_service_start P generated E fs svc =
     (case swarm P generated fs svc of
        (Inl e, fs1) \<Rightarrow> Inl (Sve_P2pNetwork e)
      | (Inr w, fs1) \<Rightarrow>
     (case start_swarm P (ev_swarm E) (ps_config svc) w of
        (Inl e, w1) \<Rightarrow> Inl e
      | (Inr _, w1) \<Rightarrow>
     (case provide_all_published_files E
          \<lparr>nd_swarm = w1, nd_store = ps_store svc, nd_fs = fs1, nd_svc = EventService_new (ps_config svc),
           nd_replies = [], nd_found = [], nd_tasks = []\<rparr> of
        (Inl e, n) \<Rightarrow> Inl (Sve_P2pNetwork e)
      | (Inr _, n) \<Rightarrow> Inr (n, FileDownloadService_new (ps_max_active_downloads svc)))))"

section \<open>The loop\<close>

text \<open>
  One iteration: what is ready when \<open>select!\<close> polls its branches, together with the state in which
  the swarm, the store and the disk are by then. The branches are polled in order (\<open>biased\<close>) and
  the first that is ready is run; the rest are dropped and polled anew. A tick carries what
  \<open>work_on_pending_downloads\<close> sees of its tasks.
\<close>

record ('sw, 's) poll =
  po_swarm :: 'sw
  po_store :: 's
  po_fs :: filesys
  po_event :: "swarm_event option"
  po_command :: "P2pCommand option option"
  po_tick :: "(nat \<Rightarrow> nat \<times> PublishedFileKey fset) option"
  po_job :: "(FileStoreError + FileMetadata) option"
  po_cancelled :: bool

datatype branch =
  SwarmEvent swarm_event
| Command "P2pCommand option"
| Ticker "nat \<Rightarrow> nat \<times> PublishedFileKey fset"
| Job "FileStoreError + FileMetadata"
| Cancelled

definition select_branch :: "('sw, 's) poll \<Rightarrow> branch option" where
  "select_branch p =
     (case po_event p of Some e \<Rightarrow> Some (SwarmEvent e) | None \<Rightarrow>
     (case po_command p of Some c \<Rightarrow> Some (Command c) | None \<Rightarrow>
     (case po_tick p of Some t \<Rightarrow> Some (Ticker t) | None \<Rightarrow>
     (case po_job p of Some j \<Rightarrow> Some (Job j) | None \<Rightarrow>
     (if po_cancelled p then Some Cancelled else None)))))"

text \<open>
  \<open>Stopped\<close> is the \<open>break\<close>; \<open>Stuck\<close> is a handler that does not return, and with it the whole loop.
  \<open>lp_spawned\<close> are the downloads for which tasks were spawned.
\<close>

record ('sw, 's) loop =
  lp_node :: "('sw, 's) node"
  lp_downloads :: FileDownloadService
  lp_spawned :: "PendingDownloadRecord list"

datatype ('sw, 's) loop_end = Looping "('sw, 's) loop" | Stopped "('sw, 's) loop" | Stuck "('sw, 's) loop"

definition polled :: "('sw, 's) poll \<Rightarrow> ('sw, 's) loop \<Rightarrow> ('sw, 's) loop" where
  "polled p l = l\<lparr>lp_node := (lp_node l)
     \<lparr>nd_swarm := po_swarm p, nd_store := po_store p, nd_fs := po_fs p\<rparr>\<rparr>"

definition run_branch :: "('sw, 's) env \<Rightarrow> ('sw, 's) loop \<Rightarrow> branch \<Rightarrow> ('sw, 's) loop_end" where
  "run_branch E l branch =
     (case branch of
        SwarmEvent event \<Rightarrow> Looping (l\<lparr>lp_node := handle_swarm_event E (lp_node l) event\<rparr>)
      | Command (Some command) \<Rightarrow> Looping (l\<lparr>lp_node := handle_command E (lp_node l) command\<rparr>)
      | Command None \<Rightarrow> Looping l
      | Ticker seen \<Rightarrow>
          (case work_on_pending_downloads (ev_store E) (nd_store (lp_node l)) seen (lp_downloads l) of
             (svc, spawned) \<Rightarrow>
               Looping (l\<lparr>lp_downloads := svc, lp_spawned := lp_spawned l @ spawned\<rparr>))
      | Job result \<Rightarrow>
          (case file_publish E (lp_node l) result of
             None \<Rightarrow> Stuck l
           | Some n \<Rightarrow> Looping (l\<lparr>lp_node := n\<rparr>))
      | Cancelled \<Rightarrow> Stopped l)"

fun p2p_loop :: "('sw, 's) env \<Rightarrow> ('sw, 's) poll list \<Rightarrow> ('sw, 's) loop \<Rightarrow> ('sw, 's) loop_end" where
  "p2p_loop E [] l = Looping l"
| "p2p_loop E (p # ps) l =
     (case select_branch p of
        None \<Rightarrow> p2p_loop E ps (polled p l)
      | Some branch \<Rightarrow>
          (case run_branch E (polled p l) branch of
             Looping l' \<Rightarrow> p2p_loop E ps l'
           | ended \<Rightarrow> ended))"

end
