(* ===== verification/Server_App.thy ===== *)
theory Server_App
  imports P2p_Service Grpc_Api
begin

text \<open>
  \<open>server.rs\<close>, \<open>cli/mod.rs\<close> and \<open>main.rs\<close>: the arguments, the base directory, which services are
  started with which configuration, and how the end of one service ends the others. \<open>clap\<close> parses
  the arguments; a service that runs is known by the result of its \<open>start\<close>.
\<close>

section \<open>The command line\<close>

record Cli =
  cli_base_path :: path
  cli_grpc_port :: "u16 option"
  cli_max_active_downloads :: u16
  cli_file_search_topic :: "string option"
  cli_bootstrap_peers :: "string list"

text \<open>\<open>None\<close> is the panic when there is no current directory either.\<close>

definition default_base_path :: "string + path option \<Rightarrow> io_error + path \<Rightarrow> path option" where
  "default_base_path my_home current_dir =
     map_option (\<lambda>p. path_join_str p ''.dfs'')
       (case my_home of
          Inr (Some p) \<Rightarrow> Some p
        | _ \<Rightarrow> (case current_dir of Inl e \<Rightarrow> None | Inr p \<Rightarrow> Some p))"

text \<open>The defaults of the arguments, as the attributes give them.\<close>

definition Cli_default :: "path \<Rightarrow> Cli" where
  "Cli_default base_path =
     \<lparr>cli_base_path = base_path, cli_grpc_port = None, cli_max_active_downloads = 10,
      cli_file_search_topic = None, cli_bootstrap_peers = []\<rparr>"

section \<open>Starting\<close>

definition init_base_dir :: "filesys \<Rightarrow> path \<Rightarrow> (ServerError + unit) \<times> filesys" where
  "init_base_dir fs base_dir =
     (case fs_try_exists fs base_dir of
        Inl e \<Rightarrow> (Inl (Sve_Io e), fs)
      | Inr True \<Rightarrow>
          (case fs_metadata fs base_dir of
             Inl e \<Rightarrow> (Inl (Sve_Io e), fs)
           | Inr DirNode \<Rightarrow> (Inr (), fs)
           | Inr (FileNode b) \<Rightarrow> (Inl (Sve_Custom (path_display base_dir @ '' is not a directory'')), fs))
      | Inr False \<Rightarrow>
          (case fs_create_dir_all fs base_dir of
             (Inl e, fs') \<Rightarrow> (Inl (Sve_Io e), fs')
           | (Inr _, fs') \<Rightarrow> (Inr (), fs')))"

definition p2p_config :: "Cli \<Rightarrow> P2pServiceConfig" where
  "p2p_config cli =
     (let builder = with_bootstrap_peers
            (with_keypair_file P2pServiceConfig_builder (path_join_str (cli_base_path cli) ''key.keypair''))
            (cli_bootstrap_peers cli)
      in build_config
          (case cli_file_search_topic cli of
             None \<Rightarrow> builder
           | Some topic \<Rightarrow> with_file_search_topic builder topic))"

text \<open>The services that \<open>start\<close> spawns, in their order; \<open>channel\<close> is the new command channel.\<close>

datatype 's service = P2pNode "'s P2pService" | GrpcNode "'s GrpcService"

definition server_start :: "'d DB \<Rightarrow> join_error option \<Rightarrow> mpsc_tx \<times> mpsc_rx \<Rightarrow> filesys \<Rightarrow> Cli
    \<Rightarrow> (ServerError + 'd service list) \<times> filesys" where
  "server_start R join channel fs cli =
     (case init_base_dir fs (cli_base_path cli) of
        (Inl e, fs') \<Rightarrow> (Inl e, fs')
      | (Inr _, fs') \<Rightarrow>
     (case RocksDBStore_new R join (path_join_str (cli_base_path cli) ''file_store'') of
        Inl e \<Rightarrow> (Inl (Sve_FileStore e), fs')
      | Inr store \<Rightarrow>
          (let (tx, rx) = channel;
               p2p_service = P2pNode (P2pService_new (p2p_config cli) store rx tx (cli_max_active_downloads cli))
           in (Inr (case cli_grpc_port cli of
                      None \<Rightarrow> [p2p_service]
                    | Some port \<Rightarrow> [p2p_service, GrpcNode (GrpcService_new port store tx)]), fs'))))"

section \<open>Running and stopping\<close>

text \<open>
  The server while it runs: the arguments, the token, how many subtasks were spawned, which of them
  have not returned from \<open>start\<close>, and whether \<open>main\<close> has called \<open>stop\<close>.
\<close>

record server =
  sv_cli :: Cli
  sv_cancelled :: bool
  sv_subtasks :: nat
  sv_running :: "nat list"
  sv_stopping :: bool

definition Server_new :: "Cli \<Rightarrow> server" where
  "Server_new cli =
     \<lparr>sv_cli = cli, sv_cancelled = False, sv_subtasks = 0, sv_running = [], sv_stopping = False\<rparr>"

definition spawn_task :: "server \<Rightarrow> server" where
  "spawn_task sv = sv\<lparr>sv_subtasks := Suc (sv_subtasks sv), sv_running := sv_running sv @ [sv_subtasks sv]\<rparr>"

text \<open>
  \<open>Done k r\<close> is the end of subtask \<open>k\<close>, which cancels the token when it is an error; \<open>CtrlC\<close> makes
  \<open>main\<close> call \<open>stop\<close>, as does a cancelled token.
\<close>

datatype server_event = Done nat "ServerError + unit" | CtrlC | TokenSeen

fun server_step :: "server_event \<Rightarrow> server \<Rightarrow> server" where
  "server_step (Done k result) sv =
     (if k \<in> set (sv_running sv) then
        sv\<lparr>sv_running := remove1 k (sv_running sv),
           sv_cancelled := (case result of Inl e \<Rightarrow> True | Inr _ \<Rightarrow> sv_cancelled sv)\<rparr>
      else sv)"
| "server_step CtrlC sv = sv\<lparr>sv_stopping := True, sv_cancelled := True\<rparr>"
| "server_step TokenSeen sv =
     (if sv_cancelled sv then sv\<lparr>sv_stopping := True, sv_cancelled := True\<rparr> else sv)"

text \<open>\<open>stop\<close> returns, and with it \<open>main\<close>, when every subtask has been joined.\<close>

definition main_returns :: "server \<Rightarrow> bool" where
  "main_returns sv \<longleftrightarrow> sv_stopping sv \<and> sv_running sv = []"

section \<open>When the program ends\<close>

definition started_server :: "Cli \<Rightarrow> 'd service list \<Rightarrow> server" where
  "started_server cli services = fold (\<lambda>_. spawn_task) services (Server_new cli)"

lemma spawned_all:
  "sv_subtasks sv = length (sv_running sv) \<Longrightarrow> sv_running sv = [0..<length (sv_running sv)] \<Longrightarrow>
   sv_running (fold (\<lambda>_. spawn_task) services sv) = [0..<length (sv_running sv) + length services] \<and>
   sv_stopping (fold (\<lambda>_. spawn_task) services sv) = sv_stopping sv \<and>
   sv_cancelled (fold (\<lambda>_. spawn_task) services sv) = sv_cancelled sv"
proof (induction services arbitrary: sv)
  case (Cons service services)
  have "sv_running (spawn_task sv) = [0..<Suc (length (sv_running sv))]"
    using Cons.prems by (simp add: spawn_task_def)
  then show ?case using Cons.IH [of "spawn_task sv"] Cons.prems(1) by (simp add: spawn_task_def)
qed simp

lemma started_server_simps [simp]:
  "sv_running (started_server cli services) = [0..<length services]"
  "\<not> sv_stopping (started_server cli services)" "\<not> sv_cancelled (started_server cli services)"
  using spawned_all [of "Server_new cli" services] by (simp_all add: started_server_def Server_new_def)

lemma running_after:
  "distinct (sv_running sv) \<Longrightarrow>
   sv_running (fold server_step events sv) = filter (\<lambda>k. \<forall>r. Done k r \<notin> set events) (sv_running sv)"
proof (induction events arbitrary: sv)
  case (Cons event events)
  show ?case
  proof (cases event)
    case (Done k r)
    have "sv_running (server_step event sv) = filter (\<lambda>j. j \<noteq> k) (sv_running sv)"
      using Cons.prems by (auto simp: Done distinct_remove1_removeAll removeAll_filter_not_eq intro: filter_cong
          intro!: filter_True [symmetric])
    with Cons.IH [of "server_step event sv"] Cons.prems show ?thesis
      by (auto simp: Done intro!: filter_cong)
  qed (use Cons in simp_all)
qed simp

text \<open>
  The program never ends by itself: something must have cancelled the token. And it ends only when
  each service has returned, so one that does not keeps it alive.
\<close>

lemma cancelled_after:
  "sv_cancelled (fold server_step events sv) \<or> sv_stopping (fold server_step events sv) \<Longrightarrow>
   sv_cancelled sv \<or> sv_stopping sv \<or> CtrlC \<in> set events \<or> (\<exists>k e. Done k (Inl e) \<in> set events)"
proof (induction events arbitrary: sv)
  case (Cons event events)
  from Cons.IH [OF Cons.prems [simplified]] show ?case
    by (cases event) (auto split: if_splits sum.splits)
qed simp

lemma stopping_after: "sv_stopping sv \<Longrightarrow> sv_stopping (fold server_step events sv)"
proof (induction events arbitrary: sv)
  case (Cons event events)
  then show ?case by (cases event) simp_all
qed simp

lemma main_returns_iff:
  "main_returns (fold server_step events (started_server cli services)) \<longleftrightarrow>
     sv_stopping (fold server_step events (started_server cli services)) \<and>
     (\<forall>k < length services. \<exists>r. Done k r \<in> set events)"
  by (auto simp: main_returns_def running_after filter_empty_conv)

lemma main_returns_cause:
  "main_returns (fold server_step events (started_server cli services)) \<Longrightarrow>
     CtrlC \<in> set events \<or> (\<exists>k e. Done k (Inl e) \<in> set events)"
  using cancelled_after [of events "started_server cli services"] by (simp add: main_returns_def)

lemma ctrl_c_stops:
  "CtrlC \<in> set events \<Longrightarrow> sv_stopping (fold server_step events sv)"
  by (auto dest!: split_list simp: stopping_after)

end
