(* ===== verification/P2p_Service_Props.thy ===== *)
theory P2p_Service_Props
  imports Server_App Reply_Ledger Sample_Node
begin

text \<open>
  The properties of the service loop and of the start of a node: the identity of a node is kept
  over restarts, what a started node is, what the answers of \<open>Reply_Ledger\<close> become when the loop of
  \<open>select!\<close> drives the event service, and what becomes of a request with and without a response.
\<close>

section \<open>The key pair\<close>

lemma fs_create_dir_all_healthy_iff:
  "fs_create_dir_all fs p = (r, fs') \<Longrightarrow> healthy fs' = healthy fs"
  using fs_create_dir_all_frame [of fs p r fs'] by (auto simp: healthy_def)

text \<open>
  Claim C30. The identity of a node survives a restart: when \<open>keypair\<close> has succeeded, with a key pair
  read from the file or with a new one, the next start finds the same key pair, whatever its
  generator draws, and leaves the disk as it is.
\<close>

theorem keypair_stable:
  assumes "keypair P generated fs svc = (Inr k, fs1)" "healthy fs"
    and "\<And>k b. to_protobuf_encoding P k = Inr b \<Longrightarrow> from_protobuf_encoding P b = Inr k"
  shows "keypair P generated' fs1 svc = (Inr k, fs1)"
proof -
  let ?file = "cfg_keypair_file (ps_config svc)"
  consider "fs_try_exists fs ?file = Inr True" | "fs_try_exists fs ?file = Inr False"
    using assms(1) by (cases "fs_try_exists fs ?file") (auto simp: keypair_def split: bool.splits)
  then show ?thesis
  proof cases
    case 1
    then show ?thesis using assms(1) by (auto simp: keypair_def split: sum.splits)
  next
    case 2
    then obtain dir fs2 encoded where new: "fs_create_dir_all fs dir = (Inr (), fs2)"
      "to_protobuf_encoding P generated = Inr encoded" "fs_write fs2 ?file encoded = (Inr (), fs1)" "k = generated"
      using assms(1) by (auto simp: keypair_def Let_def split: option.splits sum.splits prod.splits)
    have c: "components ?file \<noteq> []"
      using 2 assms(2) by (auto simp: fs_try_exists_def healthy_def node_at_def)
    have h: "healthy fs1"
      using assms(2) healthy_write [OF new(3)] fs_create_dir_all_healthy_iff [OF new(1)] by simp
    have n: "fs_nodes fs1 ?file = Some (FileNode encoded)"
      using fs_write_ok [OF new(3)] by simp
    have "fs_try_exists fs1 ?file = Inr True"
      using h n c by (simp add: fs_try_exists_def healthy_def node_at_def)
    then show ?thesis
      using fs_read_healthy [OF h c n] assms(3) [OF new(2)] by (simp add: keypair_def new(4))
  qed
qed

definition toy_libp2p :: "(nat, unit, toy_swarm) Libp2p" where
  "toy_libp2p =
     \<lparr>to_peer_id = (\<lambda>k. replicate k 0), gossipsub_config_build = (\<lambda>c. None), mdns_new = (\<lambda>p. None),
      gossipsub_new = (\<lambda>k c. None), with_tcp = (\<lambda>k. None), with_relay_client = (\<lambda>k. Inr ()),
      swarm_build = (\<lambda>k b t. nd_swarm (toy_node sample_trees)),
      from_protobuf_encoding = (\<lambda>b. Inr (length b)),
      to_protobuf_encoding = (\<lambda>k. Inr (replicate k 0)),
      set_mode_server = (\<lambda>w. w),
      gossip_subscribe = (\<lambda>w t. (Inr (), w)),
      parse_multiaddr = (\<lambda>s. Inr [P2p (map (\<lambda>c. word_of_nat (of_char c)) s)])\<rparr>"

definition toy_service :: "trees P2pService" where
  "toy_service = P2pService_new (P2pServiceConfig_default\<lparr>cfg_keypair_file := Path True [''key'']\<rparr>) sample_trees 1 1 2"

lemma toy_keypair:
  obtains fs1 where "keypair toy_libp2p 3 (sample_fs Map.empty) toy_service = (Inr 3, fs1)"
proof -
  let ?fs = "sample_fs Map.empty"
  have d: "fs_create_dir_all ?fs (Path True []) = (Inr (), ?fs)"
    by (simp add: fs_create_dir_all_def node_at_def sample_fs_def path_prefixes_def is_file_node_def)
  have w: "fs_write ?fs (Path True [''key'']) [0, 0, 0] =
      (Inr (), ?fs\<lparr>fs_nodes := [Path True [''key''] \<mapsto> FileNode [0, 0, 0]]\<rparr>)"
    using fs_write_healthy [of ?fs "Path True [''key'']" "[0, 0, 0]"]
    by (simp add: node_at_def parent_is_dir_def path_parent_def)
  have "fs_try_exists ?fs (Path True [''key'']) = Inr False"
    by (simp add: fs_try_exists_def sample_fs_def node_at_def)
  then have "keypair toy_libp2p 3 ?fs toy_service =
      (Inr 3, ?fs\<lparr>fs_nodes := [Path True [''key''] \<mapsto> FileNode [0, 0, 0]]\<rparr>)"
    by (simp add: keypair_def toy_service_def P2pService_new_def path_parent_def d toy_libp2p_def
        numeral_3_eq_3 w)
  then show ?thesis by (rule that)
qed

theorem keypair_stable_witness:
  "\<exists>fs1. keypair toy_libp2p 3 (sample_fs Map.empty) toy_service = (Inr 3, fs1) \<and>
    keypair toy_libp2p 4 fs1 toy_service = (Inr 3, fs1)"
proof (rule toy_keypair)
  fix fs1
  assume k: "keypair toy_libp2p 3 (sample_fs Map.empty) toy_service = (Inr 3, fs1)"
  have "\<And>k b. to_protobuf_encoding toy_libp2p k = Inr b \<Longrightarrow> from_protobuf_encoding toy_libp2p b = Inr k"
    by (auto simp: toy_libp2p_def)
  from keypair_stable [OF k healthy_sample_fs this] k show ?thesis by blast
qed

section \<open>Bootstrap peers\<close>

definition usable_peer :: "('k, 'r, 'sw) Libp2p \<Rightarrow> string \<Rightarrow> bool" where
  "usable_peer P peer = (case parse_multiaddr P peer of
     Inl e \<Rightarrow> False | Inr addr \<Rightarrow> (case last_protocol addr of Some (P2p peer_id) \<Rightarrow> True | _ \<Rightarrow> False))"

text \<open>
  The start accepts a list of bootstrap peers exactly when each of them is an address that parses
  and ends with the identifier of a peer; the first that does not stops it.
\<close>

lemma bootstrap_peers_accepted:
  "fst (add_bootstrap_peers P W w peers) = Inr () \<longleftrightarrow> list_all (usable_peer P) peers"
proof (induction peers arbitrary: w)
  case (Cons peer peers)
  show ?case
  proof (cases "parse_multiaddr P peer")
    case (Inr addr)
    then show ?thesis
      using Cons by (cases "last_protocol addr"; cases "the (last_protocol addr)") (auto simp: usable_peer_def)
  qed (auto simp: usable_peer_def)
qed simp

section \<open>A started node\<close>

text \<open>What the announcement at the start provides: every published file whose metadata can be read.\<close>

definition announced :: "libs \<Rightarrow> 'sw swarm_view \<Rightarrow> filesys \<Rightarrow> 'sw \<Rightarrow> PublishedFileRecord \<Rightarrow> bool" where
  "announced L V fs w rec \<longleftrightarrow>
     (\<forall>data. fs_read fs (metadata_path (pub_chunks_dir rec)) = Inr data \<longrightarrow>
        (\<exists>m. dec_metadata L data = Inr m \<and> metadata_key L m \<in> provided V w \<and>
           (\<forall>i < md_total_chunks m. \<exists>k. enc_chunk_request L
              \<lparr>creq_file_id = u64_of_key (PublishedFileKey (metadata_key L m)), creq_chunk_id = i\<rparr> = Inr k \<and>
              k \<in> provided V w)))"

lemma announced_mono: "announced L V fs w rec \<Longrightarrow> swarm_grows V w w' \<Longrightarrow> announced L V fs w' rec"
  unfolding announced_def swarm_grows_def by (meson subsetD)

lemma provide_stream_announces:
  assumes "swarm_ok (ev_swarm E) V" "provide_stream E fs w items = (Inr u, w')"
  shows "swarm_grows V w w' \<and> (\<forall>rec. Inr rec \<in> set items \<longrightarrow> announced (ev_libs E) V fs w' rec)"
  using assms(2)
proof (induction items arbitrary: w)
  case (Cons item items)
  then obtain rec where item: "item = Inr rec" by (cases item) auto
  show ?case
  proof (cases "fs_read fs (metadata_path (pub_chunks_dir rec))")
    case (Inl e)
    then show ?thesis
      using Cons.IH [of w] Cons.prems item by (auto simp: announced_def)
  next
    case (Inr data)
    then obtain m w1 v where m: "dec_metadata (ev_libs E) data = Inr m" and p: "provide_all E w m = (Inr v, w1)"
      and rest: "provide_stream E fs w1 items = (Inr u, w')"
      using Cons.prems item by (auto split: sum.splits prod.splits)
    note g = provide_all_grows [OF assms(1) p]
    note ih = Cons.IH [OF rest]
    have "announced (ev_libs E) V fs w1 rec" using g(2) Inr m by (simp add: announced_def)
    then have "announced (ev_libs E) V fs w' rec" by (rule announced_mono) (use ih in blast)
    then show ?thesis using ih g(1) swarm_grows_trans item by auto
  qed
qed simp

text \<open>
  Claim C16. What a started node is: its swarm was built from behaviours that all have the identity
  of its one key pair and of which no two speak a protocol of the same name, all bootstrap peers of
  the configuration are usable, every file it has published before is provided again with all its
  chunks as far as its metadata can be read, no request is open, and the download service has the
  configured number of permits.
\<close>

theorem started_node:
  assumes "p2p_service_start P generated E fs svc = Inr (n, downloads)" "swarm_ok (ev_swarm E) V"
  shows "\<exists>k fs1 relay_client behaviour w. keypair P generated fs svc = (Inr k, fs1) \<and>
      with_relay_client P k = Inr relay_client \<and> with_behaviour P k relay_client = Inr behaviour \<and>
      snd (nb_identify behaviour) = k \<and> fst (nb_gossipsub behaviour) = k \<and> nb_relay_client behaviour = relay_client \<and>
      nb_mdns behaviour = to_peer_id P k \<and> fst (nb_kademlia behaviour) = to_peer_id P k \<and>
      fst (snd (nb_kademlia behaviour)) = to_peer_id P k \<and> nb_relay_server behaviour = to_peer_id P k \<and>
      nb_dcutr behaviour = to_peer_id P k \<and> distinct (protocol_names behaviour) \<and>
      start_swarm P (ev_swarm E) (ps_config svc) (swarm_build P k behaviour 30) = (Inr (), w) \<and>
      swarm_grows V w (nd_swarm n) \<and>
      list_all (usable_peer P) (cfg_bootstrap_peers (ps_config svc)) \<and>
      (\<forall>rec. Inr rec \<in> set (stream_published_files (ev_store E) (ps_store svc)) \<longrightarrow>
         announced (ev_libs E) V fs1 (nd_swarm n) rec) \<and>
      nd_store n = ps_store svc \<and> nd_fs n = fs1 \<and> nd_svc n = EventService_new (ps_config svc) \<and> nd_replies n = [] \<and>
      downloads = FileDownloadService_new (ps_max_active_downloads svc)"
proof -
  from assms(1) obtain w fs1 where sw: "swarm P generated fs svc = (Inr w, fs1)"
    by (auto simp: p2p_service_start_def split: prod.splits sum.splits)
  obtain w1 where st: "start_swarm P (ev_swarm E) (ps_config svc) w = (Inr (), w1)"
    using assms(1) sw by (auto simp: p2p_service_start_def split: prod.splits sum.splits)
  let ?n = "\<lparr>nd_swarm = w1, nd_store = ps_store svc, nd_fs = fs1, nd_svc = EventService_new (ps_config svc),
           nd_replies = [], nd_found = [], nd_tasks = []\<rparr>"
  obtain u where pr: "provide_all_published_files E ?n = (Inr u, n)"
    and dl: "downloads = FileDownloadService_new (ps_max_active_downloads svc)"
    using assms(1) sw st by (auto simp: p2p_service_start_def split: prod.splits sum.splits)
  obtain w2 where p: "provide_stream E fs1 w1 (stream_published_files (ev_store E) (ps_store svc)) = (Inr u, w2)"
    and n: "n = ?n\<lparr>nd_swarm := w2\<rparr>"
    using pr by (auto simp: provide_all_published_files_def split: prod.splits)
  obtain k where k: "keypair P generated fs svc = (Inr k, fs1)" "build_swarm P k = Inr w"
    using sw by (auto simp: swarm_def split: prod.splits sum.splits)
  obtain behaviour relay_client where r: "with_relay_client P k = Inr relay_client"
    and b: "with_behaviour P k relay_client = Inr behaviour" and w: "w = swarm_build P k behaviour 30"
    by (rule build_swarm_Inr [OF k(2)])
  obtain w3 where "add_bootstrap_peers P (ev_swarm E) w3 (cfg_bootstrap_peers (ps_config svc)) = (Inr (), w1)"
    using st by (auto simp: start_swarm_def split: prod.splits sum.splits)
  then have "list_all (usable_peer P) (cfg_bootstrap_peers (ps_config svc))"
    using bootstrap_peers_accepted by (metis fst_conv)
  then show ?thesis
    using k(1) r b with_behaviour_Inr [OF b] st [unfolded w] provide_stream_announces [OF assms(2) p] n dl
    by (intro exI [of _ k] exI [of _ fs1] exI [of _ relay_client] exI [of _ behaviour] exI [of _ w1]) simp
qed

theorem started_node_witness:
  "\<exists>n downloads. p2p_service_start toy_libp2p 3 (toy_env 9) (sample_fs Map.empty) toy_service =
      Inr (n, downloads) \<and> nd_store n = sample_trees \<and> downloads = FileDownloadService_new 2"
proof -
  obtain fs1 where k: "keypair toy_libp2p 3 (sample_fs Map.empty) toy_service = (Inr 3, fs1)"
    by (rule toy_keypair)
  let ?w = "nd_swarm (toy_node sample_trees)"
  have "build_swarm toy_libp2p 3 = Inr ?w"
    by (simp add: build_swarm_def with_behaviour_def toy_libp2p_def Let_def)
  then have sw: "swarm toy_libp2p 3 (sample_fs Map.empty) toy_service = (Inr ?w, fs1)" by (simp add: swarm_def k)
  have st: "start_swarm toy_libp2p (ev_swarm (toy_env 9)) (ps_config toy_service) ?w = (Inr (), ?w)"
    by (simp add: start_swarm_def LISTEN_ADDRS_def subscribe_topic_def toy_libp2p_def toy_service_def
        P2pService_new_def P2pServiceConfig_default_def) (simp add: toy_ops_def subscribe_topic_def)
  have "stream_published_files (ev_store (toy_env 9)) sample_trees = []"
    by (simp add: rocks_store_def rocks_stream_all_def get_cf_def sample_trees_def RBT.entries.rep_eq RBT.empty.rep_eq)
  moreover have st_store: "ps_store toy_service = sample_trees" by (simp add: toy_service_def P2pService_new_def)
  ultimately have "\<exists>n downloads. p2p_service_start toy_libp2p 3 (toy_env 9) (sample_fs Map.empty) toy_service =
      Inr (n, downloads)"
    by (simp add: p2p_service_start_def sw st [simplified] provide_all_published_files_def st_store)
  then obtain n downloads where s: "p2p_service_start toy_libp2p 3 (toy_env 9) (sample_fs Map.empty)
      toy_service = Inr (n, downloads)" by blast
  from started_node [OF s, of toy_view] s show ?thesis
    by (auto simp: toy_service_def P2pService_new_def)
qed

section \<open>The loop\<close>

fun end_state :: "('sw, 's) loop_end \<Rightarrow> ('sw, 's) loop" where
  "end_state (Looping l) = l" | "end_state (Stopped l) = l" | "end_state (Stuck l) = l"

text \<open>The oneshot channels of the commands that the loop takes, in their order.\<close>

definition taken_oneshots :: "('sw, 's) poll list \<Rightarrow> oneshot list" where
  "taken_oneshots ps = List.map_filter (\<lambda>p. case select_branch p of
     Some (Command (Some c)) \<Rightarrow> map_option fst (command_oneshot c) | _ \<Rightarrow> None) ps"

lemma taken_oneshots_simps [simp]:
  "taken_oneshots [] = []"
  "taken_oneshots (p # ps) = (case select_branch p of
     Some (Command (Some c)) \<Rightarrow> (case command_oneshot c of None \<Rightarrow> [] | Some (ch, k) \<Rightarrow> [ch])
   | _ \<Rightarrow> []) @ taken_oneshots ps"
  by (auto simp: taken_oneshots_def List.map_filter_def split: option.split branch.split)

text \<open>The swarm gives out every identifier once, also while it is polled.\<close>

fun polls_grow :: "('sw, 's) env \<Rightarrow> 'sw swarm_view \<Rightarrow> ('sw, 's) poll list \<Rightarrow> ('sw, 's) loop \<Rightarrow> bool" where
  "polls_grow E V [] l \<longleftrightarrow> True"
| "polls_grow E V (p # ps) l \<longleftrightarrow> swarm_grows V (nd_swarm (lp_node l)) (po_swarm p) \<and>
     (case select_branch p of
        None \<Rightarrow> polls_grow E V ps (polled p l)
      | Some branch \<Rightarrow>
          (case run_branch E (polled p l) branch of Looping l' \<Rightarrow> polls_grow E V ps l' | _ \<Rightarrow> True))"

lemma polled_reachable:
  assumes "reachable E V (issued, lp_node l)" "swarm_grows V (nd_swarm (lp_node l)) (po_swarm p)"
  shows "reachable E V (issued, lp_node (polled p l))"
proof -
  have "reachable E V (issued, (lp_node l)\<lparr>nd_swarm := po_swarm p\<rparr>)"
    by (rule reachable.step [OF assms(1) node_step.poll [OF assms(2)]])
  from reachable.step [OF this node_step.outside [where s = "po_store p" and fs = "po_fs p"]]
  show ?thesis by (simp add: polled_def)
qed

text \<open>One branch is one step of the node, or none.\<close>

lemma run_branch_reachable:
  assumes "reachable E V (issued, lp_node l)"
    and "\<And>c ch k. branch = Command (Some c) \<Longrightarrow> command_oneshot c = Some (ch, k) \<Longrightarrow> issued ch = None"
  shows "reachable E V (case branch of Command (Some c) \<Rightarrow> issue_command issued c | _ \<Rightarrow> issued,
    lp_node (end_state (run_branch E l branch)))"
proof (cases branch)
  case (SwarmEvent ev)
  then show ?thesis
    using reachable.step [OF assms(1) node_step.event] by (simp add: run_branch_def)
next
  case (Command x)
  show ?thesis
  proof (cases x)
    case (Some c)
    have "reachable E V (issue_command issued c, handle_command E (lp_node l) c)"
      by (rule reachable.step [OF assms(1) node_step.command]) (rule assms(2); simp add: Command Some)
    then show ?thesis using Command Some by (simp add: run_branch_def)
  qed (use Command assms(1) in \<open>simp add: run_branch_def\<close>)
next
  case (Job r)
  show ?thesis
  proof (cases "file_publish E (lp_node l) r")
    case (Some n)
    then show ?thesis
      using Job reachable.step [OF assms(1) node_step.publish [OF Some]] by (simp add: run_branch_def)
  qed (use Job assms(1) in \<open>simp add: run_branch_def\<close>)
qed (use assms(1) in \<open>simp_all add: run_branch_def split: prod.split\<close>)

lemma p2p_loop_reachable:
  assumes "reachable E V (issued, lp_node l)" "polls_grow E V ps l"
    and "distinct (taken_oneshots ps)" "dom issued \<inter> set (taken_oneshots ps) = {}"
  shows "\<exists>issued'. reachable E V (issued', lp_node (end_state (p2p_loop E ps l))) \<and>
    dom issued' \<subseteq> dom issued \<union> set (taken_oneshots ps)"
  using assms
proof (induction ps arbitrary: l issued)
  case (Cons p ps)
  have p: "reachable E V (issued, lp_node (polled p l))"
    by (rule polled_reachable [OF Cons.prems(1)]) (use Cons.prems(2) in simp)
  show ?case
  proof (cases "select_branch p")
    case None
    with Cons.IH [OF p] Cons.prems(2-4) show ?thesis by simp
  next
    case (Some branch)
    let ?issued = "case branch of Command (Some c) \<Rightarrow> issue_command issued c | _ \<Rightarrow> issued"
    have new: "issued ch = None" if "branch = Command (Some c)" "command_oneshot c = Some (ch, k)" for c ch k
      using Cons.prems(4) that Some by auto
    have r: "reachable E V (?issued, lp_node (end_state (run_branch E (polled p l) branch)))"
      by (rule run_branch_reachable [OF p new])
    have dom: "dom ?issued \<subseteq> dom issued \<union> set (taken_oneshots (p # ps))"
      using Some by (auto simp: issue_command_def split: branch.split option.split)
    have rest: "dom ?issued \<inter> set (taken_oneshots ps) = {}"
      using Cons.prems(3,4) Some by (auto simp: issue_command_def split: branch.splits option.splits prod.splits)
    show ?thesis
    proof (cases "run_branch E (polled p l) branch")
      case (Looping l')
      have "\<exists>issued'. reachable E V (issued', lp_node (end_state (p2p_loop E ps l'))) \<and>
          dom issued' \<subseteq> dom ?issued \<union> set (taken_oneshots ps)"
        by (rule Cons.IH) (use r Looping Cons.prems(2,3) Some rest in \<open>auto simp: distinct_append\<close>)
      then obtain issued' where i: "reachable E V (issued', lp_node (end_state (p2p_loop E ps l')))"
        "dom issued' \<subseteq> dom ?issued \<union> set (taken_oneshots ps)" by blast
      have "set (taken_oneshots ps) \<subseteq> set (taken_oneshots (p # ps))" by simp
      with i(2) dom have "dom issued' \<subseteq> dom issued \<union> set (taken_oneshots (p # ps))" by blast
      moreover have "p2p_loop E (p # ps) l = p2p_loop E ps l'" using Some Looping by simp
      ultimately show ?thesis using i(1) by (intro exI [of _ issued']) (simp only:)
    qed (use r dom Some in auto)
  qed
qed auto

text \<open>What every branch keeps, the loop keeps.\<close>

lemma p2p_loop_keeps:
  assumes "reachable E V (issued, lp_node l)" "polls_grow E V ps l"
    and "distinct (taken_oneshots ps)" "dom issued \<inter> set (taken_oneshots ps) = {}"
    and "P (lp_node l)"
    and "\<And>p l. P (lp_node l) \<Longrightarrow> P (lp_node (polled p l))"
    and "\<And>p l issued branch. p \<in> set ps \<Longrightarrow> select_branch p = Some branch \<Longrightarrow>
      reachable E V (issued, lp_node l) \<Longrightarrow> P (lp_node l) \<Longrightarrow> P (lp_node (end_state (run_branch E l branch)))"
  shows "P (lp_node (end_state (p2p_loop E ps l)))"
  using assms(1-5,7)
proof (induction ps arbitrary: l issued)
  case (Cons p ps)
  have r: "reachable E V (issued, lp_node (polled p l))"
    by (rule polled_reachable [OF Cons.prems(1)]) (use Cons.prems(2) in simp)
  have P: "P (lp_node (polled p l))" by (rule assms(6) [OF Cons.prems(5)])
  show ?case
  proof (cases "select_branch p")
    case None
    have "P (lp_node (end_state (p2p_loop E ps (polled p l))))"
    proof (rule Cons.IH [OF r _ _ _ P])
      show "P (lp_node (end_state (run_branch E l branch)))"
        if "q \<in> set ps" "select_branch q = Some branch" "reachable E V (issued, lp_node l)" "P (lp_node l)"
        for q branch issued l
        by (rule Cons.prems(6) [OF _ that(2-4)]) (use that(1) in simp)
    qed (use Cons.prems(2-4) None in auto)
    then show ?thesis using None by simp
  next
    case (Some branch)
    let ?issued = "case branch of Command (Some c) \<Rightarrow> issue_command issued c | _ \<Rightarrow> issued"
    have new: "issued ch = None" if "branch = Command (Some c)" "command_oneshot c = Some (ch, k)" for c ch k
      using Cons.prems(4) that Some by auto
    have r': "reachable E V (?issued, lp_node (end_state (run_branch E (polled p l) branch)))"
      by (rule run_branch_reachable [OF r new])
    have P': "P (lp_node (end_state (run_branch E (polled p l) branch)))"
      by (rule Cons.prems(6) [OF _ Some r P]) simp
    show ?thesis
    proof (cases "run_branch E (polled p l) branch")
      case (Looping l')
      have "P (lp_node (end_state (p2p_loop E ps l')))"
      proof (rule Cons.IH)
        show "dom ?issued \<inter> set (taken_oneshots ps) = {}"
          using Cons.prems(3,4) Some by (auto simp: issue_command_def split: branch.splits option.splits prod.splits)
      qed (use r' P' Looping Cons.prems(2,3,6) Some in \<open>auto simp: distinct_append\<close>)
      then show ?thesis using Some Looping by simp
    qed (use P' Some in auto)
  qed
qed simp

text \<open>
  The oneshot channels, with their kinds, of the commands that the loop has taken until it ended: a
  poll takes a command when no event of the swarm is ready.
\<close>

fun requests_taken :: "('sw, 's) env \<Rightarrow> ('sw, 's) poll list \<Rightarrow> ('sw, 's) loop \<Rightarrow> (oneshot \<times> kind) list" where
  "requests_taken E [] l = []"
| "requests_taken E (p # ps) l =
     (case (po_event p, po_command p) of
        (None, Some (Some c)) \<Rightarrow> (case command_oneshot c of None \<Rightarrow> [] | Some x \<Rightarrow> [x])
      | _ \<Rightarrow> []) @
     (case p2p_loop E [p] l of Looping l' \<Rightarrow> requests_taken E ps l' | _ \<Rightarrow> [])"

lemma requests_taken_head:
  "(case (po_event p, po_command p) of
      (None, Some (Some c)) \<Rightarrow> (case command_oneshot c of None \<Rightarrow> [] | Some x \<Rightarrow> [x]) | _ \<Rightarrow> []) =
   (case select_branch p of
      Some (Command (Some c)) \<Rightarrow> (case command_oneshot c of None \<Rightarrow> [] | Some x \<Rightarrow> [x]) | _ \<Rightarrow> [])"
  by (auto simp: select_branch_def split: option.split)

lemma requests_taken_Cons:
  "requests_taken E (p # ps) l =
     (case select_branch p of
        Some (Command (Some c)) \<Rightarrow> (case command_oneshot c of None \<Rightarrow> [] | Some x \<Rightarrow> [x]) | _ \<Rightarrow> []) @
     (case p2p_loop E [p] l of Looping l' \<Rightarrow> requests_taken E ps l' | _ \<Rightarrow> [])"
  unfolding requests_taken.simps requests_taken_head ..

text \<open>They are among the channels of all polls, in the same order.\<close>

lemma requests_taken_distinct:
  assumes "distinct (taken_oneshots ps)"
  shows "set (map fst (requests_taken E ps l)) \<subseteq> set (taken_oneshots ps) \<and> distinct (map fst (requests_taken E ps l))"
  using assms
proof (induction ps arbitrary: l)
  case (Cons p ps)
  define first where "first = (case select_branch p of
      Some (Command (Some c)) \<Rightarrow> (case command_oneshot c of None \<Rightarrow> [] | Some x \<Rightarrow> [x]) | _ \<Rightarrow> [])"
  define rest where "rest = (case p2p_loop E [p] l of Looping l' \<Rightarrow> requests_taken E ps l' | _ \<Rightarrow> [])"
  have split: "requests_taken E (p # ps) l = first @ rest"
    unfolding requests_taken_Cons first_def rest_def ..
  have first: "taken_oneshots (p # ps) = map fst first @ taken_oneshots ps"
    by (auto simp: first_def split: option.split branch.split)
  have "set (map fst rest) \<subseteq> set (taken_oneshots ps) \<and> distinct (map fst rest)"
    using Cons.IH Cons.prems unfolding first by (auto simp: rest_def split: loop_end.split)
  with Cons.prems show ?case unfolding split first by auto
qed simp

lemma p2p_loop_issued:
  assumes "reachable E V (issued, lp_node l)" "polls_grow E V ps l"
    and "distinct (taken_oneshots ps)" "dom issued \<inter> set (taken_oneshots ps) = {}"
  shows "reachable E V (issued ++ map_of (requests_taken E ps l), lp_node (end_state (p2p_loop E ps l)))"
  using assms
proof (induction ps arbitrary: l issued)
  case (Cons p ps)
  have p: "reachable E V (issued, lp_node (polled p l))"
    by (rule polled_reachable [OF Cons.prems(1)]) (use Cons.prems(2) in simp)
  show ?case
  proof (cases "select_branch p")
    case None
    with Cons.IH [OF p] Cons.prems(2-4) show ?thesis
      unfolding requests_taken_Cons by simp
  next
    case (Some branch)
    let ?issued = "case branch of Command (Some c) \<Rightarrow> issue_command issued c | _ \<Rightarrow> issued"
    let ?new = "case branch of Command (Some c) \<Rightarrow> (case command_oneshot c of None \<Rightarrow> [] | Some x \<Rightarrow> [x]) | _ \<Rightarrow> []"
    have new: "issued ch = None" if "branch = Command (Some c)" "command_oneshot c = Some (ch, k)" for c ch k
      using Cons.prems(4) that Some by auto
    have r: "reachable E V (?issued, lp_node (end_state (run_branch E (polled p l) branch)))"
      by (rule run_branch_reachable [OF p new])
    have issued: "?issued = issued ++ map_of ?new"
      by (auto simp: issue_command_def map_add_def fun_eq_iff split: branch.split option.split)
    show ?thesis
    proof (cases "run_branch E (polled p l) branch")
      case (Looping l')
      have disjoint: "dom ?issued \<inter> set (taken_oneshots ps) = {}"
        using Cons.prems(3,4) Some by (auto simp: issue_command_def split: branch.splits option.splits prod.splits)
      have "reachable E V (?issued ++ map_of (requests_taken E ps l'), lp_node (end_state (p2p_loop E ps l')))"
        by (rule Cons.IH) (use r Looping Cons.prems(2,3) Some disjoint in \<open>auto simp: distinct_append\<close>)
      moreover have "dom (map_of ?new) \<inter> dom (map_of (requests_taken E ps l')) = {}"
        using requests_taken_distinct [of ps E l'] Cons.prems(3) Some
        by (fastforce simp: dom_map_of_conv_image_fst split: branch.splits option.splits)
      then have "map_of ?new ++ map_of (requests_taken E ps l') = map_of (requests_taken E (p # ps) l)"
        by (simp only: requests_taken_Cons Some option.case p2p_loop.simps Looping loop_end.case map_of_append map_add_comm)
      ultimately show ?thesis
        unfolding issued by (simp add: Some Looping flip: map_add_assoc)
    qed (use r issued Some in \<open>simp_all add: requests_taken_Cons del: requests_taken.simps\<close>)
  qed
qed simp

text \<open>A channel of the ledger waits at one place or has one answer, of its kind.\<close>

lemma ledger_inv_accounts:
  assumes "ledger_inv l" "lg_issued l ch = Some k"
  shows "((\<exists>p. kind_of_place p = k \<and> {q. lg_waiting l q = Some ch} = {p}) \<and> {r. (ch, r) \<in> set (lg_replies l)} = {}) \<or>
    ({q. lg_waiting l q = Some ch} = {} \<and>
     (\<exists>r. kind_of_reply r = k \<and> {r. (ch, r) \<in> set (lg_replies l)} = {r}))"
proof (cases "\<exists>p. lg_waiting l p = Some ch")
  case True
  then obtain p where p: "lg_waiting l p = Some ch" by blast
  with assms ledger_invD(5) have "kind_of_place p = k" by fastforce
  moreover have "{q. lg_waiting l q = Some ch} = {p}" using ledger_invD(1) [OF assms(1) p] p by blast
  moreover have "{r. (ch, r) \<in> set (lg_replies l)} = {}" using ledger_invD(3) [OF assms(1) p] by blast
  ultimately show ?thesis by blast
next
  case False
  with ledger_invD(4) [OF assms(1), of ch] assms(2) obtain r where r: "(ch, r) \<in> set (lg_replies l)" by auto
  with assms ledger_invD(6) have "kind_of_reply r = k" by fastforce
  moreover have "{r. (ch, r) \<in> set (lg_replies l)} = {r}"
    using r eq_key_imp_eq_value [OF ledger_invD(2) [OF assms(1)]] by blast
  ultimately show ?thesis using False by blast
qed

text \<open>
  Claim C12. The service loop accounts for every request, in every run, whatever order of swarm
  events, commands, ticks and jobs it meets and however it ends: the oneshot channel of each
  command it has taken, which it does whenever a command and no swarm event is ready, either waits at
  exactly one place of its kind and is unanswered, or waits nowhere and has been answered exactly once,
  with an answer of its kind. No other channel waits or is answered.
\<close>

theorem loop_accounts_for_requests:
  assumes "swarm_ok (ev_swarm E) V"
    and "nd_svc (lp_node l) = EventService_new config" "nd_replies (lp_node l) = []"
    and "polls_grow E V ps l" "distinct (taken_oneshots ps)"
    and "n = lp_node (end_state (p2p_loop E ps l))"
  shows "(\<forall>(ch, k) \<in> set (requests_taken E ps l).
      ((\<exists>p. kind_of_place p = k \<and> {q. waiting (nd_svc n) q = Some ch} = {p}) \<and> {r. (ch, r) \<in> set (nd_replies n)} = {}) \<or>
      ({q. waiting (nd_svc n) q = Some ch} = {} \<and>
       (\<exists>r. kind_of_reply r = k \<and> {r. (ch, r) \<in> set (nd_replies n)} = {r}))) \<and>
    distinct (map fst (nd_replies n)) \<and>
    fst ` set (nd_replies n) \<union> ran (waiting (nd_svc n)) = fst ` set (requests_taken E ps l)"
proof -
  let ?taken = "requests_taken E ps l"
  have start: "reachable E V (Map.empty, lp_node l)" by (rule reachable.start [OF assms(2,3)])
  have "reachable E V (Map.empty ++ map_of ?taken, n)"
    unfolding assms(6) by (rule p2p_loop_issued [OF start assms(4,5)]) simp
  then have inv: "ledger_inv (ledger_of (map_of ?taken, n))" using reachable_inv [OF _ assms(1)] by fastforce
  have issued: "map_of ?taken ch = Some k" if "(ch, k) \<in> set ?taken" for ch k
    using requests_taken_distinct [OF assms(5)] that by (simp add: map_of_is_SomeI)
  have "dom (map_of ?taken) = ran (waiting (nd_svc n)) \<union> fst ` set (nd_replies n)"
    using inv by (simp add: ledger_inv_def ledger_of_def)
  then have all: "fst ` set (nd_replies n) \<union> ran (waiting (nd_svc n)) = fst ` set ?taken"
    by (simp add: dom_map_of_conv_image_fst Un_commute)
  show ?thesis
    using ledger_inv_accounts [OF inv] ledger_invD(2) [OF inv] issued all
    unfolding ledger_of_simps by (intro conjI ballI) (simp_all add: case_prod_beta)
qed

text \<open>A run: a request for metadata, the end of its query without a provider, the shutdown.\<close>

definition toy_poll :: "nat \<Rightarrow> (toy_swarm, trees) poll" where
  "toy_poll next_id = \<lparr>po_swarm = (nd_swarm (toy_node sample_trees))\<lparr>toy_next := next_id\<rparr>,
     po_store = sample_trees, po_fs = sample_fs Map.empty, po_event = None, po_command = None,
     po_tick = None, po_job = None, po_cancelled = True\<rparr>"

definition toy_polls :: "(toy_swarm, trees) poll list" where
  "toy_polls =
     [(toy_poll 0)\<lparr>po_command := Some (Some (RequestMetadata \<lparr>mreq_file_id = 1\<rparr> 5))\<rparr>,
      (toy_poll 1)\<lparr>po_event := Some (Kademlia (FinishedWithNoAdditionalRecord 0))\<rparr>,
      toy_poll 1]"

definition toy_loop :: "(toy_swarm, trees) loop" where
  "toy_loop = \<lparr>lp_node = toy_node sample_trees, lp_downloads = FileDownloadService_new 2, lp_spawned = []\<rparr>"

theorem loop_accounts_for_requests_witness:
  "requests_taken (toy_env 9) toy_polls toy_loop = [(5, MetadataKind)] \<and>
   nd_replies (lp_node (end_state (p2p_loop (toy_env 9) toy_polls toy_loop))) = [(5, MetadataReply None)] \<and>
   {q. waiting (nd_svc (lp_node (end_state (p2p_loop (toy_env 9) toy_polls toy_loop)))) q = Some 5} = {}"
proof -
  have "choose_random (rn_range toy_random) (rn_order toy_random {||}) = None"
    by (simp add: choose_random_empty)
  note defs = this toy_polls_def toy_poll_def toy_loop_def select_branch_def run_branch_def polled_def
    handle_command_def handle_swarm_event_def kademlia_def handle_get_metadata_providers_result_def
    handle_all_possible_providers_found_def toy_node_def toy_ops_def fresh_id_def EventService_new_def
    send_oneshot_def
  have run: "nd_replies (lp_node (end_state (p2p_loop (toy_env 9) toy_polls toy_loop))) = [(5, MetadataReply None)]"
    by (simp add: defs)
  have grow: "polls_grow (toy_env 9) toy_view toy_polls toy_loop"
    by (simp add: defs swarm_grows_def toy_view_def)
  have taken: "taken_oneshots toy_polls = [5]" by (simp add: toy_polls_def toy_poll_def select_branch_def)
  have "nd_svc (lp_node toy_loop) = EventService_new (P2pServiceConfig_default\<lparr>cfg_file_search_topic := Some ''dfs''\<rparr>)"
    "nd_replies (lp_node toy_loop) = []" "swarm_ok (ev_swarm (toy_env 9)) toy_view"
    by (simp_all add: toy_loop_def toy_node_def)
  note accounts = loop_accounts_for_requests [OF this(3,1,2) grow _ refl]
  have asked: "requests_taken (toy_env 9) toy_polls toy_loop = [(5, MetadataKind)]"
    by (simp add: defs)
  from accounts taken run asked show ?thesis by auto
qed

section \<open>A request without a response\<close>

text \<open>Nothing but its response takes a sent request for a chunk out of the table.\<close>

lemma sent_stays_event:
  assumes "swarm_ok (ev_swarm E) V" "ids_ok V n" "file_download_requests (nd_svc n) i = Some ch"
    and "\<And>r. ev \<noteq> FileDownload (Response i r)"
  shows "file_download_requests (nd_svc (handle_swarm_event E n ev)) i = Some ch"
proof (cases ev)
  case (Kademlia k)
  have new: "\<not> send_chunk_request (ev_swarm E) (nd_swarm n) p q = (i, w')" for p q w'
  proof
    assume "send_chunk_request (ev_swarm E) (nd_swarm n) p q = (i, w')"
    from swarm_okD(3) [OF assms(1) this] assms(2,3) show False unfolding ids_ok_def by blast
  qed
  have "file_download_requests (nd_svc (handle_all_possible_providers_found E n qid)) i = Some ch" for qid
    using assms(3)
    by (auto simp: handle_all_possible_providers_found_def Let_def send_oneshot_def new split: option.split prod.split)
  then show ?thesis
    using Kademlia assms(3)
    by (cases k) (auto simp: handle_swarm_event_def kademlia_def handle_get_metadata_providers_result_def Let_def
        split: option.split)
next
  case (FileDownload e)
  then show ?thesis
    using assms(3,4)
    by (cases e) (auto simp: handle_swarm_event_def file_download_def send_file_response_def
        handle_file_download_response_def send_oneshot_def split: option.split)
next
  case (MetadataDownload e)
  then show ?thesis
    using assms(3)
    by (cases e) (auto simp: handle_swarm_event_def metadata_download_def send_file_response_def
        handle_metadata_download_response_def send_oneshot_def split: option.split FileResponse.split sum.split)
qed (use assms(3) quiet_events(1-4) [OF assms(1), of n] in \<open>simp_all add: handle_swarm_event_def quiet_def\<close>)

lemma sent_stays_command:
  "file_download_requests (nd_svc (handle_command E n c)) = file_download_requests (nd_svc n)"
  by (cases c) (auto simp: handle_command_def send_oneshot_def split: option.split sum.split prod.split)

lemma sent_stays_branch:
  assumes "swarm_ok (ev_swarm E) V" "ids_ok V (lp_node l)" "file_download_requests (nd_svc (lp_node l)) i = Some ch"
    and "\<And>r. branch \<noteq> SwarmEvent (FileDownload (Response i r))"
  shows "file_download_requests (nd_svc (lp_node (end_state (run_branch E l branch)))) i = Some ch"
proof (cases branch)
  case (SwarmEvent ev)
  with assms(4) have "file_download_requests (nd_svc (handle_swarm_event E (lp_node l) ev)) i = Some ch"
    by (intro sent_stays_event [OF assms(1-3)]) blast
  with SwarmEvent show ?thesis by (simp add: run_branch_def)
next
  case (Command c)
  then show ?thesis using assms(3) by (cases c) (simp_all add: run_branch_def sent_stays_command)
next
  case (Job r)
  then show ?thesis
    using assms(3) by (auto simp: run_branch_def file_publish_def split: option.split sum.split)
qed (use assms(3) in \<open>simp_all add: run_branch_def split: prod.split\<close>)

lemma sent_stays_loop:
  fixes E :: "('sw, 's) env"
  assumes "swarm_ok (ev_swarm E) V" "reachable E V (issued, lp_node l)" "polls_grow E V ps l"
    and "distinct (taken_oneshots ps)" "dom issued \<inter> set (taken_oneshots ps) = {}"
    and "file_download_requests (nd_svc (lp_node l)) i = Some ch"
    and "\<And>p r. p \<in> set ps \<Longrightarrow> po_event p \<noteq> Some (FileDownload (Response i r))"
  shows "file_download_requests (nd_svc (lp_node (end_state (p2p_loop E ps l)))) i = Some ch"
proof (rule p2p_loop_keeps [OF assms(2-5), where P = "\<lambda>n. file_download_requests (nd_svc n) i = Some ch"])
  fix p issued branch and l :: "('sw, 's) loop"
  assume p: "p \<in> set ps" "select_branch p = Some branch" and r: "reachable E V (issued, lp_node l)"
    and i: "file_download_requests (nd_svc (lp_node l)) i = Some ch"
  have "branch \<noteq> SwarmEvent (FileDownload (Response i x))" for x
    using assms(7) [OF p(1)] p(2) by (auto simp: select_branch_def split: option.splits if_splits)
  then show "file_download_requests (nd_svc (lp_node (end_state (run_branch E l branch)))) i = Some ch"
    by (intro sent_stays_branch [OF assms(1) _ i]) (use reachable_inv [OF r assms(1)] in auto)
qed (use assms(6) in \<open>simp_all add: polled_def\<close>)

text \<open>A reply stays, and the response to a sent request makes one.\<close>

lemma ledger_step_replies: "ledger_step l l' \<Longrightarrow> set (lg_replies l) \<subseteq> set (lg_replies l')"
  by (erule ledger_stepE) auto

lemma reply_stays_branch:
  assumes "swarm_ok (ev_swarm E) V" "ids_ok V (lp_node l)" "x \<in> set (nd_replies (lp_node l))"
  shows "x \<in> set (nd_replies (lp_node (end_state (run_branch E l branch))))"
proof -
  have step: "x \<in> set (nd_replies n)" if "refines V (issued, lp_node l) (issued', n)" for issued issued' n
    using that assms(3) ledger_step_replies unfolding refines_def ledger_of_def by fastforce
  show ?thesis
  proof (cases branch)
    case (SwarmEvent ev)
    then show ?thesis using step [OF swarm_event_refines [OF assms(1,2)]] by (simp add: run_branch_def)
  next
    case (Command c)
    show ?thesis
    proof (cases c)
      case (Some cmd)
      have "refines V (Map.empty, lp_node l) (issue_command Map.empty cmd, handle_command E (lp_node l) cmd)"
        by (rule handle_command_refines [OF assms(1,2)]) simp
      from step [OF this] show ?thesis by (simp add: run_branch_def Command Some)
    qed (use Command assms(3) in \<open>simp add: run_branch_def\<close>)
  next
    case (Job r)
    then show ?thesis
      using assms(3) by (auto simp: run_branch_def file_publish_def split: option.split sum.split)
  qed (use assms(3) in \<open>simp_all add: run_branch_def split: prod.split\<close>)
qed

lemma reply_stays_loop:
  fixes E :: "('sw, 's) env"
  assumes "swarm_ok (ev_swarm E) V" "reachable E V (issued, lp_node l)" "polls_grow E V ps l"
    and "distinct (taken_oneshots ps)" "dom issued \<inter> set (taken_oneshots ps) = {}"
    and "x \<in> set (nd_replies (lp_node l))"
  shows "x \<in> set (nd_replies (lp_node (end_state (p2p_loop E ps l))))"
proof (rule p2p_loop_keeps [OF assms(2-5), where P = "\<lambda>n. x \<in> set (nd_replies n)"])
  fix issued branch and l :: "('sw, 's) loop"
  assume "reachable E V (issued, lp_node l)" "x \<in> set (nd_replies (lp_node l))"
  then show "x \<in> set (nd_replies (lp_node (end_state (run_branch E l branch))))"
    using reply_stays_branch [OF assms(1)] reachable_inv [OF _ assms(1)] by fastforce
qed (use assms(6) in \<open>simp_all add: polled_def\<close>)

lemma p2p_loop_append:
  "p2p_loop E (ps @ qs) l = (case p2p_loop E ps l of Looping l' \<Rightarrow> p2p_loop E qs l' | ended \<Rightarrow> ended)"
  by (induction ps arbitrary: l) (auto split: option.split loop_end.split)

lemma polls_grow_append:
  assumes "polls_grow E V (ps @ qs) l" "p2p_loop E ps l = Looping l'"
  shows "polls_grow E V ps l \<and> polls_grow E V qs l'"
  using assms by (induction ps arbitrary: l) (auto split: option.splits loop_end.splits)

lemma taken_oneshots_append [simp]: "taken_oneshots (ps @ qs) = taken_oneshots ps @ taken_oneshots qs"
  by (induction ps) simp_all

lemma response_is_delivered:
  assumes "swarm_ok (ev_swarm E) V" "reachable E V (issued, lp_node l)" "polls_grow E V (qs @ p # rs) l"
    and "distinct (taken_oneshots (qs @ p # rs))" "dom issued \<inter> set (taken_oneshots (qs @ p # rs)) = {}"
    and "file_download_requests (nd_svc (lp_node l)) i = Some ch"
    and "\<And>q r. q \<in> set qs \<Longrightarrow> po_event q \<noteq> Some (FileDownload (Response i r))"
    and "p2p_loop E qs l = Looping l'" "po_event p = Some (FileDownload (Response i resp))"
  shows "(ch, ChunkReply (Some resp)) \<in> set (nd_replies (lp_node (end_state (p2p_loop E (qs @ p # rs) l))))"
proof -
  note g = polls_grow_append [OF assms(3,8)]
  have q: "distinct (taken_oneshots qs)" "dom issued \<inter> set (taken_oneshots qs) = {}" using assms(4,5) by auto
  have sent: "file_download_requests (nd_svc (lp_node l')) i = Some ch"
    using sent_stays_loop [OF assms(1,2) conjunct1 [OF g] q assms(6,7)] assms(8) by simp
  obtain issued' where r': "reachable E V (issued', lp_node l')" "dom issued' \<subseteq> dom issued \<union> set (taken_oneshots qs)"
    using p2p_loop_reachable [OF assms(2) conjunct1 [OF g] q] assms(8) by auto
  have sel: "select_branch p = Some (SwarmEvent (FileDownload (Response i resp)))"
    using assms(9) by (simp add: select_branch_def)
  let ?ev = "FileDownload (Response i resp)"
  let ?l = "(polled p l')\<lparr>lp_node := handle_swarm_event E (lp_node (polled p l')) ?ev\<rparr>"
  have run: "run_branch E (polled p l') (SwarmEvent ?ev) = Looping ?l" by (simp add: run_branch_def)
  have loop: "p2p_loop E (qs @ p # rs) l = p2p_loop E rs ?l" by (simp add: p2p_loop_append assms(8) sel run)
  have p: "reachable E V (issued', lp_node (polled p l'))"
    by (rule polled_reachable [OF r'(1)]) (use g in simp)
  have r: "reachable E V (issued', lp_node ?l)" using reachable.step [OF p node_step.event] by simp
  have rs: "polls_grow E V rs ?l" "distinct (taken_oneshots rs)" "dom issued' \<inter> set (taken_oneshots rs) = {}"
    using g r'(2) assms(4,5) by (auto simp: sel run)
  have "(ch, ChunkReply (Some resp)) \<in> set (nd_replies (lp_node ?l))"
    using sent by (simp add: polled_def handle_swarm_event_def file_download_def handle_file_download_response_def
        send_oneshot_def)
  from reply_stays_loop [OF assms(1) r rs this] show ?thesis by (simp only: loop)
qed

text \<open>
  Claim C33. A failed request is never answered: as long as no response with its identifier arrives,
  the oneshot channel of a sent chunk request stays in the table, unanswered, whatever the loop
  does meanwhile. An outbound failure is one of the events that the loop only logs (\<open>OtherRr\<close>), so
  it does not wake the task that waits on the channel.
\<close>

theorem failed_request_waits_forever:
  assumes "swarm_ok (ev_swarm E) V" "reachable E V (issued, lp_node l)" "polls_grow E V ps l"
    and "distinct (taken_oneshots ps)" "dom issued \<inter> set (taken_oneshots ps) = {}"
    and "file_download_requests (nd_svc (lp_node l)) i = Some ch"
    and "\<And>p r. p \<in> set ps \<Longrightarrow> po_event p \<noteq> Some (FileDownload (Response i r))"
    and "n = lp_node (end_state (p2p_loop E ps l))"
  shows "file_download_requests (nd_svc n) i = Some ch \<and> ch \<notin> fst ` set (nd_replies n)"
proof -
  have w: "file_download_requests (nd_svc n) i = Some ch"
    unfolding assms(8) by (rule sent_stays_loop [OF assms(1-7)])
  obtain issued' where "reachable E V (issued', n)"
    using p2p_loop_reachable [OF assms(2-5)] assms(8) by blast
  then have inv: "ledger_inv (ledger_of (issued', n))" using reachable_inv [OF _ assms(1)] by blast
  have "(ch, r) \<notin> set (nd_replies n)" for r
    using ledger_invD(3) [OF inv, of "ChunkSent i" ch r] w by simp
  with w show ?thesis by force
qed

text \<open>A run that ends with a request for a chunk on its way, and one that meets the failure of it.\<close>

definition asking_polls :: "(toy_swarm, trees) poll list" where
  "asking_polls =
     [(toy_poll 0)\<lparr>po_command := Some (Some (RequestFileChunk \<lparr>creq_file_id = 1, creq_chunk_id = 2\<rparr> 6))\<rparr>,
      (toy_poll 1)\<lparr>po_event := Some (Kademlia (FoundProviders 0 {|[7]|}))\<rparr>,
      (toy_poll 1)\<lparr>po_event := Some (Kademlia (FinishedWithNoAdditionalRecord 0))\<rparr>]"

definition failing_polls :: "(toy_swarm, trees) poll list" where
  "failing_polls = [(toy_poll 2)\<lparr>po_event := Some (FileDownload OtherRr)\<rparr>, toy_poll 2]"

abbreviation asking_loop :: "(toy_swarm, trees) loop" where
  "asking_loop \<equiv> end_state (p2p_loop (toy_env 9) asking_polls toy_loop)"

lemma asking_run:
  obtains issued where "reachable (toy_env 9) toy_view (issued, lp_node asking_loop)"
    "file_download_requests (nd_svc (lp_node asking_loop)) 1 = Some 6"
    "nd_replies (lp_node asking_loop) = []" "toy_next (nd_swarm (lp_node asking_loop)) = 2"
    "toy_provided (nd_swarm (lp_node asking_loop)) = []"
proof -
  have c: "choose_random (rn_range toy_random) (rn_order toy_random {|[7]|}) = Some [7]"
    by (simp add: choose_random_def toy_random_def nth_opt_def sorted_list_of_fset.rep_eq)
  have "\<exists>b. enc_chunk_request sample_codec \<lparr>creq_file_id = 1, creq_chunk_id = 2\<rparr> = Inr b"
    by (simp add: sample_codec_def sample_libs_def)
  then obtain b where b: "enc_chunk_request sample_codec \<lparr>creq_file_id = 1, creq_chunk_id = 2\<rparr> = Inr b" ..
  note defs = b c extend_providers_def Let_def asking_polls_def toy_poll_def toy_loop_def select_branch_def
    run_branch_def polled_def handle_command_def handle_swarm_event_def kademlia_def
    handle_get_metadata_providers_result_def handle_all_possible_providers_found_def toy_node_def toy_ops_def
    fresh_id_def EventService_new_def send_oneshot_def
  have "polls_grow (toy_env 9) toy_view asking_polls toy_loop"
    by (simp add: defs swarm_grows_def toy_view_def)
  moreover have "reachable (toy_env 9) toy_view (Map.empty, lp_node toy_loop)"
    by (rule reachable.start) (simp_all add: toy_loop_def toy_node_def)
  moreover have "taken_oneshots asking_polls = [6]"
    by (simp add: asking_polls_def toy_poll_def select_branch_def)
  ultimately obtain issued where "reachable (toy_env 9) toy_view (issued, lp_node asking_loop)"
    using p2p_loop_reachable [of "toy_env 9" toy_view Map.empty toy_loop asking_polls] by auto
  then show ?thesis by (rule that) (simp_all add: defs)
qed

theorem failed_request_waits_forever_witness:
  "let n = lp_node (end_state (p2p_loop (toy_env 9) failing_polls asking_loop)) in
   file_download_requests (nd_svc n) 1 = Some 6 \<and> nd_replies n = []"
proof (rule asking_run)
  fix issued
  assume r: "reachable (toy_env 9) toy_view (issued, lp_node asking_loop)"
    and sent: "file_download_requests (nd_svc (lp_node asking_loop)) 1 = Some 6"
    and start: "nd_replies (lp_node asking_loop) = []" "toy_next (nd_swarm (lp_node asking_loop)) = 2"
      "toy_provided (nd_swarm (lp_node asking_loop)) = []"
  note defs = failing_polls_def toy_poll_def select_branch_def run_branch_def polled_def handle_swarm_event_def
    file_download_def toy_node_def
  have grow: "polls_grow (toy_env 9) toy_view failing_polls asking_loop"
    by (simp add: start defs swarm_grows_def toy_view_def)
  have event: "po_event p \<noteq> Some (FileDownload (Response 1 x))" if "p \<in> set failing_polls" for p x
    using that by (auto simp: failing_polls_def toy_poll_def)
  have taken: "taken_oneshots failing_polls = []"
    by (simp add: failing_polls_def toy_poll_def select_branch_def)
  have "nd_replies (lp_node (end_state (p2p_loop (toy_env 9) failing_polls asking_loop))) = []"
    by (simp add: defs start)
  with failed_request_waits_forever [OF _ r grow _ _ sent event refl] taken show ?thesis
    by (simp add: Let_def)
qed

section \<open>The server\<close>

lemma init_base_dir_Inr:
  assumes "init_base_dir fs p = (Inr u, fs')"
  shows "node_at fs' p = Some DirNode"
  using assms fs_create_dir_all_ok(1) [of fs p]
  by (auto simp: init_base_dir_def fs_metadata_def split: sum.splits bool.splits option.splits fs_node.splits prod.splits)

text \<open>
  Claim C31. What a started server runs: its base directory is there, the peer-to-peer service has
  the key file inside it and the topic, the bootstrap peers and the limit of the command line, the
  client interface runs exactly when a port is given, and both work on the one store that was
  opened in the base directory; what the client interface sends goes into the channel from which
  the peer-to-peer service takes its commands.
\<close>

theorem started_services:
  assumes "server_start R join (tx, rx) fs cli = (Inr services, fs')"
  shows "\<exists>store. RocksDBStore_new R join (path_join_str (cli_base_path cli) ''file_store'') = Inr store \<and>
    node_at fs' (cli_base_path cli) = Some DirNode \<and>
    services = P2pNode \<lparr>ps_config =
        \<lparr>cfg_keypair_file = path_join_str (cli_base_path cli) ''key.keypair'',
         cfg_file_search_topic = cli_file_search_topic cli, cfg_bootstrap_peers = cli_bootstrap_peers cli\<rparr>,
        ps_store = store, ps_commands_rx = rx, ps_commands_tx = tx,
        ps_max_active_downloads = cli_max_active_downloads cli\<rparr> #
      (case cli_grpc_port cli of None \<Rightarrow> []
       | Some port \<Rightarrow> [GrpcNode \<lparr>gs_port = port, gs_store = store, gs_command_sender = tx\<rparr>])"
proof -
  have "\<exists>u. init_base_dir fs (cli_base_path cli) = (Inr u, fs')"
    using assms by (auto simp: server_start_def Let_def split: sum.splits prod.splits)
  then have "node_at fs' (cli_base_path cli) = Some DirNode" using init_base_dir_Inr by blast
  then show ?thesis
    using assms
    by (auto simp: server_start_def p2p_config_def P2pService_new_def GrpcService_new_def Let_def
        with_bootstrap_peers_def with_keypair_file_def with_file_search_topic_def build_config_def P2pServiceConfig_builder_def
        P2pServiceConfigBuilder_new_def P2pServiceConfig_default_def
        split: sum.splits prod.splits option.splits)
qed

theorem started_services_witness:
  "\<exists>services fs'. server_start sample_db None (1, 1) (sample_fs Map.empty)
      ((Cli_default (Path True [''base'']))\<lparr>cli_grpc_port := Some 50051\<rparr>) = (Inr services, fs') \<and>
    length services = 2 \<and> node_at fs' (Path True [''base'']) = Some DirNode"
proof -
  have "\<exists>services fs'. server_start sample_db None (1, 1) (sample_fs Map.empty)
      ((Cli_default (Path True [''base'']))\<lparr>cli_grpc_port := Some 50051\<rparr>) = (Inr services, fs')"
    by (simp add: server_start_def init_base_dir_def fs_try_exists_def sample_fs_def node_at_def
        fs_create_dir_all_def path_prefixes_def is_file_node_def RocksDBStore_new_def sample_db_def
        Cli_default_def Let_def)
  then obtain services fs' where s: "server_start sample_db None (1, 1) (sample_fs Map.empty)
      ((Cli_default (Path True [''base'']))\<lparr>cli_grpc_port := Some 50051\<rparr>) = (Inr services, fs')" by blast
  from started_services [OF s] s show ?thesis by (auto simp: Cli_default_def)
qed

end
