(* ===== verification/Network.thy ===== *)
theory Network
  imports P2p_Events_Correct Download_Completion Grpc_Correct
begin

text \<open>
  Two nodes: what one has published reaches the other. The answers of the publisher are those of
  its event service (\<open>metadata_response\<close> and \<open>chunk_response\<close>); the network in between is the list
  of steps of the download, so replies may come in any order.
\<close>

section \<open>What comes over the network\<close>

text \<open>The reply that the event service of the downloader makes of a response with metadata.\<close>

definition metadata_reply :: "libs \<Rightarrow> FileResponse \<Rightarrow> FileMetadata option" where
  "metadata_reply L response =
     (case response of
        Success data \<Rightarrow> (case dec_metadata L data of Inr m \<Rightarrow> Some m | Inl e \<Rightarrow> None)
      | NotFound \<Rightarrow> None
      | Error e \<Rightarrow> None)"

lemma handle_metadata_reply:
  "handle_metadata_download_response L response channel n =
     send_oneshot channel (MetadataReply (metadata_reply L response)) n"
  by (simp add: handle_metadata_download_response_def metadata_reply_def split: FileResponse.split sum.split)

text \<open>A step of a download whose requests are all answered by one node.\<close>

fun served_by :: "(usize \<Rightarrow> FileResponse) \<Rightarrow> dl_step \<Rightarrow> bool" where
  "served_by serve (Ask i tx sent) \<longleftrightarrow> sent"
| "served_by serve (Answer i reply sent) \<longleftrightarrow> sent \<and> reply = Some (Some (serve i))"
| "served_by serve (Lost i e) \<longleftrightarrow> False"
| "served_by serve Join \<longleftrightarrow> True"

lemma served_honest:
  assumes "list_all (served_by serve) steps" "\<And>i. i < length cs \<Longrightarrow> serve i = Success (cs ! i)"
  shows "list_all (honest cs) steps"
proof -
  have "served_by serve st \<Longrightarrow> honest cs st" for st by (cases st) (auto simp: assms(2))
  with assms(1) show ?thesis by (auto simp: list_all_iff)
qed

section \<open>The publisher\<close>

text \<open>A node that has published a file answers both kinds of requests with it.\<close>

lemma publisher_serves:
  assumes "libs_ok L" "healthy fs0" "process_file M L fs0 rsize rfault file_path public = (Inr m, fs1)"
    and "fs_read fs0 (path_of_string file_path) = Inr content"
    and "file_publish E n (Inr m) = Some n'" "ev_store E = rocks_store L R" "ev_libs E = L"
    and "rocks_inv L R c (nd_store n)" "key = PublishedFileKey (metadata_key L m)"
    and "get_published_file (ev_store E) (nd_store n') key = Inr v"
  shows "metadata_reply L (metadata_response E fs1 (nd_store n') (u64_of_key key)) = Some m"
    and "i < length (chunks_of CHUNK_SIZE content) \<Longrightarrow>
      chunk_response E fs1 (nd_store n') \<lparr>creq_file_id = u64_of_key key, creq_chunk_id = i\<rparr> =
        Success (chunks_of CHUNK_SIZE content ! i)"
proof -
  have key: "key_of_u64 (u64_of_key key) = key" by (simp add: assms(9))
  have "v = Some (published_of_metadata L m)"
    by (rule file_publish_published [OF assms(5-8)]) (use assms(9,10) in simp)
  then have get: "get_published_file (ev_store E) (nd_store n') (key_of_u64 (u64_of_key key)) =
      Inr (Some (published_of_metadata (ev_libs E) m))"
    using assms(7,10) key by simp
  obtain b where b: "enc_metadata L m = Inr b" "fs_nodes fs1 (metadata_path (md_chunks_dir m)) = Some (FileNode b)"
    by (rule published_metadata_on_disk [OF assms(3,2)])
  have "metadata_response E fs1 (nd_store n') (u64_of_key key) = Success b"
    using get process_file_stays_healthy [OF assms(3,2)] b(2) by (simp add: metadata_response_def fs_read_healthy)
  then show "metadata_reply L (metadata_response E fs1 (nd_store n') (u64_of_key key)) = Some m"
    using libs_okD(1) [OF assms(1) b(1)] by (simp add: metadata_reply_def)
  show "chunk_response E fs1 (nd_store n') \<lparr>creq_file_id = u64_of_key key, creq_chunk_id = i\<rparr> =
      Success (chunks_of CHUNK_SIZE content ! i)" if "i < length (chunks_of CHUNK_SIZE content)"
    using published_chunk_response [OF _ assms(2) assms(3) [folded assms(7)] assms(4) get, of i]
      assms(1,7) that by simp
qed

section \<open>The downloader\<close>

lemma same_depth_prefix:
  "q \<in> set (path_prefixes p) \<Longrightarrow> length (components q) = length (components p) \<Longrightarrow> q = p"
  by (cases p) (auto simp: path_prefixes_def min_def split: if_splits)

lemma completed_file:
  assumes "restore_original_file L (dl_fs d) (dl_record d) = (Inr md, fs2)"
  shows "fst (snd (download_end L S (Inr True) d sender_open)) = fs2"
  using assms by (auto simp: download_end_def process_completed_def split: prod.split sum.split)

text \<open>A download that ends with \<open>true\<close> leaves the published file.\<close>

lemma published_file_arrives:
  assumes "process_file M L0 fs0 rsize rfault file_path public = (Inr m, fs1)"
    and "fs_read fs0 (path_of_string file_path) = Inr content"
    and "merkle_binding M (leaves_of M content) (md_merkle_root m)"
    and "no_second_preimage M (chunks_of CHUNK_SIZE content)"
    and "rocks_inv L R c s" "healthy fs"
    and "base = path_of_string (dreq_download_path request)" "node_at fs base = Some DirNode"
    and "fs_nodes fs (path_join_str base (md_original_file_name m @ ''.part'')) \<noteq> Some DirNode"
    and "download_file_answer L (rocks_store L R) s fs request (Some (Some m)) sent = (Inr (), s', fs', commands)"
    and "rocks_pending L c s' (PublishedFileKey (metadata_key L m)) = Some rec"
    and "download_start L s' fs' rec = Inr (md, d)"
    and "download_result md (dl_run M L (rocks_store L R) steps d) = Some (Inr True)"
  shows "fs_nodes (fst (snd (download_end L (rocks_store L R) (Inr True) (dl_run M L (rocks_store L R) steps d) sender_open)))
      (path_join_str base (md_original_file_name m)) = Some (FileNode content)"
proof -
  note acc = accepted_download [OF assms(5,6,10)]
  have rec: "rec = download_record L request m" using acc(2) assms(11) by simp
  have md: "md = m\<lparr>md_chunks_dir := pend_chunks_dir rec\<rparr>"
    using accepted_download_starts [OF assms(5,6,10)] assms(12) by (auto simp: rec)
  let ?dname = "get_chunks_dir_name_prefix m @ ''_chunks''" and ?name = "md_original_file_name m"
  have dir: "pend_chunks_dir rec = path_join_str base ?dname"
    by (simp add: rec download_dir_def assms(7))
  have plain: "plain_name ?name" "plain_name (?name @ ''.part'')"
    using published_length(4) [OF assms(1,2)] by (auto simp: plain_name_def)
  have dplain: "plain_name ?dname"
    unfolding get_chunks_dir_name_prefix_def by (rule plain_chunks_dir [OF plain(1)])
  have deep: "length (components (download_dir request m)) = Suc (length (components base))"
    using dir dplain by (simp add: rec path_join_components_length)
  have other: "fs_nodes fs' q = fs_nodes fs q"
    if q: "q = path_join_str base x" "plain_name x" "length x \<noteq> length ?name + 7" for q x
  proof (rule acc(6))
    have "length (components q) = length (components (download_dir request m))"
      using q deep by (simp add: path_join_components_length)
    moreover have "q \<noteq> download_dir request m"
    proof
      assume "q = download_dir request m"
      then have "x = ?dname" using dir q dplain by (simp add: rec path_join_plain_inject)
      with q(3) show False by (simp add: get_chunks_dir_name_prefix_def)
    qed
    ultimately show "q \<notin> set (path_prefixes (download_dir request m))" using same_depth_prefix by metis
    show "q \<noteq> metadata_path (download_dir request m)"
      by (rule depth_neq) (use q deep in \<open>simp add: path_join_components_length\<close>)
  qed
  have b: "node_at fs' base = Some DirNode"
  proof -
    have "base \<noteq> metadata_path (download_dir request m)"
      by (rule depth_neq) (simp add: path_join_components_length deep)
    then show ?thesis using acc(7) [of base] assms(8) by (auto simp: node_at_def split: if_splits)
  qed
  have "\<exists>fs2. restore_original_file L (dl_fs (dl_run M L (rocks_store L R) steps d))
        (dl_record (dl_run M L (rocks_store L R) steps d)) = (Inr (m\<lparr>md_chunks_dir := pend_chunks_dir rec\<rparr>), fs2) \<and>
      fs_nodes fs2 (path_join_str base ?name) = Some (FileNode content)"
  proof (rule download_restores [OF assms(1-4) assms(12) [unfolded md] _ dir dplain acc(4) b _ _ assms(13) [unfolded md]])
    have "fs_nodes fs' (path_join_str base ?name) = fs_nodes fs (path_join_str base ?name)"
      by (rule other [OF refl plain(1)]) simp
    moreover have "node_at fs (path_join_str base ?name) = None" using acc(8) assms(7) by simp
    ultimately show "fs_nodes fs' (path_join_str base ?name) = None"
      by (auto simp: node_at_def split: if_splits)
    have "fs_nodes fs' (path_join_str base (?name @ ''.part'')) = fs_nodes fs (path_join_str base (?name @ ''.part''))"
      by (rule other [OF refl plain(2)]) simp
    with assms(9) show "fs_nodes fs' (path_join_str base (?name @ ''.part'')) \<noteq> Some DirNode" by simp
  qed (simp add: rec)
  then show ?thesis using completed_file by fastforce
qed

lemma accepted_dir:
  assumes "download_file_answer L S s fs request (Some (Some m)) sent = (Inr u, s', fs', commands)"
  shows "node_at fs' (download_dir request m) = Some DirNode"
proof -
  from assms obtain fs1 v where e: "ensure_dir_exists_or_create fs (download_dir request m) = (Inr v, fs1)"
    and sm: "save_metadata L fs1 (m\<lparr>md_chunks_dir := download_dir request m\<rparr>) =
      (Inr (m\<lparr>md_chunks_dir := download_dir request m\<rparr>), fs')"
    by (auto elim!: download_answer_Inr)
  have "download_dir request m \<noteq> metadata_path (download_dir request m)" by (simp add: child_neq_dir)
  then have "fs_nodes fs' (download_dir request m) = fs_nodes fs1 (download_dir request m)"
    using save_metadata_Inr(2) [OF sm] by simp
  then show ?thesis using ensure_dir_effect(3) [OF e] by (simp add: node_at_def split: if_splits)
qed

text \<open>A download whose requests one publisher answers ends with \<open>true\<close>.\<close>

lemma fed_download_completes:
  assumes "process_file M L0 fs0 rsize rfault file_path public = (Inr m, fs1)"
    and "fs_read fs0 (path_of_string file_path) = Inr content"
    and "merkle_binding M (leaves_of M content) (md_merkle_root m)"
    and "no_second_preimage M (chunks_of CHUNK_SIZE content)"
    and "merkle_complete M (leaves_of M content)"
    and "rocks_inv L R c s" "healthy fs"
    and "download_file_answer L (rocks_store L R) s fs request (Some (Some m)) sent = (Inr (), s', fs', commands)"
    and "rec = download_record L request m" "download_start L s' fs' rec = Inr (md, d)"
    and "\<And>i. fs_nodes fs' (chunk_path (pend_chunks_dir rec) i FILE_CHUNK_EXTENSION) \<noteq> Some DirNode"
    and "list_all (honest (chunks_of CHUNK_SIZE content)) steps"
    and "download_result md (dl_run M L S steps d) \<noteq> None"
  shows "download_result md (dl_run M L S steps d) = Some (Inr True)"
proof -
  have md: "md = m\<lparr>md_chunks_dir := pend_chunks_dir rec\<rparr>"
    using accepted_download_starts [OF assms(6-8)] assms(10) by (auto simp: assms(9))
  have same: "download_result md (dl_run M L S steps d) = download_result m (dl_run M L S steps d)"
    by (simp add: md download_result_def split: option.split)
  have w: "dir_writable fs' (pend_chunks_dir rec) FILE_CHUNK_EXTENSION"
    using accepted_download(4) [OF assms(6-8)] accepted_dir [OF assms(8)] assms(11)
    by (simp add: dir_writable_def assms(9))
  have "counts_only fs' m (chunks_of CHUNK_SIZE content) rec" by (simp add: assms(9))
  from honest_completes [OF assms(1-5) assms(10) [unfolded md] this w assms(12)] assms(13)
  show ?thesis by (simp add: same)
qed

section \<open>A client that can be served\<close>

text \<open>
  What a download needs on the client's disk: it is healthy, the directory is there, nothing has
  the name of the file, and no file stands in the way of the directory of chunks, nor a
  directory in the way of a file.
\<close>

definition room_for :: "filesys \<Rightarrow> DownloadFileRequest \<Rightarrow> FileMetadata \<Rightarrow> bool" where
  "room_for fs request m \<longleftrightarrow>
     (let base = path_of_string (dreq_download_path request); dir = download_dir request m in
      healthy fs \<and> node_at fs base = Some DirNode \<and>
      node_at fs (path_join_str base (md_original_file_name m)) = None \<and>
      fs_nodes fs (path_join_str base (md_original_file_name m @ ''.part'')) \<noteq> Some DirNode \<and>
      (\<forall>q \<in> set (path_prefixes dir). \<not> is_file_node (fs_nodes fs q)) \<and>
      fs_nodes fs (metadata_path dir) \<noteq> Some DirNode \<and>
      (\<forall>i. fs_nodes fs (chunk_path dir i FILE_CHUNK_EXTENSION) \<noteq> Some DirNode))"

lemma room_forD:
  assumes "room_for fs request m"
  shows "healthy fs" "node_at fs (path_of_string (dreq_download_path request)) = Some DirNode"
    and "node_at fs (path_join_str (path_of_string (dreq_download_path request)) (md_original_file_name m)) = None"
    and "fs_nodes fs (path_join_str (path_of_string (dreq_download_path request)) (md_original_file_name m @ ''.part''))
      \<noteq> Some DirNode"
    and "q \<in> set (path_prefixes (download_dir request m)) \<Longrightarrow> \<not> is_file_node (fs_nodes fs q)"
    and "fs_nodes fs (metadata_path (download_dir request m)) \<noteq> Some DirNode"
    and "fs_nodes fs (chunk_path (download_dir request m) i FILE_CHUNK_EXTENSION) \<noteq> Some DirNode"
  using assms by (auto simp: room_for_def Let_def)

lemma ensure_dir_succeeds:
  assumes "healthy fs" "\<And>q. q \<in> set (path_prefixes p) \<Longrightarrow> \<not> is_file_node (fs_nodes fs q)"
  shows "fst (ensure_dir_exists_or_create fs p) = Inr ()"
proof -
  have nf: "node_at fs p \<noteq> Some (FileNode b)" for b
    using assms(2) [OF path_in_prefixes [of p]] by (auto simp: node_at_def is_file_node_def)
  show ?thesis
  proof (cases "node_at fs p")
    case None
    have "\<not> list_ex (\<lambda>q. is_file_node (fs_nodes fs q)) (path_prefixes p)"
      using assms(2) by (auto simp: list_ex_iff)
    with None assms(1) show ?thesis
      by (simp add: ensure_dir_exists_or_create_def fs_try_exists_def fs_create_dir_all_def healthy_def is_file_node_def)
  next
    case (Some nd)
    then have "nd = DirNode" using nf by (cases nd) auto
    with Some assms(1) show ?thesis
      by (simp add: ensure_dir_exists_or_create_def fs_try_exists_def fs_metadata_def healthy_def)
  qed
qed

lemma child_not_prefix: "length (components q) = Suc (length (components p)) \<Longrightarrow> q \<notin> set (path_prefixes p)"
  using path_prefixes_length [of q p] by auto

lemma room_for_accepts:
  assumes "room_for fs request m"
    and "enc_metadata L (m\<lparr>md_chunks_dir := download_dir request m\<rparr>) = Inr b"
    and "put_pending_download S s (download_record L request m) = (Inr (), s')"
  shows "\<exists>fs' commands. download_file_answer L S s fs request (Some (Some m)) True = (Inr (), s', fs', commands)"
proof -
  note room = room_forD [OF assms(1)]
  let ?dir = "download_dir request m"
  have t: "fs_try_exists fs (path_join_str (path_of_string (dreq_download_path request)) (md_original_file_name m)) = Inr False"
    using room(1,3) by (simp add: fs_try_exists_def healthy_def)
  have "fst (ensure_dir_exists_or_create fs ?dir) = Inr ()" by (rule ensure_dir_succeeds [OF room(1,5)])
  then obtain fs1 where e: "ensure_dir_exists_or_create fs ?dir = (Inr (), fs1)" by (metis prod.collapse)
  note eff = ensure_dir_effect [OF e]
  have "metadata_path ?dir \<notin> set (path_prefixes ?dir)"
    by (rule child_not_prefix) (simp add: path_join_components_length)
  then have "\<exists>fs'. save_metadata L fs1 (m\<lparr>md_chunks_dir := ?dir\<rparr>) = (Inr (m\<lparr>md_chunks_dir := ?dir\<rparr>), fs')"
    using save_metadata_healthy [OF _ assms(2), of fs1] eff(1,3) eff(2) [of "metadata_path ?dir"] room(1,6) by simp
  then obtain fs' where sm: "save_metadata L fs1 (m\<lparr>md_chunks_dir := ?dir\<rparr>) = (Inr (m\<lparr>md_chunks_dir := ?dir\<rparr>), fs')" ..
  show ?thesis
    using t e sm assms(3)
    by (simp add: download_file_answer_def Let_def download_dir_def download_record_def)
qed

lemma room_for_chunks:
  assumes "rocks_inv L R c s" "room_for fs request m"
    and "download_file_answer L (rocks_store L R) s fs request (Some (Some m)) sent = (Inr u, s', fs', commands)"
  shows "fs_nodes fs' (chunk_path (download_dir request m) i FILE_CHUNK_EXTENSION) \<noteq> Some DirNode"
proof -
  let ?dir = "download_dir request m" and ?q = "chunk_path (download_dir request m) i FILE_CHUNK_EXTENSION"
  have "?q \<notin> set (path_prefixes ?dir)" by (rule child_not_prefix) (simp add: components_chunk_path)
  moreover have "?q \<noteq> metadata_path ?dir" by (simp add: chunk_neq_metadata_path FILE_CHUNK_EXTENSION_def)
  ultimately have "fs_nodes fs' ?q = fs_nodes fs ?q"
    using accepted_download(6) [OF assms(1) room_forD(1) [OF assms(2)] assms(3)] by blast
  with room_forD(7) [OF assms(2)] show ?thesis by simp
qed

section \<open>Every run can be brought to its end\<close>

lemma dl_run_append: "dl_run M L S (steps @ rest) d = dl_run M L S rest (dl_run M L S steps d)"
  by (simp add: dl_run_def)

lemma served_run_can_end:
  "\<exists>rest. list_all (served_by serve) rest \<and> download_result md (dl_run M L S rest d) \<noteq> None"
proof (induction "dl_work d" arbitrary: d rule: less_induct)
  case less
  show ?case
  proof (cases "download_result md d")
    case None
    then have "dl_waiting d \<noteq> [] \<or> dl_asked d \<noteq> [] \<or> dl_finished d \<noteq> []"
      by (auto simp: download_result_def)
    then consider i where "i \<in> set (dl_waiting d)" | i where "i \<in> set (dl_asked d)" | "dl_finished d \<noteq> []"
      by (metis list.set_intros(1) neq_Nil_conv)
    then obtain st where st: "served_by serve st" "dl_exec M L S st d \<noteq> d"
    proof cases
      case (1 i)
      have "dl_waiting (dl_exec M L S (Ask i undefined True) d) \<noteq> dl_waiting d"
        using 1 remove1_work [of i "dl_waiting d"] by (auto simp: ask_file_chunk_def)
      then show ?thesis using that [of "Ask i undefined True"] by (metis served_by.simps(1))
    next
      case (2 i)
      have "dl_asked (dl_exec M L S (Answer i (Some (Some (serve i))) True) d) \<noteq> dl_asked d"
        using 2 remove1_work [of i "dl_asked d"] by (auto split: prod.split)
      then show ?thesis using that [of "Answer i (Some (Some (serve i))) True"] by (metis served_by.simps(2))
    next
      case 3
      then obtain r rs where "dl_finished d = r # rs" by (cases "dl_finished d") auto
      then have "dl_finished (dl_exec M L S Join d) \<noteq> dl_finished d" by (simp add: join_chunk_record)
      then show ?thesis using that [of Join] by (metis served_by.simps(4))
    qed
    have "dl_work (dl_exec M L S st d) < dl_work d" using dl_exec_work [of M L S st d] st(2) by blast
    from less [OF this] obtain rest where "list_all (served_by serve) rest"
      "download_result md (dl_run M L S rest (dl_exec M L S st d)) \<noteq> None" by blast
    then show ?thesis using st(1) by (intro exI [of _ "st # rest"]) simp
  qed (auto intro: exI [of _ "[]"])
qed

end
