(* ===== verification/Sample_Network.thy ===== *)
theory Sample_Network
  imports Network Grpc_Props Sample_Node
begin

text \<open>
  The sample file on its way between two nodes, used only to evaluate the theorems at an input: a
  node that publishes it, and one that accepts its download and runs the three steps of its only
  subtask.
\<close>

abbreviation net_S :: "trees Store" where
  "net_S \<equiv> rocks_store grpc_libs sample_db"

definition net_env :: "(toy_swarm, trees) env" where
  "net_env = (toy_env 9)\<lparr>ev_store := net_S, ev_libs := grpc_libs\<rparr>"

definition net_key :: PublishedFileKey where
  "net_key = PublishedFileKey (metadata_key grpc_libs sample_metadata)"

abbreviation net_record :: PendingDownloadRecord where
  "net_record \<equiv> download_record grpc_libs grpc_request sample_metadata"

lemma net_base: "Path True [] = path_of_string (dreq_download_path grpc_request)"
  by (simp add: grpc_request_def grpc_root)

lemma net_publication:
  obtains fs1 where "process_file dl_M grpc_libs sample_disk (\<lambda>_ _. 2) (\<lambda>_. None) ''/f'' True =
    (Inr sample_metadata, fs1)"
  by (rule sample_publication_with [of grpc_libs]) (simp add: grpc_libs_def)

lemma retry_once: "attempt a = (Inr u, b) \<Longrightarrow> retry attempt a = Some b"
  by (subst retry.simps) simp

lemma net_published:
  obtains n' where "file_publish net_env (toy_node sample_trees) (Inr sample_metadata) = Some n'"
    "get_published_file (ev_store net_env) (nd_store n') net_key = Inr (Some (published_of_pending grpc_record True))"
proof -
  let ?pub = "published_of_pending grpc_record True"
  have pub: "published_of_metadata grpc_libs sample_metadata = ?pub"
    using grpc_key by (simp add: published_of_metadata_def published_of_pending_def)
       (simp add: sample_metadata_def expected_metadata_def grpc_record_def PendingDownloadRecord_new_def)
  have codec: "enc_published grpc_libs ?pub = Inr [2]" "dec_published grpc_libs [2] = Inr ?pub"
    by (simp_all add: grpc_libs_def sample_libs_def)
  let ?s1 = "sample_trees(PUBLISHED_FILES_COLUMN_FAMILY_NAME := RBT.insert (key_bytes (pub_key ?pub)) [2] RBT.empty)"
  have add: "add_published_file net_env sample_trees sample_metadata = Some ?s1"
    unfolding add_published_file_def
    by (rule retry_once [where u = "()"])
       (simp add: net_env_def pub rocks_store_def rocks_put_def published_entry_def get_cf_def codec sample_trees_def)
  have "\<exists>w. provide_all net_env (nd_swarm (toy_node sample_trees)) sample_metadata = (Inr (), w)"
    by (simp add: net_env_def provide_all_def provide_metadata_def provide_file_chunk_def toy_ops_def
        toy_node_def Let_def grpc_libs_def sample_libs_def)
  then obtain w where w: "retry (\<lambda>w. provide_all net_env w sample_metadata) (nd_swarm (toy_node sample_trees)) = Some w"
    using retry_once [of "\<lambda>w. provide_all net_env w sample_metadata"] by blast
  let ?s2 = "?s1(FILE_METADATA_COLUMN_FAMILY_NAME := RBT.delete (metadata_key grpc_libs sample_metadata) RBT.empty)"
  have del: "delete_published_job net_env ?s1 (metadata_key grpc_libs sample_metadata) = Some ?s2"
    unfolding delete_published_job_def
    by (rule retry_once [where u = "()"])
       (simp add: net_env_def rocks_store_def rocks_delete_def get_cf_def sample_trees_def)
  show ?thesis
  proof (rule that)
    show "file_publish net_env (toy_node sample_trees) (Inr sample_metadata) =
        Some ((toy_node sample_trees)\<lparr>nd_swarm := w, nd_store := ?s2\<rparr>)"
      using w add del by (simp add: file_publish_def net_env_def)
    have "pub_key ?pub = net_key" using grpc_key by (simp add: net_key_def)
    then show "get_published_file (ev_store net_env)
        (nd_store ((toy_node sample_trees)\<lparr>nd_swarm := w, nd_store := ?s2\<rparr>)) net_key = Inr (Some ?pub)"
      by (simp add: net_env_def rocks_store_def rocks_get_def get_cf_def codec)
  qed
qed

lemma net_download:
  obtains s' fs' commands d where
    "download_file_answer grpc_libs net_S sample_trees (sample_fs Map.empty) grpc_request
      (Some (Some sample_metadata)) True = (Inr (), s', fs', commands)"
    "rocks_pending grpc_libs sample_contents s' (PublishedFileKey (metadata_key grpc_libs sample_metadata)) =
      Some net_record"
    "download_start grpc_libs s' fs' net_record = Inr (sample_metadata, d)"
    "download_result sample_metadata (dl_run dl_M grpc_libs net_S dl_steps d) = Some (Inr True)"
proof -
  let ?fs = "sample_fs Map.empty"
  obtain s' fs' commands where a: "download_file_answer grpc_libs net_S sample_trees ?fs grpc_request
      (Some (Some sample_metadata)) True = (Inr (), s', fs', commands)" by (rule grpc_accepted)
  note acc = accepted_download [OF grpc_store_inv healthy_sample_fs a]
  obtain d where d: "download_start grpc_libs s' fs' net_record = Inr (sample_metadata, d)" "dl_waiting d = [0]"
    using accepted_download_starts [OF grpc_store_inv healthy_sample_fs a] by (auto simp: grpc_dir)
  note start = download_start_Inr [OF d(1)]
  obtain b where b: "fs_nodes fs' (metadata_path dl_dir) = Some (FileNode b)" "dec_metadata grpc_libs b = Inr sample_metadata"
    using acc(5) by (auto simp: grpc_dir)
  have w: "dir_writable fs' dl_dir (md_chunk_file_extension sample_metadata)"
    using grpc_writable [OF a] by simp
  have "\<exists>fs2 cmds. receive_file_chunk dl_M grpc_libs fs' (chunk_of_record net_record 0)
      (Some (Some (Success [1, 2, 3]))) True = (Some (Inr (Some 0)), fs2, cmds)"
    by (rule honest_receive [OF b w _ dl_proofs, where dfc = "chunk_of_record net_record 0"])
       (simp_all add: chunk_of_record_def grpc_dir)
  then obtain fs2 cmds where rc: "receive_file_chunk dl_M grpc_libs fs' (chunk_of_record net_record 0)
      (Some (Some (Success [1, 2, 3]))) True = (Some (Inr (Some 0)), fs2, cmds)" by blast
  have "download_result sample_metadata (dl_run dl_M grpc_libs net_S dl_steps d) = Some (Inr True)"
    by (rule one_chunk_run [OF d(2) start(7,8,5) _ rc [folded start(1,3)]]) (simp_all add: start(1))
  moreover have "rocks_pending grpc_libs sample_contents s' (PublishedFileKey (metadata_key grpc_libs sample_metadata)) =
      Some net_record" using acc(2) by simp
  ultimately show ?thesis using that a d(1) by blast
qed

end
