(* ===== verification/Node_Downloads.thy ===== *)
theory Node_Downloads
  imports Download_Service Grpc_Correct
begin

text \<open>
  The downloads of a node as its clients and its service drive them together: a step is a step of
  the download service (\<open>Download_Service\<close>) or the acceptance of a download that a client has asked
  for (\<open>download_file_answer\<close> of \<open>Grpc_Api\<close>), on one store and one disk. The invariant says what the
  records in the store are worth: every chunk that a record counts is on the disk.
\<close>

section \<open>Steps\<close>

datatype downloads_step =
  Serve service_step
| Accept DownloadFileRequest "FileMetadata option option" bool

fun downloads_exec :: "'p merkle \<Rightarrow> libs \<Rightarrow> 's Store \<Rightarrow> downloads_step \<Rightarrow> 's downloads \<Rightarrow> 's downloads" where
  "downloads_exec M L S (Serve st) ds = service_exec M L S st ds"
| "downloads_exec M L S (Accept request reply sent) ds =
     (case download_file_answer L S (ds_store ds) (ds_fs ds) request reply sent of
        (r, s', fs', commands) \<Rightarrow>
          ds\<lparr>ds_store := s', ds_fs := fs', ds_sent := ds_sent ds @ commands\<rparr>)"

definition downloads_run :: "'p merkle \<Rightarrow> libs \<Rightarrow> 's Store \<Rightarrow> downloads_step list \<Rightarrow> 's downloads \<Rightarrow> 's downloads" where
  "downloads_run M L S steps ds = fold (downloads_exec M L S) steps ds"

lemma downloads_run_simps [simp]:
  "downloads_run M L S [] ds = ds"
  "downloads_run M L S (st # steps) ds = downloads_run M L S steps (downloads_exec M L S st ds)"
  by (simp_all add: downloads_run_def)

section \<open>The files of a node\<close>

text \<open>
  A plan names, for each key, the metadata of the file and its chunks. Every file has a directory
  of its own, and no directory of chunks is the download directory of another file.
\<close>

type_synonym plan = "PublishedFileKey \<rightharpoonup> FileMetadata \<times> bytes list"

definition plan_ok :: "'p merkle \<Rightarrow> plan \<Rightarrow> bool" where
  "plan_ok M plan \<longleftrightarrow>
     (\<forall>k m cs. plan k = Some (m, cs) \<longrightarrow>
        describes M m cs \<and> length (md_merkle_proofs m) = length cs \<and>
        plain_name (md_original_file_name m) \<and>
        (\<exists>base. path_parent (md_chunks_dir m) = Some base \<and>
           (\<forall>k' m' cs'. plan k' = Some (m', cs') \<longrightarrow> base \<noteq> md_chunks_dir m'))) \<and>
     (\<forall>k m cs k' m' cs'. plan k = Some (m, cs) \<longrightarrow> plan k' = Some (m', cs') \<longrightarrow>
        md_chunks_dir m = md_chunks_dir m' \<longrightarrow> k = k')"

lemma plan_okD:
  assumes "plan_ok M plan" "plan k = Some (m, cs)"
  shows "describes M m cs" "length (md_merkle_proofs m) = length cs" "plain_name (md_original_file_name m)"
    and "\<exists>base. path_parent (md_chunks_dir m) = Some base \<and>
      (\<forall>k' m' cs'. plan k' = Some (m', cs') \<longrightarrow> base \<noteq> md_chunks_dir m')"
    and "plan k' = Some (m', cs') \<Longrightarrow> k' \<noteq> k \<Longrightarrow> md_chunks_dir m' \<noteq> md_chunks_dir m"
  using assms unfolding plan_ok_def by blast+

text \<open>What is on the disk.\<close>

definition has_metadata :: "libs \<Rightarrow> filesys \<Rightarrow> FileMetadata \<Rightarrow> bool" where
  "has_metadata L fs m \<longleftrightarrow>
     (\<exists>b. fs_nodes fs (metadata_path (md_chunks_dir m)) = Some (FileNode b) \<and> dec_metadata L b = Inr m)"

definition has_chunk :: "filesys \<Rightarrow> FileMetadata \<Rightarrow> bytes list \<Rightarrow> usize \<Rightarrow> bool" where
  "has_chunk fs m cs i \<longleftrightarrow> i < length cs \<and>
     fs_nodes fs (chunk_path (md_chunks_dir m) i (md_chunk_file_extension m)) = Some (FileNode (cs ! i))"

definition recorded :: "libs \<Rightarrow> plan \<Rightarrow> filesys \<Rightarrow> PendingDownloadRecord \<Rightarrow> bool" where
  "recorded L plan fs rec \<longleftrightarrow> (\<exists>m cs. plan (pend_key rec) = Some (m, cs) \<and>
     pend_chunks_dir rec = md_chunks_dir m \<and> has_metadata L fs m \<and>
     (\<forall>i. i |\<in>| pend_downloaded_chunks rec \<longrightarrow> has_chunk fs m cs i))"

definition all_chunks :: "plan \<Rightarrow> filesys \<Rightarrow> PublishedFileKey \<Rightarrow> bool" where
  "all_chunks plan fs k \<longleftrightarrow> (\<forall>m cs. plan k = Some (m, cs) \<longrightarrow> (\<forall>i < length cs. has_chunk fs m cs i))"

text \<open>
  \<open>holds_files\<close>: every chunk that a pending record counts is on the disk with the contents of the
  file, and of a file that is published, and no longer pending, every chunk is.
\<close>

definition holds_files :: "libs \<Rightarrow> plan \<Rightarrow> (PublishedFileKey \<rightharpoonup> PendingDownloadRecord)
    \<Rightarrow> (PublishedFileKey \<rightharpoonup> PublishedFileRecord) \<Rightarrow> filesys \<Rightarrow> bool" where
  "holds_files L plan pending published fs \<longleftrightarrow>
     (\<forall>k rec. pending k = Some rec \<longrightarrow> recorded L plan fs rec) \<and>
     (\<forall>k. k \<in> dom published \<and> pending k = None \<longrightarrow> all_chunks plan fs k)"

text \<open>
  The steps in question. A tick visits a record as the store has it, unless the file is active
  anyway. An accepted file is part of the plan and not known yet, and no write to its metadata
  file stops halfway, since \<open>save_metadata\<close> may not notice.
\<close>

fun admissible :: "libs \<Rightarrow> ('s \<Rightarrow> PublishedFileKey \<rightharpoonup> PendingDownloadRecord)
    \<Rightarrow> ('s \<Rightarrow> PublishedFileKey \<rightharpoonup> PublishedFileRecord) \<Rightarrow> plan \<Rightarrow> downloads_step \<Rightarrow> 's downloads \<Rightarrow> bool" where
  "admissible L pending published plan (Serve (Visit (Inr rec))) ds \<longleftrightarrow>
     pend_key rec |\<in>| fds_active (ds_service ds) \<or> pending (ds_store ds) (pend_key rec) = Some rec"
| "admissible L pending published plan (Accept request (Some (Some m)) sent) ds \<longleftrightarrow>
     (let key = PublishedFileKey (metadata_key L m); dir = download_dir request m in
      ds_tasks ds key = None \<and> pending (ds_store ds) key = None \<and> published (ds_store ds) key = None \<and>
      (\<exists>cs. plan key = Some (m\<lparr>md_chunks_dir := dir\<rparr>, cs)) \<and>
      (\<forall>b nodes. fs_short (ds_fs ds) (metadata_path dir) b nodes = None))"
| "admissible L pending published plan st ds \<longleftrightarrow> True"

fun admissible_run :: "'p merkle \<Rightarrow> libs \<Rightarrow> 's Store \<Rightarrow> ('s \<Rightarrow> PublishedFileKey \<rightharpoonup> PendingDownloadRecord)
    \<Rightarrow> ('s \<Rightarrow> PublishedFileKey \<rightharpoonup> PublishedFileRecord) \<Rightarrow> plan \<Rightarrow> downloads_step list \<Rightarrow> 's downloads \<Rightarrow> bool" where
  "admissible_run M L S pending published plan [] ds \<longleftrightarrow> True"
| "admissible_run M L S pending published plan (st # steps) ds \<longleftrightarrow>
     admissible L pending published plan st ds \<and>
     admissible_run M L S pending published plan steps (downloads_exec M L S st ds)"

section \<open>What changes on the disk\<close>

text \<open>A file's own directory is what counts for it, and files there only.\<close>

definition keeps_dir :: "path \<Rightarrow> filesys \<Rightarrow> filesys \<Rightarrow> bool" where
  "keeps_dir dir fs fs' \<longleftrightarrow> (\<forall>q b. path_parent q = Some dir \<longrightarrow>
     fs_nodes fs q = Some (FileNode b) \<longrightarrow> fs_nodes fs' q = Some (FileNode b))"

lemma keeps_dir_refl [simp]: "keeps_dir dir fs fs"
  by (simp add: keeps_dir_def)

lemma keeps_dir_nodes: "(\<And>q. path_parent q = Some dir \<Longrightarrow> fs_nodes fs' q = fs_nodes fs q) \<Longrightarrow> keeps_dir dir fs fs'"
  by (simp add: keeps_dir_def)

lemma metadata_in_dir: "path_parent (metadata_path dir) = Some dir"
  by (simp add: METADATA_FILE_NAME_def path_parent_join_plain plain_name_def)

lemma chunk_in_dir: "CHR ''/'' \<notin> set ext \<Longrightarrow> path_parent (chunk_path dir i ext) = Some dir"
  by (simp add: chunk_path_def path_parent_join_plain plain_chunk_file_name)

lemma has_metadata_mono: "has_metadata L fs m \<Longrightarrow> keeps_dir (md_chunks_dir m) fs fs' \<Longrightarrow> has_metadata L fs' m"
  unfolding has_metadata_def keeps_dir_def using metadata_in_dir by blast

lemma has_chunk_mono:
  assumes "has_chunk fs m cs i" "keeps_dir (md_chunks_dir m) fs fs'" "CHR ''/'' \<notin> set (md_chunk_file_extension m)"
  shows "has_chunk fs' m cs i"
  using assms(1,2) chunk_in_dir [OF assms(3)] unfolding has_chunk_def keeps_dir_def by blast

lemma describes_ext: "describes M m cs \<Longrightarrow> CHR ''/'' \<notin> set (md_chunk_file_extension m)"
  by (simp add: describes_def)

lemma append_chunks_frame:
  "append_chunks fs dir tmp_path ext is = (r, fs') \<Longrightarrow> q \<noteq> tmp_path \<Longrightarrow> fs_nodes fs' q = fs_nodes fs q"
proof (induction fs dir tmp_path ext "is" rule: append_chunks.induct)
  case (2 fs dir tmp_path ext i "is")
  show ?case
  proof (cases "fs_read fs (chunk_path dir i ext)")
    case (Inr b)
    obtain x fs1 where a: "fs_append fs tmp_path b = (x, fs1)" by fastforce
    note f = fs_append_frame(1) [OF a "2.prems"(2)]
    show ?thesis
    proof (cases x)
      case (Inr u)
      then show ?thesis using "2.IH" [OF \<open>fs_read fs (chunk_path dir i ext) = Inr b\<close> a [symmetric] Inr] "2.prems" \<open>fs_read fs (chunk_path dir i ext) = Inr b\<close> a f by simp
    qed (use "2.prems" \<open>fs_read fs (chunk_path dir i ext) = Inr b\<close> a f in simp)
  qed (use "2.prems" in simp)
qed simp

lemma restore_frame:
  assumes "restore_original_file L fs rec = (r, fs')"
    and "fs_nodes fs (metadata_path (pend_chunks_dir rec)) = Some (FileNode b)" "dec_metadata L b = Inr m"
    and "path_parent (md_chunks_dir m) = Some base"
    and "q \<noteq> path_join_str base (md_original_file_name m)"
    and "q \<noteq> path_join_str base (md_original_file_name m @ ''.part'')"
  shows "fs_nodes fs' q = fs_nodes fs q"
proof -
  let ?file = "path_join_str base (md_original_file_name m)"
  let ?tmp = "path_join_str base (md_original_file_name m @ ''.part'')"
  obtain x fs1 where x: "fs_create fs ?tmp = (x, fs1)" by fastforce
  obtain y fs2 where y: "append_chunks fs1 (md_chunks_dir m) ?tmp (md_chunk_file_extension m)
      [0..<md_total_chunks m] = (y, fs2)" by fastforce
  obtain z fs3 where z: "fs_rename fs2 ?tmp ?file = (z, fs3)" by fastforce
  have "fs' \<in> {fs, fs1, fs2, fs3}"
  proof (cases "fs_read fs (metadata_path (pend_chunks_dir rec))")
    case (Inr b')
    with assms(2) have "b' = b" using fs_read_Inr by fastforce
    then show ?thesis
      using assms(1) Inr x y z
      by (auto simp: restore_original_file_def Let_def assms(3,4) split: sum.splits bool.splits fs_node.splits)
  qed (use assms(1) in \<open>simp add: restore_original_file_def\<close>)
  moreover have f1: "fs_nodes fs1 q = fs_nodes fs q"
    using x assms(6) by (cases rule: fs_create_cases [of fs ?tmp]) auto
  moreover have f2: "fs_nodes fs2 q = fs_nodes fs1 q"
    by (rule append_chunks_frame [OF y assms(6)])
  moreover have "fs_nodes fs3 q = fs_nodes fs2 q"
    using z assms(5,6) by (auto simp: fs_rename_def split: option.splits fs_node.splits if_splits)
  ultimately show ?thesis by auto
qed

lemma save_metadata_frame:
  assumes "save_metadata L fs m = (r, fs')" "q \<noteq> metadata_path (md_chunks_dir m)"
  shows "fs_nodes fs' q = fs_nodes fs q"
  using assms
  by (cases rule: fs_create_cases [of fs "metadata_path (md_chunks_dir m)"])
     (auto simp: save_metadata_def save_blocking_def Let_def fs_append_def
       split: option.splits sum.splits if_splits)

lemma save_metadata_whole:
  assumes "save_metadata L fs m = (Inr m', fs')" "libs_ok L"
    and "\<And>b nodes. fs_short fs (metadata_path (md_chunks_dir m)) b nodes = None"
  shows "has_metadata L fs' m"
  using assms(1,3) libs_okD(1) [OF assms(2)]
  by (cases rule: fs_create_cases [of fs "metadata_path (md_chunks_dir m)"])
     (auto simp: has_metadata_def save_metadata_def save_blocking_def Let_def fs_append_def file_bytes_def
       split: option.splits sum.splits)

section \<open>The invariant\<close>

text \<open>
  One file: its pending record is truthful, the record of its task counts at least what the stored
  one does, there is no task without a pending record, and a file that is published and no longer
  pending is complete.
\<close>

fun task_ok :: "libs \<Rightarrow> plan \<Rightarrow> filesys \<Rightarrow> PublishedFileKey \<Rightarrow> PendingDownloadRecord \<Rightarrow> 's task \<Rightarrow> bool" where
  "task_ok L plan fs k r (Spawned rec) \<longleftrightarrow> pend_key rec = k \<and> recorded L plan fs rec \<and>
     pend_downloaded_chunks r |\<subseteq>| pend_downloaded_chunks rec"
| "task_ok L plan fs k r (Running m d) \<longleftrightarrow> pend_key (dl_record d) = k \<and>
     pend_downloaded_chunks r |\<subseteq>| pend_downloaded_chunks (dl_record d) \<and>
     (\<exists>cs. plan k = Some (m, cs) \<and> pend_chunks_dir (dl_record d) = md_chunks_dir m \<and>
        truthful L m cs (d\<lparr>dl_fs := fs\<rparr>) \<and> bookkeeping (length cs) d)"

definition file_ok :: "libs \<Rightarrow> plan \<Rightarrow> filesys \<Rightarrow> PublishedFileKey \<Rightarrow> 's task option
    \<Rightarrow> PendingDownloadRecord option \<Rightarrow> bool \<Rightarrow> bool" where
  "file_ok L plan fs k t pend pub \<longleftrightarrow>
     (case pend of
        None \<Rightarrow> t = None \<and> (pub \<longrightarrow> all_chunks plan fs k)
      | Some r \<Rightarrow> pend_key r = k \<and> recorded L plan fs r \<and>
          (case t of None \<Rightarrow> True | Some t \<Rightarrow> task_ok L plan fs k r t))"

lemma truthful_iff:
  assumes "pend_chunks_dir (dl_record d) = md_chunks_dir m"
  shows "truthful L m cs (d\<lparr>dl_fs := fs\<rparr>) \<longleftrightarrow> has_metadata L fs m \<and>
    (\<forall>i. i |\<in>| pend_downloaded_chunks (dl_record d) \<or> i \<in> set (landed (dl_finished d)) \<longrightarrow> has_chunk fs m cs i)"
  by (simp add: truthful_def has_metadata_def has_chunk_def assms)

lemma recorded_mono:
  assumes "recorded L plan fs rec" "plan_ok M plan"
    and "\<And>m cs. plan (pend_key rec) = Some (m, cs) \<Longrightarrow> keeps_dir (md_chunks_dir m) fs fs'"
  shows "recorded L plan fs' rec"
proof -
  obtain m cs where p: "plan (pend_key rec) = Some (m, cs)" "pend_chunks_dir rec = md_chunks_dir m"
    and h: "has_metadata L fs m" "\<And>i. i |\<in>| pend_downloaded_chunks rec \<Longrightarrow> has_chunk fs m cs i"
    using assms(1) unfolding recorded_def by blast
  note k = assms(3) [OF p(1)] and ext = describes_ext [OF plan_okD(1) [OF assms(2) p(1)]]
  show ?thesis
    unfolding recorded_def using p has_metadata_mono [OF h(1) k] has_chunk_mono [OF h(2) k ext] by blast
qed

lemma all_chunks_mono:
  assumes "all_chunks plan fs k" "plan_ok M plan"
    and "\<And>m cs. plan k = Some (m, cs) \<Longrightarrow> keeps_dir (md_chunks_dir m) fs fs'"
  shows "all_chunks plan fs' k"
  unfolding all_chunks_def
proof (intro allI impI)
  fix m cs i assume p: "plan k = Some (m, cs)" and i: "i < length cs"
  have "has_chunk fs m cs i" using assms(1) p i unfolding all_chunks_def by blast
  then show "has_chunk fs' m cs i"
    by (rule has_chunk_mono [OF _ assms(3) [OF p] describes_ext [OF plan_okD(1) [OF assms(2) p]]])
qed

lemma task_ok_mono:
  assumes "task_ok L plan fs k r t" "plan_ok M plan"
    and "\<And>m cs. plan k = Some (m, cs) \<Longrightarrow> keeps_dir (md_chunks_dir m) fs fs'"
  shows "task_ok L plan fs' k r t"
proof (cases t)
  case (Spawned rec)
  then show ?thesis using assms recorded_mono [of L plan fs rec M fs'] by auto
next
  case (Running m d)
  then obtain cs where p: "plan k = Some (m, cs)" "pend_chunks_dir (dl_record d) = md_chunks_dir m"
    and t: "truthful L m cs (d\<lparr>dl_fs := fs\<rparr>)" and rest: "bookkeeping (length cs) d"
      "pend_key (dl_record d) = k" "pend_downloaded_chunks r |\<subseteq>| pend_downloaded_chunks (dl_record d)"
    using assms(1) by auto
  note k = assms(3) [OF p(1)] and ext = describes_ext [OF plan_okD(1) [OF assms(2) p(1)]]
  have "truthful L m cs (d\<lparr>dl_fs := fs'\<rparr>)"
    using t has_metadata_mono [OF _ k] has_chunk_mono [OF _ k ext] unfolding truthful_iff [OF p(2)] by blast
  with p rest Running show ?thesis by auto
qed

lemma file_ok_mono:
  assumes "file_ok L plan fs k t pend pub" "plan_ok M plan"
    and "\<And>m cs. plan k = Some (m, cs) \<Longrightarrow> keeps_dir (md_chunks_dir m) fs fs'"
  shows "file_ok L plan fs' k t pend pub"
proof (cases pend)
  case None
  then show ?thesis using assms all_chunks_mono [OF _ assms(2,3)] by (auto simp: file_ok_def)
next
  case (Some r)
  have "recorded L plan fs' r"
    by (rule recorded_mono [OF _ assms(2)]) (use assms(1,3) Some in \<open>auto simp: file_ok_def\<close>)
  then show ?thesis
    using assms(1) Some task_ok_mono [OF _ assms(2,3)] by (auto simp: file_ok_def split: option.splits)
qed

definition files_ok :: "libs \<Rightarrow> ('s \<Rightarrow> PublishedFileKey \<rightharpoonup> PendingDownloadRecord)
    \<Rightarrow> ('s \<Rightarrow> PublishedFileKey \<rightharpoonup> PublishedFileRecord) \<Rightarrow> plan \<Rightarrow> 's downloads \<Rightarrow> bool" where
  "files_ok L pending published plan ds \<longleftrightarrow>
     (\<forall>k. file_ok L plan (ds_fs ds) k (ds_tasks ds k) (pending (ds_store ds) k)
        (published (ds_store ds) k \<noteq> None))"

lemma files_okD: "files_ok L pending published plan ds \<Longrightarrow>
  file_ok L plan (ds_fs ds) k (ds_tasks ds k) (pending (ds_store ds) k) (published (ds_store ds) k \<noteq> None)"
  by (simp add: files_ok_def)

text \<open>A step that concerns one file leaves the others what they were.\<close>

lemma files_ok_step:
  assumes "files_ok L pending published plan ds" "plan_ok M plan"
    and "file_ok L plan (ds_fs ds') key (ds_tasks ds' key) (pending (ds_store ds') key)
      (published (ds_store ds') key \<noteq> None)"
    and "\<And>k. k \<noteq> key \<Longrightarrow> ds_tasks ds' k = ds_tasks ds k \<and> pending (ds_store ds') k = pending (ds_store ds) k \<and>
      published (ds_store ds') k = published (ds_store ds) k"
    and "\<And>k m cs. k \<noteq> key \<Longrightarrow> plan k = Some (m, cs) \<Longrightarrow> keeps_dir (md_chunks_dir m) (ds_fs ds) (ds_fs ds')"
  shows "files_ok L pending published plan ds'"
  unfolding files_ok_def
proof
  fix k
  show "file_ok L plan (ds_fs ds') k (ds_tasks ds' k) (pending (ds_store ds') k) (published (ds_store ds') k \<noteq> None)"
  proof (cases "k = key")
    case False
    have "file_ok L plan (ds_fs ds') k (ds_tasks ds k) (pending (ds_store ds) k) (published (ds_store ds) k \<noteq> None)"
      by (rule file_ok_mono [OF files_okD [OF assms(1)] assms(2) assms(5) [OF False]])
    with assms(4) [OF False] show ?thesis by simp
  qed (use assms(3) in simp)
qed

end
