(* ===== verification/Node_Downloads_Correct.thy ===== *)
theory Node_Downloads_Correct
  imports Node_Downloads
begin

text \<open>
  Every step of the downloads of a node keeps \<open>files_ok\<close>: one lemma for each kind of step, through
  any store that keeps the contract.
\<close>

section \<open>One file\<close>

lemma download_self_fs [simp]: "d\<lparr>dl_fs := dl_fs d\<rparr> = (d :: 's download)"
  by (cases d) simp

text \<open>A task can only start with the metadata of the plan, and starts well.\<close>

lemma start_ok:
  assumes "recorded L plan fs rec" "plan_ok M plan" "download_start L s fs rec = Inr (m, d)"
    and "pend_downloaded_chunks r |\<subseteq>| pend_downloaded_chunks rec"
  shows "task_ok L plan fs (pend_key rec) r (Running m d)"
proof -
  obtain m' cs where p: "plan (pend_key rec) = Some (m', cs)" "pend_chunks_dir rec = md_chunks_dir m'"
    "has_metadata L fs m'" "\<And>i. i |\<in>| pend_downloaded_chunks rec \<Longrightarrow> has_chunk fs m' cs i"
    using assms(1) unfolding recorded_def by blast
  note d = download_start_Inr [OF assms(3)]
  have m: "m' = m" using d(9) p(3) unfolding has_metadata_def p(2) by auto
  have co: "counts_only fs m cs rec" using p(2,4) by (auto simp: counts_only_def has_chunk_def m)
  have "bookkeeping (length cs) d"
    by (rule bookkeeping_start [OF assms(3) co]) (use plan_okD(2) [OF assms(2) p(1)] m in simp)
  moreover have "truthful L m cs (d\<lparr>dl_fs := fs\<rparr>)"
    using truthful_start [OF assms(3) co] by (simp add: d(3) [symmetric])
  ultimately show ?thesis using p(1,2) m assms(4) d(1) by simp
qed

text \<open>A step of a subtask writes into the directory of its own file only.\<close>

lemma subtask_keeps_dir:
  assumes "truthful L m cs d" "describes M m cs" "dir \<noteq> pend_chunks_dir (dl_record d)"
  shows "keeps_dir dir (dl_fs d) (dl_fs (dl_exec M L S st d))"
proof (rule keeps_dir_nodes)
  fix q assume q: "path_parent q = Some dir"
  have "q \<noteq> chunk_path (pend_chunks_dir (dl_record d)) i (md_chunk_file_extension m)" for i
    using q assms(3) chunk_in_dir [OF describes_ext [OF assms(2)]] by auto
  then show "fs_nodes (dl_fs (dl_exec M L S st d)) q = fs_nodes (dl_fs d) q"
    by (intro dl_exec_fs(1) [OF assms(1,2)])
qed

text \<open>Putting a file together touches no directory of chunks.\<close>

lemma restore_keeps_dir:
  assumes "restore_original_file L fs rec = (r, fs')" "recorded L plan fs rec" "plan_ok M plan"
    and "plan k = Some (m', cs')"
  shows "keeps_dir (md_chunks_dir m') fs fs'"
proof -
  obtain m cs where p: "plan (pend_key rec) = Some (m, cs)" "pend_chunks_dir rec = md_chunks_dir m"
    "has_metadata L fs m" using assms(2) unfolding recorded_def by blast
  obtain b where b: "fs_nodes fs (metadata_path (pend_chunks_dir rec)) = Some (FileNode b)" "dec_metadata L b = Inr m"
    using p(2,3) unfolding has_metadata_def by auto
  obtain base where base: "path_parent (md_chunks_dir m) = Some base" "base \<noteq> md_chunks_dir m'"
    using plan_okD(4) [OF assms(3) p(1)] assms(4) by blast
  have plain: "plain_name (md_original_file_name m)" "plain_name (md_original_file_name m @ ''.part'')"
    using plan_okD(3) [OF assms(3) p(1)] by (auto simp: plain_name_def)
  show ?thesis
  proof (rule keeps_dir_nodes)
    fix q assume "path_parent q = Some (md_chunks_dir m')"
    then have "q \<noteq> path_join_str base (md_original_file_name m)"
      "q \<noteq> path_join_str base (md_original_file_name m @ ''.part'')"
      using base(2) plain by (auto simp: path_parent_join_plain)
    then show "fs_nodes fs' q = fs_nodes fs q" by (rule restore_frame [OF assms(1) b base(1)])
  qed
qed

lemma running_recorded:
  assumes "task_ok L plan fs k r (Running m d)"
  shows "recorded L plan fs (dl_record d)"
proof -
  obtain cs where "pend_key (dl_record d) = k" "plan k = Some (m, cs)"
    and dir: "pend_chunks_dir (dl_record d) = md_chunks_dir m" and t: "truthful L m cs (d\<lparr>dl_fs := fs\<rparr>)"
    using assms by auto
  then show ?thesis unfolding recorded_def truthful_iff [OF dir] by blast
qed

lemma running_complete:
  assumes "task_ok L plan fs k r (Running m d)" "plan_ok M plan" "download_result m d = Some (Inr True)"
  shows "all_chunks plan fs k"
proof -
  obtain cs where p: "plan k = Some (m, cs)" and dir: "pend_chunks_dir (dl_record d) = md_chunks_dir m"
    and t: "truthful L m cs (d\<lparr>dl_fs := fs\<rparr>)" and bk: "bookkeeping (length cs) d"
    using assms(1) by auto
  have "fset (pend_downloaded_chunks (dl_record d)) = {..<length cs}"
    by (rule result_True [OF bk assms(3) plan_okD(2) [OF assms(2) p]])
  then have "has_chunk fs m cs i" if "i < length cs" for i
    using t that unfolding truthful_iff [OF dir] by auto
  then show ?thesis by (simp add: all_chunks_def p)
qed

section \<open>An acceptance\<close>

lemma ensure_dir_short:
  assumes "ensure_dir_exists_or_create fs p = (r, fs')"
  shows "fs_short fs' = fs_short fs"
  using assms fs_create_dir_all_frame(2) [of fs p r fs']
  by (auto simp: ensure_dir_exists_or_create_def split: sum.splits bool.splits fs_node.splits)

text \<open>How far an acceptance gets; the record is stored after everything else.\<close>

lemma download_answer_cases:
  fixes request m L
  defines "meta \<equiv> m\<lparr>md_chunks_dir := download_dir request m\<rparr>"
  assumes "download_file_answer L S s fs request (Some (Some m)) sent = (r, s', fs', commands)"
  obtains (refused) "s' = s" "fs' = fs"
  | (no_dir) x where "ensure_dir_exists_or_create fs (download_dir request m) = (x, fs')" "s' = s"
  | (no_record) u fs1 x where "ensure_dir_exists_or_create fs (download_dir request m) = (Inr u, fs1)"
      "save_metadata L fs1 meta = (x, fs')" "s' = s"
  | (put) u fs1 m' y where "ensure_dir_exists_or_create fs (download_dir request m) = (Inr u, fs1)"
      "save_metadata L fs1 meta = (Inr m', fs')"
      "put_pending_download S s (download_record L request m) = (y, s')"
proof -
  obtain x fs1 where e: "ensure_dir_exists_or_create fs (download_dir request m) = (x, fs1)" by fastforce
  obtain y fs2 where sm: "save_metadata L fs1 meta = (y, fs2)" by fastforce
  obtain z s1 where put: "put_pending_download S s (download_record L request m) = (z, s1)" by fastforce
  note defs = e [unfolded download_dir_def] sm [unfolded meta_def download_dir_def]
    put [unfolded download_record_def download_dir_def]
  have "(s' = s \<and> fs' = fs) \<or> (s' = s \<and> fs' = fs1) \<or> (\<exists>u. x = Inr u) \<and> s' = s \<and> fs' = fs2 \<or>
    (\<exists>u. x = Inr u) \<and> (\<exists>m'. y = Inr m') \<and> s' = s1 \<and> fs' = fs2"
    using assms(2) defs
    by (auto simp: download_file_answer_def Let_def split: sum.splits bool.splits if_splits)
  then show ?thesis
    using e sm put refused no_dir no_record [of _ fs1 y] put by (elim disjE conjE exE) (simp_all add: that)
qed

lemma ensure_dir_keeps_dir:
  "ensure_dir_exists_or_create fs p = (r, fs') \<Longrightarrow> keeps_dir dir fs fs'"
  unfolding keeps_dir_def using ensure_dir_effect(4) by blast

lemma save_metadata_keeps_dir:
  assumes "save_metadata L fs m = (r, fs')" "dir \<noteq> md_chunks_dir m"
  shows "keeps_dir dir fs fs'"
proof (rule keeps_dir_nodes)
  fix q assume "path_parent q = Some dir"
  then have "q \<noteq> metadata_path (md_chunks_dir m)" using assms(2) metadata_in_dir by auto
  with save_metadata_frame [OF assms(1)] show "fs_nodes fs' q = fs_nodes fs q" by simp
qed

lemma keeps_dir_trans: "keeps_dir dir fs fs1 \<Longrightarrow> keeps_dir dir fs1 fs2 \<Longrightarrow> keeps_dir dir fs fs2"
  by (simp add: keeps_dir_def)

section \<open>The steps\<close>

lemma truthful_world [simp]:
  "truthful L m cs (d\<lparr>dl_store := s, dl_fs := fs, dl_sent := x\<rparr>) = truthful L m cs (d\<lparr>dl_fs := fs\<rparr>)"
  "bookkeeping n (d\<lparr>dl_store := s, dl_fs := fs, dl_sent := x\<rparr>) = bookkeeping n d"
  by (simp_all add: truthful_def bookkeeping_def busy_def)

context store_contract
begin

lemma dl_exec_pending_dom:
  assumes "inv (dl_store d)"
  shows "dom (pending (dl_store d)) \<subseteq> dom (pending (dl_store (dl_exec M L' S st d)))"
proof (rule dl_exec_store, goal_cases)
  case (1 r rest)
  have inv: "inv (dl_store (d\<lparr>dl_finished := rest\<rparr>))" using assms by simp
  show ?case
  proof (cases rule: join_chunk_cases [of S r "d\<lparr>dl_finished := rest\<rparr>"])
    case (stored x)
    from pending.put_dom [OF inv stored] show ?thesis by simp
  qed simp
qed simp

lemma visit_keeps_files:
  assumes "files_ok L' pending published plan ds" "plan_ok M plan"
    and "admissible L' pending published plan (Serve (Visit item)) ds"
  shows "files_ok L' pending published plan (service_exec M L' S (Visit item) ds)"
proof -
  obtain active spawned where v: "work_on_stream (\<lambda>_. (fds_permits (ds_service ds), {||})) 0
      (fds_active (ds_service ds)) [item] = (active, spawned)" by fastforce
  then show ?thesis
  proof (cases rule: visit_cases)
    case nothing
    with v assms(1) show ?thesis by (simp add: files_ok_def)
  next
    case (spawn rec)
    have "pending (ds_store ds) (pend_key rec) = Some rec" using assms(3) spawn(1,2) by simp
    with files_okD [OF assms(1), of "pend_key rec"]
    have "file_ok L' plan (ds_fs ds) (pend_key rec) (Some (Spawned rec)) (pending (ds_store ds) (pend_key rec))
        (published (ds_store ds) (pend_key rec) \<noteq> None)"
      by (simp add: file_ok_def)
    with v show ?thesis
      by (intro files_ok_step [OF assms(1,2), where key = "pend_key rec"]) (simp_all add: spawn(4,5))
  qed
qed

lemma task_end_keeps_files:
  assumes "files_ok L' pending published plan ds" "plan_ok M plan" "pending (ds_store ds) key \<noteq> None"
  shows "files_ok L' pending published plan (task_end key ds)"
  using files_okD [OF assms(1), of key] assms(3)
  by (intro files_ok_step [OF assms(1,2), where key = key])
     (auto simp: task_end_def file_ok_def split: option.splits)

lemma start_keeps_files:
  assumes "files_ok L' pending published plan ds" "plan_ok M plan"
  shows "files_ok L' pending published plan (service_exec M L' S (Start key) ds)"
proof (cases "\<exists>rec. ds_tasks ds key = Some (Spawned rec)")
  case True
  then obtain rec where t: "ds_tasks ds key = Some (Spawned rec)" by blast
  obtain r where r: "pending (ds_store ds) key = Some r"
    using files_okD [OF assms(1), of key] t by (auto simp: file_ok_def split: option.splits)
  have ok: "pend_key r = key" "recorded L' plan (ds_fs ds) r" "task_ok L' plan (ds_fs ds) key r (Spawned rec)"
    using files_okD [OF assms(1), of key] t r by (simp_all add: file_ok_def)
  show ?thesis
  proof (cases "download_start L' (ds_store ds) (ds_fs ds) rec")
    case (Inl e)
    then show ?thesis using t task_end_keeps_files [OF assms] r by simp
  next
    case (Inr x)
    obtain m d where x: "x = (m, d)" by fastforce
    have "task_ok L' plan (ds_fs ds) (pend_key rec) r (Running m d)"
      by (rule start_ok [OF _ assms(2) Inr [unfolded x]]) (use ok(3) in simp_all)
    then have "file_ok L' plan (ds_fs ds) key (Some (Running m d)) (pending (ds_store ds) key)
        (published (ds_store ds) key \<noteq> None)"
      using ok r by (simp add: file_ok_def)
    then show ?thesis
      using t Inr x by (intro files_ok_step [OF assms, where key = key]) simp_all
  qed
next
  case False
  then have "service_exec M L' S (Start key) ds = ds"
    by (auto split: option.split task.split)
  with assms(1) show ?thesis by simp
qed

lemma subtask_keeps_files:
  assumes "files_ok L' pending published plan ds" "plan_ok M plan" "inv (ds_store ds)"
  shows "files_ok L' pending published plan (service_exec M L' S (Subtask key st) ds)"
proof (cases "(\<exists>m d. ds_tasks ds key = Some (Running m d)) \<and> \<not> (acquires st \<and> fds_permits (ds_service ds) = 0)")
  case True
  then obtain m d where t: "ds_tasks ds key = Some (Running m d)"
    and go: "\<not> (acquires st \<and> fds_permits (ds_service ds) = 0)" by blast
  let ?d = "d\<lparr>dl_store := ds_store ds, dl_fs := ds_fs ds, dl_sent := []\<rparr>"
  let ?d' = "dl_exec M L' S st ?d"
  obtain r where r: "pending (ds_store ds) key = Some r"
    using files_okD [OF assms(1), of key] t by (auto simp: file_ok_def split: option.splits)
  have ok: "recorded L' plan (ds_fs ds) r" "pend_key r = key" "task_ok L' plan (ds_fs ds) key r (Running m d)"
    using files_okD [OF assms(1), of key] t r by (simp_all add: file_ok_def)
  obtain cs where p: "plan key = Some (m, cs)" and dir: "pend_chunks_dir (dl_record d) = md_chunks_dir m"
    and tr: "truthful L' m cs (d\<lparr>dl_fs := ds_fs ds\<rparr>)" and bk: "bookkeeping (length cs) d"
    and k: "pend_key (dl_record d) = key" "pend_downloaded_chunks r |\<subseteq>| pend_downloaded_chunks (dl_record d)"
    using ok(3) by auto
  note desc = plan_okD(1) [OF assms(2) p]
  have "pend_chunks_dir r = md_chunks_dir m" using ok(1,2) p by (auto simp: recorded_def)
  then have "stored_behind inv pending ?d" using assms(3) r k dir by (simp add: stored_behind_def)
  note st' = stored_behind_exec [OF this, of M L' st]
  have tr': "truthful L' m cs ?d'" by (rule truthful_exec [OF _ desc]) (use tr bk in simp_all)
  have bk': "bookkeeping (length cs) ?d'" by (rule bookkeeping_exec) (use bk in simp)
  have "pending (dl_store ?d') key \<noteq> None"
    using dl_exec_pending_dom [of ?d M L' st] assms(3) r by (auto simp: dom_def)
  then obtain r' where r': "pending (dl_store ?d') key = Some r'" by blast
  have behind: "pend_chunks_dir r' = md_chunks_dir m"
    "pend_downloaded_chunks r' |\<subseteq>| pend_downloaded_chunks (dl_record ?d')" and inv': "inv (dl_store ?d')"
    using st' r' k(1) dir by (simp_all add: stored_behind_def)
  have key': "pend_key r' = key" by (rule pending.lookup_key [OF inv' r'])
  have run: "task_ok L' plan (dl_fs ?d') key r' (Running m ?d')"
    using p dir tr' bk' k(1) behind(2) by simp
  have "recorded L' plan (dl_fs ?d') r'"
    using running_recorded [OF run] behind p key' k(1) dir unfolding recorded_def by auto
  then have "file_ok L' plan (dl_fs ?d') key (Some (Running m ?d')) (pending (dl_store ?d') key)
      (published (dl_store ?d') key \<noteq> None)"
    using r' key' run by (simp add: file_ok_def)
  moreover have "keeps_dir (md_chunks_dir m') (ds_fs ds) (dl_fs ?d')" if "k' \<noteq> key" "plan k' = Some (m', cs')" for k' m' cs'
    using subtask_keeps_dir [of L' m cs ?d M "md_chunks_dir m'" S st] tr desc dir plan_okD(5) [OF assms(2) p that(2,1)]
    by simp
  ultimately show ?thesis
    using t go st' k(1) by (intro files_ok_step [OF assms(1,2), where key = key]) (auto simp: Let_def)
next
  case False
  then have "service_exec M L' S (Subtask key st) ds = ds"
    by (cases "ds_tasks ds key"; cases "the (ds_tasks ds key)") auto
  with assms(1) show ?thesis by simp
qed

lemma finish_keeps_files:
  assumes "files_ok L' pending published plan ds" "plan_ok M plan" "inv (ds_store ds)"
  shows "files_ok L' pending published plan (service_exec M L' S (Finish key sender_open) ds)"
proof (cases "\<exists>m d res. ds_tasks ds key = Some (Running m d) \<and> download_result m d = Some res")
  case True
  then obtain m d res where t: "ds_tasks ds key = Some (Running m d)" and res: "download_result m d = Some res" by blast
  let ?d = "d\<lparr>dl_store := ds_store ds, dl_fs := ds_fs ds\<rparr>"
  obtain s' fs' cmds where e: "download_end L' S res ?d sender_open = (s', fs', cmds)" by (metis prod_cases3)
  let ?ds = "ds\<lparr>ds_store := s', ds_fs := fs', ds_sent := ds_sent ds @ cmds\<rparr>"
  have run: "service_exec M L' S (Finish key sender_open) ds = task_end key ?ds" using t res e by simp
  obtain r where r: "pending (ds_store ds) key = Some r"
    using files_okD [OF assms(1), of key] t by (auto simp: file_ok_def split: option.splits)
  have ok: "recorded L' plan (ds_fs ds) r" "pend_key r = key" "task_ok L' plan (ds_fs ds) key r (Running m d)"
    using files_okD [OF assms(1), of key] t r by (simp_all add: file_ok_def)
  show ?thesis
  proof (cases "res = Inr True")
    case False
    then have "s' = ds_store ds" "fs' = ds_fs ds"
      using e by (auto simp: download_end_def split: sum.splits bool.splits)
    moreover from this have "files_ok L' pending published plan ?ds" using assms(1) by (simp add: files_ok_def)
    ultimately show ?thesis unfolding run using r by (intro task_end_keeps_files [OF _ assms(2)]) simp_all
  next
    case completed: True
    obtain x where pc: "process_completed L' S (ds_store ds) (ds_fs ds) (dl_record d) sender_open = (x, s', fs', cmds)"
      using e completed by (auto simp: download_end_def prod_eq_iff)
    note st = process_completed_store [OF pc assms(3)]
    have key: "pend_key (dl_record d) = key" using ok(3) by simp
    obtain y where "restore_original_file L' (ds_fs ds) (dl_record d) = (y, fs')"
      using pc by (cases rule: process_completed_cases) auto
    note dirs = restore_keeps_dir [OF this running_recorded [OF ok(3)] assms(2)]
    have all: "all_chunks plan fs' key"
      by (rule all_chunks_mono [OF running_complete [OF ok(3) assms(2)] assms(2) dirs])
         (simp_all add: res completed)
    have rec: "recorded L' plan fs' r" by (rule recorded_mono [OF ok(1) assms(2) dirs])
    have "file_ok L' plan fs' key None (pending s' key) (published s' key \<noteq> None)"
      using st(7) r all rec ok(2) by (auto simp: file_ok_def key split: option.splits)
    then show ?thesis
      unfolding run
      using st(3) by (intro files_ok_step [OF assms(1,2), where key = key]) (auto simp: task_end_def key dirs)
  qed
next
  case False
  then have "service_exec M L' S (Finish key sender_open) ds = ds"
    by (cases "ds_tasks ds key"; cases "the (ds_tasks ds key)") auto
  with assms(1) show ?thesis by simp
qed

lemma accept_keeps_files:
  assumes "files_ok L' pending published plan ds" "plan_ok M plan" "inv (ds_store ds)" "libs_ok L'"
    and "admissible L' pending published plan (Accept request (Some (Some m)) sent) ds"
  shows "files_ok L' pending published plan (downloads_exec M' L' S (Accept request (Some (Some m)) sent) ds)"
proof -
  let ?key = "PublishedFileKey (metadata_key L' m)" and ?dir = "download_dir request m"
  let ?m = "m\<lparr>md_chunks_dir := ?dir\<rparr>"
  obtain r s' fs' cmds where a: "download_file_answer L' S (ds_store ds) (ds_fs ds) request (Some (Some m)) sent =
      (r, s', fs', cmds)" by (metis prod_cases4)
  have free: "ds_tasks ds ?key = None" "pending (ds_store ds) ?key = None" "published (ds_store ds) ?key = None"
    and short: "\<And>b nodes. fs_short (ds_fs ds) (metadata_path ?dir) b nodes = None"
    using assms(5) by (simp_all add: Let_def)
  obtain cs where p: "plan ?key = Some (?m, cs)" using assms(5) by (auto simp: Let_def)
  have dirs: "keeps_dir (md_chunks_dir m') fs1 fs2"
    if "k \<noteq> ?key" "plan k = Some (m', cs')" "save_metadata L' fs1 ?m = (x, fs2)" for k m' cs' fs1 fs2 x
    by (rule save_metadata_keeps_dir [OF that(3)]) (use plan_okD(5) [OF assms(2) p that(2,1)] in simp)
  have step: ?thesis
    if "file_ok L' plan fs' ?key (ds_tasks ds ?key) (pending s' ?key) (published s' ?key \<noteq> None)"
      "\<And>k. k \<noteq> ?key \<Longrightarrow> pending s' k = pending (ds_store ds) k \<and> published s' k = published (ds_store ds) k"
      "\<And>k m' cs'. k \<noteq> ?key \<Longrightarrow> plan k = Some (m', cs') \<Longrightarrow> keeps_dir (md_chunks_dir m') (ds_fs ds) fs'"
    by (rule files_ok_step [OF assms(1,2), where key = ?key]) (use a that free in simp_all)
  have unknown: "file_ok L' plan fs' ?key (ds_tasks ds ?key) (pending s' ?key) (published s' ?key \<noteq> None)" if "s' = ds_store ds"
    using free that by (simp add: file_ok_def)
  from a show ?thesis
  proof (cases rule: download_answer_cases)
    case refused
    then show ?thesis by (intro step unknown) simp_all
  next
    case (no_dir x)
    then show ?thesis by (intro step unknown) (simp_all add: ensure_dir_keeps_dir)
  next
    case (no_record u fs1 x)
    then show ?thesis
      by (intro step unknown)
         (simp_all add: keeps_dir_trans [OF ensure_dir_keeps_dir [OF no_record(1)] dirs [OF _ _ no_record(2)]])
  next
    case (put u fs1 m' y)
    have m': "m' = ?m" using save_metadata_Inr(1) [OF put(2)] by simp
    have meta: "has_metadata L' fs' ?m"
      by (rule save_metadata_whole [OF put(2) assms(4)]) (simp add: ensure_dir_short [OF put(1)] short)
    have rec: "recorded L' plan fs' (download_record L' request m)"
      using p meta by (simp add: recorded_def)
    have "pending s' = pending (ds_store ds) \<or> pending s' = (pending (ds_store ds))(?key \<mapsto> download_record L' request m)"
      using pending.put_ok [OF assms(3), of "download_record L' request m"]
        pending.put_err [OF assms(3), of "download_record L' request m"] put(3) by (cases y) simp_all
    moreover have "published s' = published (ds_store ds)" using pending_put_frame [OF assms(3) put(3)] by simp
    ultimately show ?thesis
      using free rec
      by (intro step keeps_dir_trans [OF ensure_dir_keeps_dir [OF put(1)] dirs [OF _ _ put(2)]])
         (auto simp: file_ok_def)
  qed
qed

lemma accept_inv:
  assumes "inv (ds_store ds)"
  shows "inv (ds_store (downloads_exec M' L' S (Accept request reply sent) ds))"
proof (cases "\<exists>m. reply = Some (Some m)")
  case True
  then obtain m where m: "reply = Some (Some m)" by blast
  obtain r s' fs' cmds where a: "download_file_answer L' S (ds_store ds) (ds_fs ds) request (Some (Some m)) sent =
      (r, s', fs', cmds)" by (metis prod_cases4)
  then have "inv s'"
    by (cases rule: download_answer_cases) (use assms pending.put_inv [OF assms] in auto)
  with a m show ?thesis by simp
next
  case False
  then have "reply = None \<or> reply = Some None" by (cases reply; cases "the reply") auto
  with assms show ?thesis by (auto simp: download_file_answer_def Let_def)
qed

lemma downloads_exec_keeps_files:
  assumes "files_ok L' pending published plan ds" "plan_ok M' plan" "inv (ds_store ds)" "libs_ok L'"
    and "admissible L' pending published plan st ds"
  shows "files_ok L' pending published plan (downloads_exec M' L' S st ds)"
    and "inv (ds_store (downloads_exec M' L' S st ds))"
proof -
  have "files_ok L' pending published plan (downloads_exec M' L' S st ds) \<and>
    inv (ds_store (downloads_exec M' L' S st ds))"
  proof (cases st)
    case (Serve sst)
    have "inv (ds_store (service_exec M' L' S sst ds))"
      using service_exec_keeps [OF assms(3), of M' L' sst] by (simp add: keeps_records_def)
    moreover have "files_ok L' pending published plan (service_exec M' L' S sst ds)"
      using assms(5) Serve
      by (cases sst)
        (simp_all only: visit_keeps_files [OF assms(1,2)] start_keeps_files [OF assms(1,2)]
          subtask_keeps_files [OF assms(1-3)] finish_keeps_files [OF assms(1-3)])
    ultimately show ?thesis using Serve by simp
  next
    case (Accept request reply sent)
    show ?thesis
    proof (cases "\<exists>m. reply = Some (Some m)")
      case True
      then show ?thesis
        using accept_keeps_files [OF assms(1-4)] accept_inv [OF assms(3)] assms(5) Accept by auto
    next
      case False
      then have "reply = None \<or> reply = Some None" by (cases reply; cases "the reply") auto
      then show ?thesis
        using assms(1,3) Accept by (auto simp: download_file_answer_def Let_def files_ok_def)
    qed
  qed
  then show "files_ok L' pending published plan (downloads_exec M' L' S st ds)"
    "inv (ds_store (downloads_exec M' L' S st ds))" by simp_all
qed

lemma downloads_run_keeps_files:
  assumes "files_ok L' pending published plan ds" "plan_ok M' plan" "inv (ds_store ds)" "libs_ok L'"
    and "admissible_run M' L' S pending published plan steps ds"
  shows "files_ok L' pending published plan (downloads_run M' L' S steps ds)"
  using assms(1,3,5)
proof (induction steps arbitrary: ds)
  case (Cons st steps)
  note step = downloads_exec_keeps_files [OF Cons.prems(1) assms(2) Cons.prems(2) assms(4)]
  show ?case using Cons.IH [OF step] Cons.prems(3) by simp
qed simp

end

text \<open>At the start there is no task, and in every state the invariant says what the records are worth.\<close>

lemma files_ok_start:
  assumes "holds_files L plan (pending s) (published s) fs"
    and "\<And>k rec. pending s k = Some rec \<Longrightarrow> pend_key rec = k"
  shows "files_ok L pending published plan (service_start n s fs)"
  using assms
  by (auto simp: files_ok_def file_ok_def holds_files_def service_start_def split: option.split)

lemma files_ok_holds:
  assumes "files_ok L pending published plan ds"
  shows "holds_files L plan (pending (ds_store ds)) (published (ds_store ds)) (ds_fs ds)"
  unfolding holds_files_def
  using files_okD [OF assms] by (fastforce simp: file_ok_def split: option.splits)

end
