(* ===== verification/Node_Downloads_Props.thy ===== *)
theory Node_Downloads_Props
  imports Node_Downloads_Correct Grpc_Props
begin

text \<open>
  The properties of the downloads of a node as a whole: what its records are worth, and the one
  schedule under which a completed download comes back.
\<close>

section \<open>Records and the disk\<close>






section \<open>A tick that is late\<close>

text \<open>
  Claim C32. The stream of a tick shows the records as they were when it was opened. When it comes to
  the record of a download that has completed meanwhile, the download starts again, and as soon as
  one chunk arrives the completed file is among the pending downloads again.
\<close>

theorem late_visit_restarts_download:
  assumes "rocks_inv L R c (ds_store ds)"
    and "pend_key rec |\<notin>| fds_active (ds_service ds)" "0 < fds_permits (ds_service ds)"
    and "rocks_pending L c (ds_store ds) (pend_key rec) = None"
    and "rocks_published L c (ds_store ds) (pend_key rec) \<noteq> None"
    and "download_start L (ds_store ds) (ds_fs ds) rec = Inr (m, d)" "i \<in> set (missing_chunks m rec)"
    and "receive_file_chunk M L (ds_fs ds) (chunk_of_record rec i) reply True = (Some (Inr (Some i)), fs', commands)"
    and "put_pending_download (rocks_store L R) (ds_store ds)
      (rec\<lparr>pend_downloaded_chunks := finsert i (pend_downloaded_chunks rec)\<rparr>) = (Inr (), s')"
    and "ds' = service_run M L (rocks_store L R)
      [Visit (Inr rec), Start (pend_key rec), Subtask (pend_key rec) (Ask i tx True),
       Subtask (pend_key rec) (Answer i reply True), Subtask (pend_key rec) Join] ds"
  shows "pend_key rec \<in> dom (rocks_pending L c (ds_store ds')) \<inter> dom (rocks_published L c (ds_store ds'))"
proof -
  note d = download_start_Inr [OF assms(6)]
  have new: "i |\<notin>| pend_downloaded_chunks rec" using assms(7) by (simp add: missing_chunks_def)
  have "ds_store ds' = s'"
    using assms(2,3,6,7,8,9) new d
    by (simp add: assms(10) service_run_def ask_file_chunk_def join_chunk_def Let_def)
  moreover have "rocks_pending L c s' (pend_key rec) \<noteq> None"
    using rocks.pending.put_ok [OF assms(1,9)] by simp
  moreover have "rocks_published L c s' = rocks_published L c (ds_store ds)"
    using rocks.pending_put_frame [OF assms(1,9)] by simp
  ultimately show ?thesis using assms(5) by auto
qed

definition late_store :: trees where
  "late_store = sample_trees(PUBLISHED_FILES_COLUMN_FAMILY_NAME :=
     RBT.insert (key_bytes (pend_key dl_pending)) [2] RBT.empty)"

theorem late_visit_restarts_download_witness:
  "\<exists>ds'. ds' = service_run dl_M dl_libs dl_S
      [Visit (Inr dl_pending), Start (pend_key dl_pending), Subtask (pend_key dl_pending) (Ask 0 7 True),
       Subtask (pend_key dl_pending) (Answer 0 (Some (Some (Success [1, 2, 3]))) True),
       Subtask (pend_key dl_pending) Join] (service_start 2 late_store dl_disk) \<and>
    pend_key dl_pending \<in> dom (rocks_pending dl_libs sample_contents (ds_store ds'))"
proof (rule dl_receive)
  fix fs' commands
  assume rc: "receive_file_chunk dl_M dl_libs dl_disk (chunk_of_record dl_pending 0)
    (Some (Some (Success [1, 2, 3]))) True = (Some (Inr (Some 0)), fs', commands)"
  let ?ds = "service_start 2 late_store dl_disk"
  have dec: "dec_published dl_libs [2] = Inr dl_published" "pub_key dl_published = pend_key dl_pending"
    by (simp_all add: dl_published_def) (simp_all add: dl_libs_def sample_libs_def dl_published_def)
  have inv: "rocks_inv dl_libs sample_db sample_contents (ds_store ?ds)"
    by (simp add: rocks_inv_def decodes_def late_store_def sample_trees_def service_start_def)
       (simp add: sample_contents_def sample_trees_def dec)
  have none: "rocks_pending dl_libs sample_contents (ds_store ?ds) (pend_key dl_pending) = None"
    and pub: "rocks_published dl_libs sample_contents (ds_store ?ds) (pend_key dl_pending) \<noteq> None"
    by (simp_all add: service_start_def rocks_pending_def rocks_published_def column_lookup_def late_store_def
        sample_contents_def sample_trees_def dec)
  obtain d where st: "download_start dl_libs (ds_store ?ds) (ds_fs ?ds) dl_pending = Inr (sample_metadata, d)"
    using dl_start by (simp add: download_start_def service_start_def split: sum.splits)
  obtain s' where put: "put_pending_download dl_S (ds_store ?ds)
      (dl_pending\<lparr>pend_downloaded_chunks := finsert 0 (pend_downloaded_chunks dl_pending)\<rparr>) = (Inr (), s')"
  proof -
    have "dl_complete \<noteq> dl_pending"
      by (rule notI, drule arg_cong [of _ _ pend_downloaded_chunks]) (simp add: dl_complete_def)
    then have "enc_pending dl_libs dl_complete = Inr [5]" by (simp add: dl_libs_def)
    then show ?thesis using that
      by (simp add: dl_complete_def rocks_store_def rocks_put_def pending_entry_def get_cf_def service_start_def)
  qed
  have "0 \<in> set (missing_chunks sample_metadata dl_pending)" by (simp add: missing_chunks_def)
  from late_visit_restarts_download [OF inv _ _ none pub st this _ put, of dl_M _ fs' commands] rc
  show ?thesis by (simp add: service_start_def FileDownloadService_new_def)
qed

end
