(* ===== verification/Job_Queue.thy ===== *)
theory Job_Queue
  imports Sample_Node
begin

text \<open>
  The queue of jobs over its whole life: the gRPC service puts jobs in, the loop of the node takes
  the first one and publishes it, and other tasks use the rest of the store meanwhile. What one
  entry that does not decode does to the jobs behind it.
\<close>

section \<open>The steps\<close>

text \<open>
  \<open>k\<close> is a key under which no job is put. Every write of the store may fail; a result of the queue
  goes to \<open>file_publish\<close>, whether it is a job or an error, as in the loop of \<open>p2p/service.rs\<close>.
\<close>

inductive queue_step :: "('sw, 's) env \<Rightarrow> bytes \<Rightarrow> ('sw, 's) node \<Rightarrow> ('sw, 's) node \<Rightarrow> bool" for E k where
  queued: "queue_step E k n (n\<lparr>nd_store := s\<rparr>)"
    if "put_file_metadata (ev_store E) (nd_store n) m = (x, s)" "metadata_key (ev_libs E) m \<noteq> k"
| worked: "queue_step E k n n'"
    if "get_next_file_metadata (ev_store E) (\<lambda>_. nd_store n) = Some r" "file_publish E n r = Some n'"
| published: "queue_step E k n (n\<lparr>nd_store := s\<rparr>)"
    if "put_published_file (ev_store E) (nd_store n) rec = (x, s)"
| pended: "queue_step E k n (n\<lparr>nd_store := s\<rparr>)"
    if "put_pending_download (ev_store E) (nd_store n) pend = (x, s)"
| unpended: "queue_step E k n (n\<lparr>nd_store := s\<rparr>)"
    if "delete_pending_download (ev_store E) (nd_store n) key = (x, s)"
| elsewhere: "queue_step E k n n'" if "nd_store n' = nd_store n"

inductive_cases queue_stepE: "queue_step E k n n'"

section \<open>A blocked queue\<close>

text \<open>
  The entry \<open>k\<close> holds \<open>v\<close>, all other entries are jobs under their keys, and the keys of \<open>behind\<close>
  are still in the queue.
\<close>

definition blocked :: "libs \<Rightarrow> bytes \<Rightarrow> bytes \<Rightarrow> bytes set \<Rightarrow> (bytes \<rightharpoonup> bytes) \<Rightarrow> bool" where
  "blocked L k v behind q \<longleftrightarrow> q k = Some v \<and> behind \<subseteq> dom q \<and> (\<forall>j\<in>behind. k < j) \<and>
     decodes (dec_metadata L) (\<lambda>m. PublishedFileKey (metadata_key L m)) (q(k := None))"

abbreviation jobs_column :: "('d \<Rightarrow> string \<Rightarrow> bytes \<rightharpoonup> bytes) \<Rightarrow> 'd \<Rightarrow> bytes \<rightharpoonup> bytes" where
  "jobs_column c db \<equiv> c db FILE_METADATA_COLUMN_FAMILY_NAME"

lemma blocked_put:
  assumes "blocked L k v behind q" "dec_metadata L b = Inr m" "metadata_key L m \<noteq> k"
  shows "blocked L k v behind (q(metadata_key L m \<mapsto> b))"
  using assms by (auto simp: blocked_def decodes_def)

lemma blocked_delete:
  assumes "blocked L k v behind q" "j < k"
  shows "blocked L k v behind (q(j := None))"
  using assms by (fastforce simp: blocked_def decodes_def)

text \<open>What the operations of the store do to the column of the jobs.\<close>

lemma put_job_blocked:
  assumes "libs_ok L" "db_ok R c" "put_file_metadata (rocks_store L R) s m = (x, s')" "metadata_key L m \<noteq> k"
    and "blocked L k v behind (jobs_column c s)"
  shows "blocked L k v behind (jobs_column c s')"
proof -
  from assms(3) have "rocks_put R s (metadata_entry L m) FILE_METADATA_COLUMN_FAMILY_NAME = (x, s')"
    by (simp add: rocks_store_def)
  from assms(2) codecs_ok(3) [OF assms(1)] this show ?thesis
  proof (cases rule: rocks_put_cases)
    case unchanged
    then show ?thesis using assms(5) by simp
  next
    case (written b)
    then show ?thesis using blocked_put [OF assms(5) _ assms(4)] by simp
  qed
qed

lemma delete_job_blocked:
  assumes "db_ok R c" "delete_file_metadata (rocks_store L R) s j = (x, s')" "j < k"
    and "blocked L k v behind (jobs_column c s)"
  shows "blocked L k v behind (jobs_column c s')"
proof -
  from assms(2) have "rocks_delete R s j FILE_METADATA_COLUMN_FAMILY_NAME = (x, s')"
    by (simp add: rocks_store_def)
  from rocks_delete_cases [OF assms(1) this] show ?thesis
    using assms(4) blocked_delete [OF assms(4,3)] by auto
qed

lemma other_columns:
  assumes "libs_ok L" "db_ok R c"
  shows "put_published_file (rocks_store L R) s rec = (x, s') \<Longrightarrow> jobs_column c s' = jobs_column c s"
    and "put_pending_download (rocks_store L R) s pend = (x, s') \<Longrightarrow> jobs_column c s' = jobs_column c s"
    and "delete_pending_download (rocks_store L R) s key = (x, s') \<Longrightarrow> jobs_column c s' = jobs_column c s"
proof -
  show "jobs_column c s' = jobs_column c s" if "put_published_file (rocks_store L R) s rec = (x, s')"
  proof -
    from that have "rocks_put R s (published_entry L rec) PUBLISHED_FILES_COLUMN_FAMILY_NAME = (x, s')"
      by (simp add: rocks_store_def)
    from assms(2) codecs_ok(1) [OF assms(1)] this show ?thesis by (cases rule: rocks_put_cases) simp_all
  qed
  show "jobs_column c s' = jobs_column c s" if "put_pending_download (rocks_store L R) s pend = (x, s')"
  proof -
    from that have "rocks_put R s (pending_entry L pend) PENDING_DOWNLOADS_COLUMN_FAMILY_NAME = (x, s')"
      by (simp add: rocks_store_def)
    from assms(2) codecs_ok(2) [OF assms(1)] this show ?thesis by (cases rule: rocks_put_cases) simp_all
  qed
  show "jobs_column c s' = jobs_column c s" if "delete_pending_download (rocks_store L R) s key = (x, s')"
  proof -
    from that have "rocks_delete R s (key_bytes key) PENDING_DOWNLOADS_COLUMN_FAMILY_NAME = (x, s')"
      by (simp add: rocks_store_def)
    from rocks_delete_cases [OF assms(2) this] show ?thesis by auto
  qed
qed

text \<open>The head of a blocked queue is the blocking entry or a job before it.\<close>

lemma blocked_next:
  assumes "db_ok R c" "blocked L k v behind (jobs_column c (dbs 0))" "dec_metadata L v = Inl e"
  obtains (err) e' where "get_next_file_metadata (rocks_store L R) dbs = Some (Inl e')"
  | (before) m where "get_next_file_metadata (rocks_store L R) dbs = Some (Inr m)"
      "metadata_key L m < k" "metadata_key L m \<in> dom (jobs_column c (dbs 0))"
proof (cases "poll_file_metadata R L (dbs 0)")
  case (Inl e')
  then have "get_next_file_metadata (rocks_store L R) dbs = Some (Inl e')"
    by (simp add: rocks_store_def next_file_metadata.simps [of R L dbs 0])
  then show ?thesis by (rule err)
next
  case (Inr found)
  show ?thesis
  proof (cases found)
    case None
    with Inr poll_Inr_None [OF assms(1)] assms(2) show ?thesis by (simp add: blocked_def)
  next
    case (Some m)
    from assms(1) Inr [unfolded Some] obtain j b where j: "jobs_column c (dbs 0) j = Some b"
      "dec_metadata L b = Inr m" and least: "\<And>i. i \<in> dom (jobs_column c (dbs 0)) \<Longrightarrow> j \<le> i"
      by (rule poll_Inr_Some) blast
    from assms(2,3) j have "j \<noteq> k" by (auto simp: blocked_def)
    with j(1) assms(2) obtain m' where "dec_metadata L b = Inr m'" "metadata_key L m' = j"
      unfolding blocked_def decodes_def by (metis fun_upd_apply PublishedFileKey.inject)
    with j(2) have key: "metadata_key L m = j" by simp
    moreover have "j < k" using least [of k] \<open>j \<noteq> k\<close> assms(2) by (simp add: blocked_def domI)
    ultimately have "metadata_key L m < k" by simp
    moreover have "metadata_key L m \<in> dom (jobs_column c (dbs 0))" using j(1) key by blast
    moreover have "get_next_file_metadata (rocks_store L R) dbs = Some (Inr m)"
      using Inr Some by (simp add: rocks_store_def next_file_metadata.simps [of R L dbs 0])
    ultimately show ?thesis using before by blast
  qed
qed

text \<open>Publishing a job before it keeps the queue blocked.\<close>

lemma file_publish_blocked:
  assumes "libs_ok L" "db_ok R c" "ev_store E = rocks_store L R" "ev_libs E = L"
    and "file_publish E n (Inr m) = Some n'" "metadata_key L m < k"
    and "blocked L k v behind (jobs_column c (nd_store n))"
  shows "blocked L k v behind (jobs_column c (nd_store n'))"
proof (rule file_publish_Some [OF assms(5)])
  fix w s1 s2
  let ?I = "\<lambda>s. blocked L k v behind (jobs_column c s)"
  assume a: "add_published_file E (nd_store n) m = Some s1"
    and d: "delete_published_job E s1 (metadata_key (ev_libs E) m) = Some s2"
    and n': "n' = n\<lparr>nd_swarm := w, nd_store := s2\<rparr>"
  have "?I s1"
    by (rule retry_inv [where P = ?I and Q = ?I, OF a [unfolded add_published_file_def assms(3)] assms(7)])
       (simp_all add: other_columns(1) [OF assms(1,2)])
  then have "?I s2"
    by (rule retry_inv [where P = ?I and Q = ?I, OF d [unfolded delete_published_job_def assms(3)]])
       (rule delete_job_blocked [OF assms(2)]; use assms(4,6) in simp)+
  then show ?thesis by (simp add: n')
qed

lemma queue_step_blocked:
  assumes "libs_ok L" "db_ok R c" "ev_store E = rocks_store L R" "ev_libs E = L" "dec_metadata L v = Inl e"
    and "queue_step E k n n'" "blocked L k v behind (jobs_column c (nd_store n))"
  shows "blocked L k v behind (jobs_column c (nd_store n'))"
  using assms(6)
proof cases
  case (queued m x s)
  then show ?thesis using put_job_blocked [OF assms(1,2) _ _ assms(7)] assms(3,4) by simp
next
  case (worked r)
  from assms(2,7,5) show ?thesis
  proof (cases rule: blocked_next [where dbs = "\<lambda>_. nd_store n"])
    case (err e')
    with worked assms(3) have "r = Inl e'" by simp
    with worked(2) have "n' = n" by (simp add: file_publish_def)
    then show ?thesis using assms(7) by simp
  next
    case (before m)
    with worked assms(3) have "file_publish E n (Inr m) = Some n'" by simp
    then show ?thesis by (rule file_publish_blocked [OF assms(1-4) _ before(2) assms(7)])
  qed
qed (use assms(7) other_columns [OF assms(1,2)] assms(3) in simp_all)

section \<open>The jobs behind it\<close>

text \<open>
  Claim C39. An entry of the queue that does not decode blocks every job with a larger key for good.
  Let the queue hold such an entry, and otherwise jobs. Whatever is queued, published, taken or
  deleted afterwards, with whatever failures, as long as nothing is put under the key of the entry:
  the entry is still there, each job with a larger key is still in the queue, and the next call of
  \<open>get_next_file_metadata\<close> does not wait, but fails, or returns a job with a smaller key. When
  no such job is left, every call fails.
\<close>

theorem undecodable_job_blocks_queue:
  assumes "libs_ok L" "db_ok R c" "ev_store E = rocks_store L R" "ev_libs E = L"
    and "jobs_column c (nd_store n) k = Some v" "dec_metadata L v = Inl e"
    and "decodes (dec_metadata L) (\<lambda>m. PublishedFileKey (metadata_key L m)) ((jobs_column c (nd_store n))(k := None))"
    and "(queue_step E k)\<^sup>*\<^sup>* n n'" "dbs 0 = nd_store n'"
  shows "jobs_column c (nd_store n') k = Some v \<and>
    {j \<in> dom (jobs_column c (nd_store n)). k < j} \<subseteq> dom (jobs_column c (nd_store n')) \<and>
    (\<exists>r. get_next_file_metadata (ev_store E) dbs = Some r \<and>
       (case r of Inl _ \<Rightarrow> True | Inr m \<Rightarrow> metadata_key L m < k \<and>
          metadata_key L m \<in> dom (jobs_column c (nd_store n'))))"
proof -
  let ?behind = "{j \<in> dom (jobs_column c (nd_store n)). k < j}"
  have "blocked L k v ?behind (jobs_column c (nd_store n'))"
    using assms(8)
  proof induction
    case base
    show ?case using assms(5,7) by (auto simp: blocked_def)
  next
    case (step n1 n2)
    show ?case by (rule queue_step_blocked [OF assms(1-4,6) step.hyps(2) step.IH])
  qed
  then have "blocked L k v ?behind (jobs_column c (dbs 0))" by (simp add: assms(9))
  moreover from assms(2) this assms(6) have "\<exists>r. get_next_file_metadata (rocks_store L R) dbs = Some r \<and>
      (case r of Inl _ \<Rightarrow> True | Inr m \<Rightarrow> metadata_key L m < k \<and> metadata_key L m \<in> dom (jobs_column c (dbs 0)))"
    by (cases rule: blocked_next) auto
  ultimately show ?thesis unfolding blocked_def assms(3,9) by blast
qed

text \<open>A queue with such an entry and a job behind it, and the job queued once more.\<close>

definition spoiled_queue :: trees where
  "spoiled_queue = sample_trees(FILE_METADATA_COLUMN_FAMILY_NAME :=
     RBT.insert (replicate 8 0) [9] (RBT.insert (metadata_key sample_codec stored_metadata) [1] RBT.empty))"

theorem undecodable_job_blocks_queue_witness:
  "\<exists>n. queue_step (toy_env 9) (replicate 8 0) (toy_node spoiled_queue) n \<and>
     sample_contents (nd_store n) FILE_METADATA_COLUMN_FAMILY_NAME (replicate 8 0) = Some [9] \<and>
     metadata_key sample_codec stored_metadata \<in> dom (sample_contents (nd_store n) FILE_METADATA_COLUMN_FAMILY_NAME) \<and>
     get_next_file_metadata (rocks_store sample_codec sample_db) (\<lambda>_. nd_store n) \<noteq> None"
proof -
  let ?key = "metadata_key sample_codec stored_metadata"
  have less: "replicate 8 0 < ?key" by code_simp
  define s where "s = snd (put_file_metadata (rocks_store sample_codec sample_db) spoiled_queue stored_metadata)"
  define x where "x = fst (put_file_metadata (rocks_store sample_codec sample_db) spoiled_queue stored_metadata)"
  have put: "put_file_metadata (rocks_store sample_codec sample_db) spoiled_queue stored_metadata = (x, s)"
    by (simp add: s_def x_def)
  have step: "queue_step (toy_env 9) (replicate 8 0) (toy_node spoiled_queue) ((toy_node spoiled_queue)\<lparr>nd_store := s\<rparr>)"
    by (rule queue_step.queued) (use put less in auto)
  have jobs: "jobs_column sample_contents spoiled_queue = [?key \<mapsto> [1], replicate 8 0 \<mapsto> [9]]"
    by (rule ext) (simp add: spoiled_queue_def sample_contents_def)
  have bad: "dec_metadata sample_codec [9] = Inl ''malformed''"
    by (simp add: sample_codec_def) (simp add: sample_libs_def)
  have rest: "decodes (dec_metadata sample_codec) (\<lambda>m. PublishedFileKey (metadata_key sample_codec m))
      ((jobs_column sample_contents (nd_store (toy_node spoiled_queue)))(replicate 8 0 := None))"
    using less by (auto simp: jobs decodes_def)
  from step have run: "(queue_step (toy_env 9) (replicate 8 0))\<^sup>*\<^sup>* (toy_node spoiled_queue) ((toy_node spoiled_queue)\<lparr>nd_store := s\<rparr>)"
    by (rule r_into_rtranclp)
  have "jobs_column sample_contents (nd_store (toy_node spoiled_queue)) (replicate 8 0) = Some [9]"
    by (simp add: jobs)
  note blocks = undecodable_job_blocks_queue [OF sample_codec_ok sample_db_ok toy_env_simps(2,3) this bad rest
      run, of "\<lambda>_. s"]
  have concl: "jobs_column sample_contents s (replicate 8 0) = Some [9]"
    "{j \<in> dom (jobs_column sample_contents spoiled_queue). replicate 8 0 < j} \<subseteq> dom (jobs_column sample_contents s)"
    "get_next_file_metadata (rocks_store sample_codec sample_db) (\<lambda>_. s) \<noteq> None"
    using blocks by auto
  moreover have "?key \<in> {j \<in> dom (jobs_column sample_contents spoiled_queue). replicate 8 0 < j}"
    using less by (simp add: jobs)
  ultimately have "?key \<in> dom (jobs_column sample_contents s)" by (rule_tac subsetD)
  with concl(1,3) step show ?thesis
    by (intro exI [of _ "(toy_node spoiled_queue)\<lparr>nd_store := s\<rparr>"]) simp
qed

end
