(* ===== verification/Download_Commands.thy ===== *)
theory Download_Commands
  imports Sample_Downloads
begin

text \<open>
  What a download task asks of the event service: which chunks it requests, and which it announces
  as provided.
\<close>

section \<open>The commands of a task\<close>

fun requested :: "P2pCommand list \<Rightarrow> FileChunkRequest list" where
  "requested [] = []"
| "requested (c # cs) = (case c of RequestFileChunk r _ \<Rightarrow> [r] | _ \<Rightarrow> []) @ requested cs"

fun announced_chunks :: "P2pCommand list \<Rightarrow> FileChunkRequest list" where
  "announced_chunks [] = []"
| "announced_chunks (c # cs) = (case c of ProvideFileChunk r \<Rightarrow> [r] | _ \<Rightarrow> []) @ announced_chunks cs"

lemma requested_append [simp]: "requested (cs @ cs') = requested cs @ requested cs'"
  by (induction cs) simp_all

lemma announced_append [simp]: "announced_chunks (cs @ cs') = announced_chunks cs @ announced_chunks cs'"
  by (induction cs) simp_all

definition piece :: "PendingDownloadRecord \<Rightarrow> usize \<Rightarrow> FileChunkRequest" where
  "piece rec i = \<lparr>creq_file_id = u64_of_key (pend_key rec), creq_chunk_id = i\<rparr>"

lemma piece_simps [simp]: "creq_chunk_id (piece rec i) = i" "piece rec i = piece rec j \<longleftrightarrow> i = j"
  "chunk_request (chunk_of_record rec i) = piece rec i"
  by (simp_all add: piece_def chunk_request_def chunk_of_record_def)

lemma piece_inj [simp]: "inj_on (piece rec) X"
  by (simp add: inj_on_def)

lemma piece_image_eq [simp]: "piece rec ` X = piece rec ` Y \<longleftrightarrow> X = Y"
  by (rule inj_on_image_eq_iff [where C = UNIV]) simp_all

text \<open>A subtask that succeeds announces its chunk, and no other does.\<close>

lemma receive_commands:
  assumes "receive_file_chunk M L fs dfc reply sent = (r, fs', commands)"
  shows "(r = Some (Inr (Some (dfc_chunk_id dfc))) \<and> commands = [ProvideFileChunk (chunk_request dfc)]) \<or>
    ((\<forall>i. r \<noteq> Some (Inr (Some i))) \<and> commands = [])"
  using assms by (auto simp: receive_file_chunk_def split: option.splits FileResponse.splits prod.splits sum.splits if_splits)

section \<open>The accounts of a task\<close>

text \<open>
  \<open>R\<close> are the chunks requested so far and \<open>A\<close> those announced, in the order of the commands. A
  subtask that has not sent its request waits or has left an error.
\<close>

definition accounts :: "PendingDownloadRecord \<Rightarrow> usize set \<Rightarrow> usize list \<Rightarrow> usize list \<Rightarrow> 's download \<Rightarrow> bool" where
  "accounts rec missing R A d \<longleftrightarrow>
     pend_key (dl_record d) = pend_key rec \<and>
     requested (dl_sent d) = map (piece rec) R \<and> announced_chunks (dl_sent d) = map (piece rec) A \<and>
     length (dl_sent d) = length R + length A \<and>
     distinct (R @ dl_waiting d) \<and> set (R @ dl_waiting d) \<subseteq> missing \<and>
     distinct (A @ dl_asked d) \<and> set (A @ dl_asked d) \<subseteq> set R \<and>
     (missing \<subseteq> set (R @ dl_waiting d) \<or> dl_first_error d \<noteq> None \<or> (\<exists>e. Inl e \<in> set (dl_finished d))) \<and>
     fset (pend_downloaded_chunks (dl_record d)) \<union> {i. Inr (Some i) \<in> set (dl_finished d)} =
       fset (pend_downloaded_chunks rec) \<union> set A"

lemma piece_cong: "pend_key rec = pend_key rec' \<Longrightarrow> piece rec i = piece rec' i"
  by (simp add: piece_def)

lemma join_chunk_account:
  "dl_sent (join_chunk S r d) = dl_sent d"
  "dl_first_error (join_chunk S r d) = None \<longleftrightarrow> dl_first_error d = None \<and> (\<forall>e. r \<noteq> Inl e)"
  by (auto simp: join_chunk_def Let_def split: sum.split option.split)

lemma accounts_join:
  assumes "accounts rec missing R A d" "dl_finished d = r # rest"
  shows "accounts rec missing R A (join_chunk S r (d\<lparr>dl_finished := rest\<rparr>))"
proof -
  let ?d = "join_chunk S r (d\<lparr>dl_finished := rest\<rparr>)"
  have counted: "fset (pend_downloaded_chunks (dl_record ?d)) \<union> {i. Inr (Some i) \<in> set (dl_finished ?d)} =
      fset (pend_downloaded_chunks (dl_record d)) \<union> {i. Inr (Some i) \<in> set (dl_finished d)}"
    by (cases r; cases "projr r") (auto simp: join_chunk_record assms(2))
  have failed: "dl_first_error ?d \<noteq> None \<or> (\<exists>e. Inl e \<in> set (dl_finished ?d)) \<longleftrightarrow>
      dl_first_error d \<noteq> None \<or> (\<exists>e. Inl e \<in> set (dl_finished d))"
    by (auto simp: join_chunk_record join_chunk_account assms(2))
  have same: "pend_key (dl_record ?d) = pend_key (dl_record d)" "dl_sent ?d = dl_sent d"
    "dl_waiting ?d = dl_waiting d" "dl_asked ?d = dl_asked d"
    by (simp_all add: join_chunk_record join_chunk_account)
  show ?thesis using assms(1) unfolding accounts_def counted failed same .
qed

lemma accounts_exec:
  assumes "accounts rec missing R A d"
  shows "\<exists>R A. accounts rec missing R A (dl_exec M L S st d)"
proof (cases st)
  case (Ask i tx sent)
  show ?thesis
  proof (cases "i \<in> set (dl_waiting d)")
    case True
    show ?thesis
    proof (cases sent)
      case sent: True
      have "accounts rec missing (R @ [i]) A (dl_exec M L S st d)"
        using assms True sent unfolding accounts_def Ask
        by (auto simp: ask_file_chunk_def intro: piece_cong)
      then show ?thesis by blast
    next
      case False
      have "accounts rec missing R A (dl_exec M L S st d)"
        using assms True False unfolding accounts_def Ask
        by (auto simp: ask_file_chunk_def dest: notin_set_remove1)
      then show ?thesis by blast
    qed
  qed (use assms Ask in auto)
next
  case (Answer i reply sent)
  show ?thesis
  proof (cases "i \<in> set (dl_asked d)")
    case True
    obtain r fs' commands where rc: "receive_file_chunk M L (dl_fs d) (chunk_of_record (dl_record d) i) reply sent =
        (r, fs', commands)" by (cases "receive_file_chunk M L (dl_fs d) (chunk_of_record (dl_record d) i) reply sent")
    have id: "dfc_chunk_id (chunk_of_record (dl_record d) i) = i" by (simp add: chunk_of_record_def)
    from receive_commands [OF rc] show ?thesis
    proof (elim disjE conjE)
      assume "r = Some (Inr (Some (dfc_chunk_id (chunk_of_record (dl_record d) i))))"
        "commands = [ProvideFileChunk (chunk_request (chunk_of_record (dl_record d) i))]"
      with True rc id have "accounts rec missing R (A @ [i]) (dl_exec M L S st d)"
        using assms unfolding accounts_def Answer by (auto intro: piece_cong dest: notin_set_remove1)
      then show ?thesis by blast
    next
      assume "\<forall>i. r \<noteq> Some (Inr (Some i))" "commands = []"
      with True rc have "accounts rec missing R A (dl_exec M L S st d)"
        using assms unfolding accounts_def Answer by (auto dest: notin_set_remove1 split: option.split)
      then show ?thesis by blast
    qed
  qed (use assms Answer in auto)
next
  case (Lost i e)
  have "accounts rec missing R A (dl_exec M L S st d)"
    using assms unfolding accounts_def Lost by (auto dest: notin_set_remove1)
  then show ?thesis by blast
next
  case Join
  show ?thesis
  proof (cases "dl_finished d")
    case (Cons r rest)
    have "accounts rec missing R A (dl_exec M L S st d)"
      using accounts_join [OF assms Cons] Cons by (simp add: Join)
    then show ?thesis by blast
  qed (use assms Join in auto)
qed

lemma accounts_run:
  assumes "accounts rec missing R A d"
  shows "\<exists>R A. accounts rec missing R A (dl_run M L S steps d)"
  using assms
proof (induction steps arbitrary: d R A)
  case (Cons st steps)
  obtain R' A' where "accounts rec missing R' A' (dl_exec M L S st d)"
    using accounts_exec [OF Cons.prems] by blast
  then show ?case using Cons.IH by simp
qed auto

lemma accounts_start:
  assumes "download_start L s fs rec = Inr (m, d)"
  shows "accounts rec {i. i < length (md_merkle_proofs m) \<and> i |\<notin>| pend_downloaded_chunks rec} [] [] d"
  by (auto simp: accounts_def download_start_Inr [OF assms] missing_chunks_def)

text \<open>
  Claim C22. A download asks for what it misses, once: whatever the peers answer and in whatever
  order its subtasks run and fail, each request it sends is for a chunk of the file that the stored
  record did not count, no chunk is requested twice, and only requested chunks are announced, each
  once. When the task ends without an error, it has requested every missing chunk, the chunks that it
  has come to count are exactly the announced ones, and its result is \<open>true\<close> exactly when all
  missing chunks were announced.
\<close>

theorem download_requests_exact:
  assumes "download_start L s fs rec = Inr (m, d0)"
    and "fset (pend_downloaded_chunks rec) \<subseteq> {..<length (md_merkle_proofs m)}"
    and "d = dl_run M L S steps d0"
    and "missing = {i. i < length (md_merkle_proofs m) \<and> i |\<notin>| pend_downloaded_chunks rec}"
  shows "distinct (requested (dl_sent d)) \<and> set (requested (dl_sent d)) \<subseteq> piece rec ` missing \<and>
    distinct (announced_chunks (dl_sent d)) \<and> set (announced_chunks (dl_sent d)) \<subseteq> set (requested (dl_sent d)) \<and>
    length (dl_sent d) = length (requested (dl_sent d)) + length (announced_chunks (dl_sent d)) \<and>
    (\<forall>b. download_result m d = Some (Inr b) \<longrightarrow>
       set (requested (dl_sent d)) = piece rec ` missing \<and>
       set (announced_chunks (dl_sent d)) =
         piece rec ` (fset (pend_downloaded_chunks (dl_record d)) - fset (pend_downloaded_chunks rec)) \<and>
       b = (set (announced_chunks (dl_sent d)) = piece rec ` missing))"
proof -
  obtain R A where acc: "accounts rec missing R A d"
    using accounts_run [OF accounts_start [OF assms(1)]] unfolding assms(3,4) by blast
  have sent: "requested (dl_sent d) = map (piece rec) R" "announced_chunks (dl_sent d) = map (piece rec) A"
    "length (dl_sent d) = length R + length A"
    and R: "distinct R" "set R \<subseteq> missing" and A: "distinct A" "set A \<subseteq> set R"
    using acc by (simp_all add: accounts_def)
  have ended: "set R = missing \<and>
      set A = fset (pend_downloaded_chunks (dl_record d)) - fset (pend_downloaded_chunks rec) \<and>
      b = (set A = missing)" if b: "download_result m d = Some (Inr b)" for b
  proof -
    have e: "dl_waiting d = []" "dl_finished d = []" "dl_first_error d = None"
      "b = (fcard (pend_downloaded_chunks (dl_record d)) = length (md_merkle_proofs m))"
      using b by (auto simp: download_result_def split: if_splits option.splits)
    have "set R = missing" using acc e by (auto simp: accounts_def)
    have count: "fset (pend_downloaded_chunks (dl_record d)) = fset (pend_downloaded_chunks rec) \<union> set A"
      using acc e by (simp add: accounts_def)
    have A': "set A \<subseteq> missing" using A(2) R(2) by blast
    have upto: "{..<length (md_merkle_proofs m)} = fset (pend_downloaded_chunks rec) \<union> missing"
      using assms(2) by (auto simp: assms(4))
    have "fcard (pend_downloaded_chunks (dl_record d)) = length (md_merkle_proofs m) \<longleftrightarrow>
        fset (pend_downloaded_chunks (dl_record d)) = {..<length (md_merkle_proofs m)}"
    proof
      show "fset (pend_downloaded_chunks (dl_record d)) = {..<length (md_merkle_proofs m)}"
        if "fcard (pend_downloaded_chunks (dl_record d)) = length (md_merkle_proofs m)"
        by (rule card_subset_eq [OF finite_lessThan])
          (use that A' upto card_lessThan [of "length (md_merkle_proofs m)"] in \<open>auto simp: fcard.rep_eq count\<close>)
    qed (rule fcard_upto)
    also have "\<dots> \<longleftrightarrow> set A = missing" using A' unfolding count upto assms(4) by auto
    finally have "b = (set A = missing)" using e(4) by simp
    moreover have "set A = fset (pend_downloaded_chunks (dl_record d)) - fset (pend_downloaded_chunks rec)"
      using A' unfolding count assms(4) by auto
    ultimately show ?thesis using \<open>set R = missing\<close> by blast
  qed
  then have ended: "\<forall>b. download_result m d = Some (Inr b) \<longrightarrow> set R = missing \<and>
      set A = fset (pend_downloaded_chunks (dl_record d)) - fset (pend_downloaded_chunks rec) \<and> b = (set A = missing)"
    by blast
  show ?thesis
    unfolding sent set_map length_map piece_image_eq by (intro conjI ended) (use R A in \<open>auto simp: distinct_map\<close>)
qed

theorem download_requests_exact_witness:
  "requested (dl_sent (dl_run dl_M dl_libs dl_S dl_steps dl_begun)) = [piece dl_pending 0] \<and>
   set (announced_chunks (dl_sent (dl_run dl_M dl_libs dl_S dl_steps dl_begun))) = {piece dl_pending 0}"
proof -
  obtain fs' commands where rc:
    "receive_file_chunk dl_M dl_libs dl_disk (chunk_of_record dl_pending 0) (Some (Some (Success [1, 2, 3]))) True =
       (Some (Inr (Some 0)), fs', commands)" by (rule dl_receive)
  have "requested (dl_sent (dl_run dl_M dl_libs dl_S dl_steps dl_begun)) = [piece dl_pending 0]"
    using receive_commands [OF rc] by (auto simp: dl_steps_def dl_begun_def ask_file_chunk_def rc join_chunk_account)
  with download_requests_exact [OF dl_start _ refl refl, of dl_M dl_S dl_steps] dl_ran(1,2) show ?thesis
    by (auto simp: dl_complete_def)
qed

end
