(* ===== verification/Spec2Isabelle.thy ===== *)
theory Spec2Isabelle
  imports Domain_Props Chunking_Props File_Store_Props P2p_Events_Props Downloads_Props Grpc_Props P2p_Service_Props
    Sample_Network Node_Downloads_Props Job_Queue Download_Commands
begin

text \<open>
  A verification development for \<open>rust-dfs\<close>, a distributed file system in Rust: a node cuts a file
  into chunks, announces it in a Kademlia table over \<open>libp2p\<close>, serves its chunks to other nodes,
  and downloads files from them; clients use it through gRPC.

  \<^bold>\<open>The program and its model.\<close> Each theory models one part, in the order in which they build on
  each other. Definitions keep the names of the code; a field of a struct has the prefix of its
  record. Errors are values of \<open>error + result\<close>, a panic is \<open>None\<close>, a handler takes the state and
  returns it changed. All of \<open>src/app\<close> is under \<open>src/src/app\<close>.

  \<^item> \<open>Dfs_Prelude\<close>: bytes and integers of a fixed width, paths as \<open>std::path\<close> has them, decimal
    numerals, and the lemmas on them. \<open>Local_Fs\<close>: the file system behind \<open>tokio::fs\<close>, with a
    fault oracle, so that a statement that does not ask for \<open>healthy\<close> holds under any failures.
  \<^item> \<open>Errors\<close>: the \<open>errors.rs\<close> files. \<open>Domain\<close>, \<open>Domain_Props\<close>: the records and messages of
    \<open>file_store/domain.rs\<close> and \<open>p2p/domain.rs\<close>, the keys of files.
  \<^item> \<open>Chunking\<close>, \<open>Chunking_Correct\<close>, \<open>Chunking_Props\<close>: \<open>file_processing/processing.rs\<close> and
    \<open>utils.rs\<close>: \<open>split\<close>, \<open>process_file\<close>, \<open>save_metadata\<close>, \<open>restore_original_file\<close>, \<open>verify_chunk\<close>.
  \<^item> \<open>File_Store\<close>, \<open>File_Store_Correct\<close>, \<open>File_Store_Props\<close>: the trait \<open>Store\<close> as a record of
    operations and \<open>RocksDBStore\<close> over a database. What the rest of the program relies on are the
    locales \<open>column\<close>, \<open>deletable\<close>, \<open>job_queue\<close> and \<open>store_contract\<close>; the interpretation \<open>rocks\<close>
    proves them for \<open>RocksDBStore\<close>, and every later theorem about the store goes through it. The
    lemmas on downloads, too, are proved once inside \<open>store_contract\<close>, for any such store.
  \<^item> \<open>P2p_Swarm\<close>, \<open>P2p_Events\<close>, \<open>P2p_Events_Correct\<close>, \<open>P2p_Events_Props\<close>: \<open>p2p/events.rs\<close> and
    \<open>p2p/config.rs\<close>, all commands and events of \<open>EventService\<close>. \<open>Reply_Ledger\<close> is the abstract
    specification of how requests are answered: a step relation on a ledger of oneshot channels,
    which every step of a node refines. \<open>Job_Queue\<close>: the queue of jobs over its whole life, as a step
    relation of the clients that fill it and the handler that empties it.
  \<^item> \<open>Downloads\<close>, \<open>Downloads_Correct\<close>, \<open>Download_Runs\<close>, \<open>Download_Completion\<close>,
    \<open>Download_Service\<close>, \<open>Download_Commands\<close>, \<open>Downloads_Props\<close>: \<open>file_download_service.rs\<close>. A
    download is a state with its waiting, asking and finished subtasks; its concurrency is a list of
    steps, over which the theorems quantify. \<open>Download_Commands\<close> accounts for the requests and the
    announcements of a task. \<open>Download_Service\<close> lets the tasks of all downloads interleave on one store,
    one disk and one semaphore.
  \<^item> \<open>Grpc_Api\<close>, \<open>Grpc_Correct\<close>, \<open>Grpc_Props\<close>: \<open>grpc/server.rs\<close>, the operations of a client.
  \<^item> \<open>Node_Downloads\<close>, \<open>Node_Downloads_Correct\<close>, \<open>Node_Downloads_Props\<close>: the download service and
    the downloads that clients add, as one run on one store and one disk, with the invariant that
    ties the records in the store to the files on the disk.
  \<^item> \<open>Network_Behaviour\<close>, \<open>P2p_Service\<close>, \<open>Server_App\<close>, \<open>P2p_Service_Props\<close>: \<open>p2p/service.rs\<close> (the
    behaviours and the swarm, the key pair, the start, the loop over \<open>select!\<close>), \<open>server.rs\<close>,
    \<open>cli/mod.rs\<close> and \<open>main.rs\<close>.
  \<^item> \<open>Network\<close>: two nodes, the answers of one as the replies that the download of the other gets.
  \<^item> \<open>Sample_World\<close>, \<open>Sample_Store\<close>, \<open>Sample_Node\<close>, \<open>Sample_Downloads\<close>, \<open>Sample_Network\<close>: concrete libraries, disks,
    stores and swarms on which the theorems are evaluated.

  \<^bold>\<open>How the parts interact.\<close> A client's \<open>publish_file\<close> cuts the file and queues a job in the store;
  the loop takes the job with the smallest key, announces its keys and moves it to the published
  files. A client's \<open>download_file\<close> asks for the metadata with a command and a oneshot channel; the
  event service looks for providers, asks one of them and answers the channel. The pending record
  it leaves in the store is found by the next tick of the download service, whose subtasks ask for
  the chunks with commands of the same kind, verify them against the Merkle root and save them;
  at the end the file is put together and the record moves to the published files.

  \<^bold>\<open>What the theorems show.\<close> Integrity: publishing and restoring are inverse, and a file that one
  node publishes reaches another byte for byte, whatever the peers that deliver its chunks do
  (\<open>published_file_reaches_the_downloader\<close> below). Availability: with the answers a publisher gives,
  another node that has room accepts and starts the download, can always bring it to its end, and
  then has the file (\<open>publication_can_be_downloaded\<close> below), and each of these answers comes through
  the loop of the other (\<open>served_chunk_is_delivered\<close> below). Durability: no schedule and no failure
  loses a record, and in the runs that \<open>admissible\<close> of \<open>Node_Downloads\<close> describes no record counts a
  chunk that is not on the disk. Progress: a download requests what it misses and nothing else, once,
  every download that ends with honest peers ends with success, and a published job has left the
  queue. Start and end: what a started node is, announces and accepts, and when \<open>main\<close> returns
  (\<open>main_returns_iff\<close> in \<open>Server_App\<close>). Requests: in every run of the service loop each channel that
  came with a command waits at one place or has one answer, of its kind, and no channel is lost.
  Searches: what is found is reported, once for each time the cache forgets it. Limits: at most
  \<open>max_active_downloads\<close> requests for chunks are open at a time. Errors: known files are refused, and
  some theorems state behaviour that is hardly meant: colliding chunk directories, file names
  that leave the download directory, an entry that blocks the queue of jobs for good, a handler
  that never returns, searches that share a session, a download of another file than the one
  requested, a failed request that is never answered, a completed download that starts again.

  \<^bold>\<open>Libraries.\<close> Code outside the repository is a parameter: the codec and the hasher (\<open>libs\<close>, with
  \<open>libs_ok\<close>: decoding undoes encoding), the Merkle tree (\<open>merkle\<close>, with \<open>merkle_complete\<close> and
  \<open>merkle_binding\<close>), RocksDB (\<open>DB\<close>, with \<open>db_ok\<close>), the swarm (\<open>SwarmOps\<close> and \<open>Libp2p\<close>, with
  \<open>swarm_ok\<close>: identifiers are given out once), random numbers, \<open>str::to_lowercase\<close>, the parser of
  socket addresses and the gRPC transport. Nothing is assumed of the network: replies, events and
  their order are arbitrary.

  \<^bold>\<open>Loops.\<close> Loops over data are structural recursions or have a termination proof. The two loops that
  may not end, the wait for a job and the retries of \<open>file_publish\<close>, are partial functions, where
  \<open>None\<close> is not returning, and theorems say when they return. No fuel is used: runs of concurrent
  code are finite lists of steps of any length.

  \<^bold>\<open>Not modelled.\<close> The inside of the \<open>libp2p\<close> behaviours, whose constructors are the record
  \<open>Builder\<close>; the generated gRPC code; log messages; timers, which appear only as ticks that may
  come at any time; the argument parser. Links and mount points of the file system are not
  modelled, and the capacity of the channels between the services is only seen as whether a send
  succeeds. In the interleavings of \<open>Download_Service\<close> and \<open>Node_Downloads\<close> a step is what a task
  does between two waits for other tasks; \<open>process_completed\<close> and the end of a client's
  \<open>download_file\<close> are one step each, although they wait for the disk and the store in between. A
  result of a search is delivered at once; the code waits for room in the channel of the client.
\<close>

section \<open>From one node to another\<close>

text \<open>
  Claim C1. End to end: one node publishes a file. On another node a client asks for it, and
  \<open>download_file\<close> accepts the published metadata; the download service then works on the stored
  record. The peers that deliver the chunks are arbitrary: they may answer with anything, in any
  order, or not at all. If the download ends with \<open>true\<close>, then the completion leaves the
  published file, byte for byte, in the directory the client has named. This rests on the Merkle
  tree being binding and on the hash function having no second preimages.
\<close>

theorem published_file_reaches_the_downloader:
  assumes "process_file M L0 fs0 rsize rfault file_path public = (Inr m, fs1)"
    and "fs_read fs0 (path_of_string file_path) = Inr content"
    and "merkle_binding M (leaves_of M content) (md_merkle_root m)"
    and "no_second_preimage M (chunks_of CHUNK_SIZE content)"
    and "rocks_inv L R c s" "healthy fs"
    and "base = path_of_string (dreq_download_path request)" "node_at fs base = Some DirNode"
    and "fs_nodes fs (path_join_str base (md_original_file_name m @ ''.part'')) \<noteq> Some DirNode"
    and "download_file_answer L (rocks_store L R) s fs request (Some (Some m)) sent = (Inr (), s', fs', commands)"
    and "rocks_pending L c s' (PublishedFileKey (metadata_key L m)) = Some rec"
    and "download_start L s' fs' rec = Inr (md, d)"
    and "download_result md (dl_run M L (rocks_store L R) steps d) = Some (Inr True)"
  shows "fs_nodes (fst (snd (download_end L (rocks_store L R) (Inr True) (dl_run M L (rocks_store L R) steps d) sender_open)))
      (path_join_str base (md_original_file_name m)) = Some (FileNode content)"
  using assms by (rule published_file_arrives)

theorem published_file_reaches_the_downloader_witness:
  "\<exists>s' fs' commands d. download_file_answer grpc_libs (rocks_store grpc_libs sample_db) sample_trees
      (sample_fs Map.empty) grpc_request (Some (Some sample_metadata)) True = (Inr (), s', fs', commands) \<and>
    fs_nodes (fst (snd (download_end grpc_libs (rocks_store grpc_libs sample_db) (Inr True)
      (dl_run dl_M grpc_libs (rocks_store grpc_libs sample_db) dl_steps d) True))) (Path True [''f'']) =
    Some (FileNode [1, 2, 3])"
proof (rule sample_publication, rule net_download)
  fix fs1 s' fs' commands d
  assume pf: "process_file dl_M sample_world_libs sample_disk (\<lambda>_ _. 2) (\<lambda>_. None) ''/f'' True =
    (Inr sample_metadata, fs1)"
  assume a: "download_file_answer grpc_libs net_S sample_trees (sample_fs Map.empty) grpc_request
      (Some (Some sample_metadata)) True = (Inr (), s', fs', commands)"
    and pend: "rocks_pending grpc_libs sample_contents s' (PublishedFileKey (metadata_key grpc_libs sample_metadata)) =
      Some net_record"
    and d: "download_start grpc_libs s' fs' net_record = Inr (sample_metadata, d)"
    and ran: "download_result sample_metadata (dl_run dl_M grpc_libs net_S dl_steps d) = Some (Inr True)"
  have "fs_nodes (fst (snd (download_end grpc_libs net_S (Inr True) (dl_run dl_M grpc_libs net_S dl_steps d) True)))
      (path_join_str (Path True []) (md_original_file_name sample_metadata)) = Some (FileNode [1, 2, 3])"
    by (rule published_file_reaches_the_downloader [OF pf sample_read sample_crypto(1,2) grpc_store_inv
          healthy_sample_fs net_base _ _ a pend d ran]) (simp_all add: node_at_def)
  then show ?thesis using a by (auto simp: path_join_plain plain_name_def)
qed

text \<open>
  Claim C2. What has been published can be had: node A publishes a file and its \<open>file_publish\<close> returns.
  On node B, whose disk has room for the file and whose store takes the record, \<open>download_file\<close>
  accepts what A's event service answers to the request for the metadata, and the task of the
  recorded download starts. As long as A answers the requests for the chunks, in whatever order the
  subtasks proceed, the download can always be brought to its end, and whenever it has ended
  its result is \<open>true\<close> and the completion leaves the file, byte for byte, in the directory that the
  client has named.
\<close>

theorem publication_can_be_downloaded:
  assumes publisher: "healthy fs0" "process_file M L fs0 rsize rfault file_path public = (Inr m, fs1)"
      "fs_read fs0 (path_of_string file_path) = Inr content" "key = PublishedFileKey (metadata_key L m)"
      "file_publish E n (Inr m) = Some n'" "ev_store E = rocks_store L RA" "ev_libs E = L"
      "rocks_inv L RA cA (nd_store n)" "get_published_file (ev_store E) (nd_store n') key = Inr v"
    and tree: "merkle_binding M (leaves_of M content) (md_merkle_root m)"
      "no_second_preimage M (chunks_of CHUNK_SIZE content)" "merkle_complete M (leaves_of M content)"
    and downloader: "rocks_inv L R c s" "room_for fs request m"
      "rec = download_record L request m" "md = m\<lparr>md_chunks_dir := download_dir request m\<rparr>"
      "enc_metadata L md = Inr b" "put_pending_download (rocks_store L R) s rec = (Inr (), s')"
    and serve: "serve = (\<lambda>i. chunk_response E fs1 (nd_store n') (chunk_request (chunk_of_record rec i)))"
  shows "\<exists>fs' commands d.
    download_file_answer L (rocks_store L R) s fs request
      (Some (metadata_reply L (metadata_response E fs1 (nd_store n') (u64_of_key key)))) True =
      (Inr (), s', fs', commands) \<and>
    rocks_pending L c s' key = Some rec \<and> download_start L s' fs' rec = Inr (md, d) \<and>
    (\<forall>steps. list_all (served_by serve) steps \<longrightarrow>
      (\<exists>rest. list_all (served_by serve) rest \<and>
         download_result md (dl_run M L (rocks_store L R) (steps @ rest) d) = Some (Inr True)) \<and>
      (\<forall>r. download_result md (dl_run M L (rocks_store L R) steps d) = Some r \<longrightarrow> r = Inr True \<and>
         fs_nodes (fst (snd (download_end L (rocks_store L R) r (dl_run M L (rocks_store L R) steps d) sender_open)))
           (path_join_str (path_of_string (dreq_download_path request)) (md_original_file_name m)) =
         Some (FileNode content)))"
proof -
  let ?run = "\<lambda>steps d. dl_run M L (rocks_store L R) steps d"
  have L: "libs_ok L" by (rule rocks_invD(1) [OF downloader(1)])
  note serves = publisher_serves [OF L publisher(1-3,5-8,4,9)]
  note room = room_forD [OF downloader(2)]
  obtain fs' commands where answer: "download_file_answer L (rocks_store L R) s fs request (Some (Some m)) True =
      (Inr (), s', fs', commands)"
    using room_for_accepts [OF downloader(2) downloader(5) [unfolded downloader(4)] downloader(6) [unfolded downloader(3)]]
    by blast
  have pend: "rocks_pending L c s' (PublishedFileKey (metadata_key L m)) = Some rec"
    using accepted_download(2) [OF downloader(1) room(1) answer] by (simp add: downloader(3))
  obtain d where d: "download_start L s' fs' rec = Inr (md, d)"
    using accepted_download_starts [OF downloader(1) room(1) answer] by (auto simp: downloader(3,4))
  have "chunk_request (chunk_of_record rec i) = \<lparr>creq_file_id = u64_of_key key, creq_chunk_id = i\<rparr>" for i
    by (simp add: chunk_request_def chunk_of_record_def downloader(3) publisher(4))
  then have honest: "list_all (honest (chunks_of CHUNK_SIZE content)) steps" if "list_all (served_by serve) steps" for steps
    using served_honest [OF that] serves(2) by (simp add: serve)
  have free: "fs_nodes fs' (chunk_path (pend_chunks_dir rec) i FILE_CHUNK_EXTENSION) \<noteq> Some DirNode" for i
    using room_for_chunks [OF downloader(1,2) answer] by (simp add: downloader(3))
  note fed = fed_download_completes [OF publisher(2,3) tree downloader(1) room(1) answer downloader(3) d free]
  have ended: "download_result md (?run steps d) = Some (Inr True)"
    if "list_all (served_by serve) steps" "download_result md (?run steps d) \<noteq> None" for steps
    by (rule fed [OF honest [OF that(1)] that(2)])
  have continued: "\<exists>rest. list_all (served_by serve) rest \<and> download_result md (?run (steps @ rest) d) = Some (Inr True)"
    if "list_all (served_by serve) steps" for steps
    using served_run_can_end [of serve md M L "rocks_store L R" "?run steps d"] ended [of "steps @ rest" for rest] that
    by (auto simp: dl_run_append)
  have arrives: "fs_nodes (fst (snd (download_end L (rocks_store L R) (Inr True) (?run steps d) sender_open)))
      (path_join_str (path_of_string (dreq_download_path request)) (md_original_file_name m)) = Some (FileNode content)"
    if "download_result md (?run steps d) = Some (Inr True)" for steps
    by (rule published_file_arrives [OF publisher(2,3) tree(1,2) downloader(1) room(1) refl room(2,4) answer pend d that])
  have result: "r = Inr True \<and>
      fs_nodes (fst (snd (download_end L (rocks_store L R) r (?run steps d) sender_open)))
        (path_join_str (path_of_string (dreq_download_path request)) (md_original_file_name m)) = Some (FileNode content)"
    if "list_all (served_by serve) steps" "download_result md (?run steps d) = Some r" for steps r
  proof -
    have "r = Inr True" using ended [OF that(1)] that(2) by simp
    with arrives [of steps] that(2) show ?thesis by simp
  qed
  show ?thesis
    unfolding serves(1)
    by (intro exI [of _ fs'] exI [of _ commands] exI [of _ d] conjI allI impI answer d pend [folded publisher(4)])
       (use continued result in blast)+
qed

theorem publication_can_be_downloaded_witness:
  "\<exists>fs1 n' s' fs' commands d rest.
    process_file dl_M grpc_libs sample_disk (\<lambda>_ _. 2) (\<lambda>_. None) ''/f'' True = (Inr sample_metadata, fs1) \<and>
    file_publish net_env (toy_node sample_trees) (Inr sample_metadata) = Some n' \<and>
    download_file_answer grpc_libs net_S sample_trees (sample_fs Map.empty) grpc_request
      (Some (metadata_reply grpc_libs (metadata_response net_env fs1 (nd_store n') (u64_of_key net_key)))) True =
      (Inr (), s', fs', commands) \<and>
    download_start grpc_libs s' fs' net_record = Inr (sample_metadata, d) \<and>
    download_result sample_metadata (dl_run dl_M grpc_libs net_S rest d) = Some (Inr True)"
proof (rule net_publication, rule net_published, rule grpc_accepted)
  fix fs1 n' s' fs' commands
  assume pf: "process_file dl_M grpc_libs sample_disk (\<lambda>_ _. 2) (\<lambda>_. None) ''/f'' True = (Inr sample_metadata, fs1)"
    and pub: "file_publish net_env (toy_node sample_trees) (Inr sample_metadata) = Some n'"
    and get: "get_published_file (ev_store net_env) (nd_store n') net_key = Inr (Some (published_of_pending grpc_record True))"
    and a: "download_file_answer grpc_libs net_S sample_trees (sample_fs Map.empty) grpc_request
      (Some (Some sample_metadata)) True = (Inr (), s', fs', commands)"
  have h: "healthy sample_disk" by (simp add: sample_disk_def)
  have env: "ev_store net_env = rocks_store grpc_libs sample_db" "ev_libs net_env = grpc_libs"
    "rocks_inv grpc_libs sample_db sample_contents (nd_store (toy_node sample_trees))"
    by (simp_all add: net_env_def grpc_store_inv)
  have room: "room_for (sample_fs Map.empty) grpc_request sample_metadata"
    by (simp add: room_for_def net_base [symmetric] node_at_def Let_def is_file_node_def path_join_plain plain_name_def)
  have same: "sample_metadata = sample_metadata\<lparr>md_chunks_dir := download_dir grpc_request sample_metadata\<rparr>"
    by (simp add: grpc_dir)
  have enc: "enc_metadata grpc_libs sample_metadata = Inr [1]" by (simp add: grpc_libs_def)
  have put: "put_pending_download net_S sample_trees net_record = (Inr (), s')"
    using a by (auto elim!: download_answer_Inr)
  from publication_can_be_downloaded [OF h pf sample_read refl pub env get [unfolded net_key_def] sample_crypto
      grpc_store_inv room refl same enc put refl, of True]
  obtain fs2 cmds d where
    "download_file_answer grpc_libs net_S sample_trees (sample_fs Map.empty) grpc_request
      (Some (metadata_reply grpc_libs (metadata_response net_env fs1 (nd_store n') (u64_of_key net_key)))) True =
      (Inr (), s', fs2, cmds)"
    "download_start grpc_libs s' fs2 net_record = Inr (sample_metadata, d)"
    and run: "\<And>steps. list_all (served_by (\<lambda>i. chunk_response net_env fs1 (nd_store n') (chunk_request (chunk_of_record net_record i)))) steps \<Longrightarrow>
      \<exists>rest. download_result sample_metadata (dl_run dl_M grpc_libs net_S (steps @ rest) d) = Some (Inr True)"
    unfolding net_key_def by blast
  moreover obtain rest where "download_result sample_metadata (dl_run dl_M grpc_libs net_S rest d) = Some (Inr True)"
    using run [of "[]"] by auto
  ultimately show ?thesis using pf pub by blast
qed

text \<open>
  Claim C3. A chunk on its way through both event services: node A has published a file, and its
  handler of a request for one of the chunks sends that piece of the file. When this response
  reaches the loop of the requester, whatever the loop has done between sending the request and
  receiving it and whatever it does afterwards, the oneshot of the request is answered, exactly
  once and with the piece.
\<close>

theorem served_chunk_is_delivered:
  assumes publisher: "libs_ok (ev_libs EA)" "healthy fs0"
      "process_file M (ev_libs EA) fs0 rsize rfault file_path public = (Inr m, nd_fs nA)"
      "fs_read fs0 (path_of_string file_path) = Inr content"
      "get_published_file (ev_store EA) (nd_store nA) (key_of_u64 file_id) =
        Inr (Some (published_of_metadata (ev_libs EA) m))"
      "i < length (chunks_of CHUNK_SIZE content)" "request = \<lparr>creq_file_id = file_id, creq_chunk_id = i\<rparr>"
    and requester: "swarm_ok (ev_swarm E) V" "reachable E V (issued, lp_node l)"
      "polls_grow E V (before @ p # after) l" "distinct (taken_oneshots (before @ p # after))"
      "dom issued \<inter> set (taken_oneshots (before @ p # after)) = {}"
      "file_download_requests (nd_svc (lp_node l)) request_id = Some ch"
      "\<And>q r. q \<in> set before \<Longrightarrow> po_event q \<noteq> Some (FileDownload (Response request_id r))"
      "p2p_loop E before l = Looping l'"
    and network: "po_event p =
        Some (FileDownload (Response request_id (chunk_response EA (nd_fs nA) (nd_store nA) request)))"
  shows "let piece = Success (chunks_of CHUNK_SIZE content ! i);
      n = lp_node (end_state (p2p_loop E (before @ p # after) l)) in
    handle_swarm_event EA nA (FileDownload (Request request channel)) =
      nA\<lparr>nd_swarm := snd (send_response (ev_swarm EA) (nd_swarm nA) channel piece)\<rparr> \<and>
    {r. (ch, r) \<in> set (nd_replies n)} = {ChunkReply (Some piece)}"
proof -
  let ?n = "lp_node (end_state (p2p_loop E (before @ p # after) l))"
  have piece: "chunk_response EA (nd_fs nA) (nd_store nA) request = Success (chunks_of CHUNK_SIZE content ! i)"
    using published_chunk_response [OF publisher(1-5), of i] publisher(6,7) by simp
  have reply: "(ch, ChunkReply (Some (Success (chunks_of CHUNK_SIZE content ! i)))) \<in> set (nd_replies ?n)"
    by (rule response_is_delivered [OF requester network [unfolded piece]])
  obtain issued' where "reachable E V (issued', ?n)" using p2p_loop_reachable [OF requester(2-5)] by blast
  then have "distinct (map fst (nd_replies ?n))"
    using reachable_inv [OF _ requester(1)] ledger_invD(2) by fastforce
  then have "r = ChunkReply (Some (Success (chunks_of CHUNK_SIZE content ! i)))" if "(ch, r) \<in> set (nd_replies ?n)" for r
    using eq_key_imp_eq_value [OF _ that reply] by blast
  with reply have "{r. (ch, r) \<in> set (nd_replies ?n)} = {ChunkReply (Some (Success (chunks_of CHUNK_SIZE content ! i)))}"
    by blast
  moreover have "handle_swarm_event EA nA (FileDownload (Request request channel)) =
      nA\<lparr>nd_swarm := snd (send_response (ev_swarm EA) (nd_swarm nA) channel (Success (chunks_of CHUNK_SIZE content ! i)))\<rparr>"
    by (simp add: handle_swarm_event_def file_download_def send_file_response_def piece)
  ultimately show ?thesis unfolding Let_def by (rule conjI [rotated])
qed

text \<open>The requester meets the failure of another request before the response comes.\<close>

definition noise_poll :: "(toy_swarm, trees) poll" where
  "noise_poll = (toy_poll 2)\<lparr>po_event := Some (FileDownload OtherRr)\<rparr>"

definition answered_poll :: "FileResponse \<Rightarrow> (toy_swarm, trees) poll" where
  "answered_poll response = (toy_poll 2)\<lparr>po_event := Some (FileDownload (Response 1 response))\<rparr>"

theorem served_chunk_is_delivered_witness:
  "\<exists>nA. handle_swarm_event serving_env nA (FileDownload (Request \<lparr>creq_file_id = 7, creq_chunk_id = 0\<rparr> 3)) =
      nA\<lparr>nd_swarm := snd (send_response (toy_ops 9) (nd_swarm nA) 3 (Success [1, 2, 3]))\<rparr> \<and>
    {r. (6, r) \<in> set (nd_replies (lp_node (end_state (p2p_loop (toy_env 9) ([noise_poll] @ answered_poll
      (chunk_response serving_env (nd_fs nA) (nd_store nA) \<lparr>creq_file_id = 7, creq_chunk_id = 0\<rparr>) # [toy_poll 2])
      asking_loop))))} = {ChunkReply (Some (Success [1, 2, 3]))}"
proof (rule sample_publication, rule asking_run)
  fix fs1 issued
  let ?nA = "(toy_node sample_trees)\<lparr>nd_fs := fs1\<rparr>" and ?q = "\<lparr>creq_file_id = 7, creq_chunk_id = 0\<rparr>"
  let ?p = "answered_poll (chunk_response serving_env (nd_fs ?nA) (nd_store ?nA) ?q)"
  assume pf: "process_file dl_M sample_world_libs sample_disk (\<lambda>_ _. 2) (\<lambda>_. None) ''/f'' True =
    (Inr sample_metadata, fs1)"
  assume r: "reachable (toy_env 9) toy_view (issued, lp_node asking_loop)"
    and sent: "file_download_requests (nd_svc (lp_node asking_loop)) 1 = Some 6"
    and start: "toy_next (nd_swarm (lp_node asking_loop)) = 2" "toy_provided (nd_swarm (lp_node asking_loop)) = []"
  note defs = noise_poll_def answered_poll_def toy_poll_def select_branch_def run_branch_def polled_def
    handle_swarm_event_def file_download_def toy_node_def
  have run: "\<exists>l'. p2p_loop (toy_env 9) [noise_poll] asking_loop = Looping l' \<and> toy_next (nd_swarm (lp_node l')) = 2 \<and>
      toy_provided (nd_swarm (lp_node l')) = []"
    by (simp add: defs)
  then obtain l' where l': "p2p_loop (toy_env 9) [noise_poll] asking_loop = Looping l'" by blast
  have grow: "polls_grow (toy_env 9) toy_view ([noise_poll] @ ?p # [toy_poll 2]) asking_loop"
    by (auto simp: start defs swarm_grows_def toy_view_def handle_file_download_response_def send_oneshot_def
        split: option.split)
  have taken: "taken_oneshots ([noise_poll] @ ?p # [toy_poll 2]) = []" by (simp add: defs)
  have event: "po_event q \<noteq> Some (FileDownload (Response 1 x))" if "q \<in> set [noise_poll]" for q x
    using that by (simp add: noise_poll_def)
  have env: "ev_libs serving_env = sample_world_libs" "libs_ok (ev_libs serving_env)" "healthy sample_disk"
    "ev_swarm serving_env = toy_ops 9"
    "get_published_file (ev_store serving_env) (nd_store ?nA) (key_of_u64 7) =
      Inr (Some (published_of_metadata (ev_libs serving_env) sample_metadata))"
    by (simp_all add: serving_env_def sample_disk_def)
  have d: "distinct (taken_oneshots ([noise_poll] @ ?p # [toy_poll 2]))"
    "dom issued \<inter> set (taken_oneshots ([noise_poll] @ ?p # [toy_poll 2])) = {}" by (simp_all only: taken) simp_all
  have e: "po_event ?p = Some (FileDownload (Response 1 (chunk_response serving_env (nd_fs ?nA) (nd_store ?nA) ?q)))"
    by (simp add: answered_poll_def)
  have pf': "process_file dl_M (ev_libs serving_env) sample_disk (\<lambda>_ _. 2) (\<lambda>_. None) ''/f'' True =
    (Inr sample_metadata, nd_fs ?nA)" using pf by (simp add: env)
  have len: "0 < length (chunks_of CHUNK_SIZE [1, 2, 3 :: byte])" "chunks_of CHUNK_SIZE [1, 2, 3 :: byte] ! 0 = [1, 2, 3]"
    by (simp_all add: sample_chunks)
  from served_chunk_is_delivered [OF env(2,3) pf' sample_read env(5) len(1) refl toy_swarm_ok [of 9, folded toy_env_simps(1)]
      r grow d sent event l' e, of 3, unfolded Let_def len(2) env(4)]
  show ?thesis by (rule exI)
qed

end
